(* ===== verification/Prelude.thy ===== *)
theory Prelude
  imports Complex_Main "HOL-Library.AList" "HOL-Library.Sublist" "HOL-Library.Multiset"
begin

text \<open>
  Shared vocabulary of the development: Go's instants and durations, Go maps as association
  lists, the string predicates of the \<^verbatim>\<open>strings\<close> package, error values, and the generic lemmas
  and locales that the component theories build on.
\<close>

named_theorems time_consts "numeric values of the durations declared as Go constants"
named_theorems inv_intros "an operation keeps an invariant"

section \<open>Instants and durations\<close>

text \<open>
  A \<^verbatim>\<open>time.Time\<close> is an integer number of nanoseconds after Go's zero time (1 January of year 1),
  so \<^verbatim>\<open>time.Time{}\<close> is \<open>0\<close>, \<^verbatim>\<open>IsZero\<close> is \<open>t = 0\<close>, \<^verbatim>\<open>Before\<close> is \<open><\<close> and
  \<^verbatim>\<open>Add\<close> is \<open>+\<close>. A \<^verbatim>\<open>*time.Time\<close> is a \<^typ>\<open>int option\<close>: the plugin never writes through such
  a pointer. \<^verbatim>\<open>Sub\<close> saturates at the range of \<^verbatim>\<open>time.Duration\<close> (64 bits), which matters for
  the distance to the zero time.
\<close>

type_synonym time = int
type_synonym duration = int

abbreviation (input) zero_time :: time where
  "zero_time \<equiv> 0"

definition max_duration :: duration where
  "max_duration = 2 ^ 63 - 1"

definition min_duration :: duration where
  "min_duration = - (2 ^ 63)"

definition time_sub :: "time \<Rightarrow> time \<Rightarrow> duration" where
  "time_sub t u = max min_duration (min max_duration (t - u))"

definition second :: duration where
  "second = 1000000000"

definition minute :: duration where
  "minute = 60 * second"

definition hour :: duration where
  "hour = 60 * minute"

lemmas duration_units [time_consts] = second_def minute_def hour_def

lemma second_pos [simp]: "0 < second"
  by (simp add: second_def)

lemma minute_pos [simp]: "0 < minute"
  by (simp add: minute_def)

lemma hour_pos [simp]: "0 < hour"
  by (simp add: hour_def)

text \<open>Saturation only rounds towards zero, so comparisons with a representable bound are exact.\<close>

lemma time_sub_ge_iff:
  assumes "min_duration < d" and "d \<le> max_duration"
  shows "d \<le> time_sub t u \<longleftrightarrow> u + d \<le> t"
  using assms by (auto simp: time_sub_def min_def max_def)

lemma time_sub_le_iff:
  assumes "min_duration \<le> d" and "d < max_duration"
  shows "time_sub t u \<le> d \<longleftrightarrow> t \<le> u + d"
  using assms by (auto simp: time_sub_def min_def max_def)

section \<open>Go maps\<close>

text \<open>
  A Go map is an association list with distinct keys, read by \<^const>\<open>map_of\<close>, written by
  \<^const>\<open>AList.update\<close> and \<^const>\<open>AList.delete\<close>. The order of the list stands for the order in
  which the next \<^verbatim>\<open>range\<close> loop visits the entries. Go leaves that order unspecified; the theorems
  quantify over every list, so over every order.
\<close>

type_synonym 'v gomap = "(string \<times> 'v) list"

abbreviation keys :: "'v gomap \<Rightarrow> string list" where
  "keys m \<equiv> map fst m"

lemma map_of_update [simp]: "map_of (AList.update k v m) = (map_of m)(k \<mapsto> v)"
  by (rule ext) (simp add: update_conv)

lemma map_of_delete [simp]: "map_of (AList.delete k m) = (map_of m)(k := None)"
  by (rule ext) (simp add: delete_conv)

lemma distinct_keys_update [simp]:
  "distinct (keys m) \<Longrightarrow> distinct (keys (AList.update k v m))"
  by (rule distinct_update)

lemma distinct_keys_delete [simp]:
  "distinct (keys m) \<Longrightarrow> distinct (keys (AList.delete k m))"
  by (rule distinct_delete)

lemma map_of_iff_mem:
  "distinct (keys m) \<Longrightarrow> map_of m k = Some v \<longleftrightarrow> (k, v) \<in> set m"
  by (simp add: map_of_eq_Some_iff)

section \<open>Strings\<close>

text \<open>
  \<^verbatim>\<open>strings.Contains\<close>, \<^verbatim>\<open>strings.HasPrefix\<close> and \<^verbatim>\<open>strings.ToLower\<close>. Strings are byte sequences;
  \<open>ToLower\<close> maps the ASCII letters, which are the only letters in the patterns the plugin searches.
\<close>

abbreviation Contains :: "string \<Rightarrow> string \<Rightarrow> bool" where
  "Contains s sub \<equiv> sublist sub s"

abbreviation HasPrefix :: "string \<Rightarrow> string \<Rightarrow> bool" where
  "HasPrefix s p \<equiv> prefix p s"

definition lower_char :: "char \<Rightarrow> char" where
  "lower_char c =
     (if 65 \<le> (of_char c :: nat) \<and> (of_char c :: nat) \<le> 90
      then char_of ((of_char c :: nat) + 32) else c)"

definition ToLower :: "string \<Rightarrow> string" where
  "ToLower s = map lower_char s"

text \<open>Decimal digits, for the \<^verbatim>\<open>%d\<close> of format strings.\<close>

fun decimal :: "nat \<Rightarrow> string" where
  "decimal n = (if n < 10 then [char_of (48 + n)] else decimal (n div 10) @ [char_of (48 + n mod 10)])"

declare decimal.simps [simp del]

section \<open>Transition systems\<close>

text \<open>
  A component that runs concurrently with others is a step relation. An invariant that holds at
  the start and that every step keeps holds in every reachable state.
\<close>

inductive reachable :: "('s \<Rightarrow> bool) \<Rightarrow> ('s \<Rightarrow> 's \<Rightarrow> bool) \<Rightarrow> 's \<Rightarrow> bool"
  for init :: "'s \<Rightarrow> bool" and step :: "'s \<Rightarrow> 's \<Rightarrow> bool" where
  reachable_init: "init s \<Longrightarrow> reachable init step s"
| reachable_step: "reachable init step s \<Longrightarrow> step s t \<Longrightarrow> reachable init step t"

locale invariant_system =
  fixes init :: "'s \<Rightarrow> bool" and step :: "'s \<Rightarrow> 's \<Rightarrow> bool" and inv :: "'s \<Rightarrow> bool"
  assumes inv_init: "init s \<Longrightarrow> inv s"
    and inv_step: "inv s \<Longrightarrow> step s t \<Longrightarrow> inv t"
begin

lemma inv_reachable: "reachable init step s \<Longrightarrow> inv s"
  by (induction rule: reachable.induct) (auto intro: inv_init inv_step)

lemma inv_steps: "step\<^sup>*\<^sup>* s t \<Longrightarrow> inv s \<Longrightarrow> inv t"
  by (induction rule: rtranclp_induct) (auto intro: inv_step)

end

text \<open>
  Data refinement of a component with operations \<open>'o\<close>: each concrete operation keeps the
  representation invariant and commutes with the abstraction, so whole sequences do.
\<close>

fun all_pre :: "('o \<Rightarrow> 'a \<Rightarrow> bool) \<Rightarrow> ('o \<Rightarrow> 'a \<Rightarrow> 'a) \<Rightarrow> 'o list \<Rightarrow> 'a \<Rightarrow> bool" where
  "all_pre pre astep [] a \<longleftrightarrow> True"
| "all_pre pre astep (x # xs) a \<longleftrightarrow> pre x a \<and> all_pre pre astep xs (astep x a)"

locale simulation =
  fixes inv :: "'c \<Rightarrow> bool" and abs :: "'c \<Rightarrow> 'a"
    and cstep :: "'o \<Rightarrow> 'c \<Rightarrow> 'c" and astep :: "'o \<Rightarrow> 'a \<Rightarrow> 'a" and pre :: "'o \<Rightarrow> 'a \<Rightarrow> bool"
  assumes keep: "inv c \<Longrightarrow> pre x (abs c) \<Longrightarrow> inv (cstep x c)"
    and commute: "inv c \<Longrightarrow> pre x (abs c) \<Longrightarrow> abs (cstep x c) = astep x (abs c)"
begin

lemma run:
  "inv c \<Longrightarrow> all_pre pre astep xs (abs c) \<Longrightarrow>
     inv (fold cstep xs c) \<and> abs (fold cstep xs c) = fold astep xs (abs c)"
  by (induction xs arbitrary: c) (auto simp: keep commute)

end

end
