(* ===== verification/External.thy ===== *)
theory External
  imports Prelude
begin

text \<open>
  The two third-party packages whose behaviour the control loop depends on, as parameters:
  \<^verbatim>\<open>github.com/cenkalti/backoff/v4\<close> and \<^verbatim>\<open>golang.org/x/sync/semaphore\<close>. A record holds the
  functions the plugin calls; nothing is assumed of them but the named hypotheses below, which
  restate their package documentation.
\<close>

section \<open>Exponential backoff\<close>

datatype bo_option =
    WithInitialInterval duration
  | WithMultiplier rat
  | WithMaxInterval duration
  | WithRandomizationFactor rat
  | WithMaxElapsedTime duration

text \<open>
  \<open>'b\<close> is the state behind a \<^verbatim>\<open>*backoff.ExponentialBackOff\<close>, its random source included, so that
  \<^verbatim>\<open>NextBackOff\<close> is a function of it.
\<close>

record 'b bo_lib =
  NewExponentialBackOff :: "bo_option list \<Rightarrow> 'b"
  NextBackOff :: "'b \<Rightarrow> duration \<times> 'b"
  Reset :: "'b \<Rightarrow> 'b"

text \<open>
  The documented behaviour of a backoff made with the options \<open>opts\<close>, whose initial interval is
  \<open>I\<close>, multiplier \<open>m\<close>, maximal interval \<open>M\<close> and randomization factor \<open>rf\<close>, and which never stops
  (\<^verbatim>\<open>MaxElapsedTime\<close> is 0): each call returns the retry interval times a random factor between
  \<open>1 - rf\<close> and \<open>1 + rf\<close> and multiplies the retry interval by \<open>m\<close> up to \<open>M\<close>; \<^verbatim>\<open>Reset\<close> goes back
  to the initial interval. \<open>made b\<close> says that \<open>b\<close> is such a backoff, \<open>cur b\<close> is its retry interval.
\<close>

definition backoff_documented ::
    "'b bo_lib \<Rightarrow> bo_option list \<Rightarrow> duration \<Rightarrow> rat \<Rightarrow> duration \<Rightarrow> rat \<Rightarrow> ('b \<Rightarrow> bool) \<Rightarrow> ('b \<Rightarrow> rat) \<Rightarrow> bool"
    where
  "backoff_documented lib opts I m M rf made cur \<longleftrightarrow>
     made (NewExponentialBackOff lib opts) \<and>
     cur (NewExponentialBackOff lib opts) = of_int I \<and>
     (\<forall>b. made b \<longrightarrow>
        of_int I \<le> cur b \<and> cur b \<le> of_int M \<and>
        made (Reset lib b) \<and> cur (Reset lib b) = of_int I \<and>
        made (snd (NextBackOff lib b)) \<and>
        cur (snd (NextBackOff lib b)) = min (m * cur b) (of_int M) \<and>
        (1 - rf) * cur b \<le> of_int (fst (NextBackOff lib b)) \<and>
        of_int (fst (NextBackOff lib b)) \<le> (1 + rf) * cur b)"

lemma backoff_documentedD:
  assumes "backoff_documented lib opts I m M rf made cur"
  shows "made (NewExponentialBackOff lib opts)"
    and "cur (NewExponentialBackOff lib opts) = of_int I"
    and "made b \<Longrightarrow> made (Reset lib b)"
    and "made b \<Longrightarrow> cur (Reset lib b) = of_int I"
    and "made b \<Longrightarrow> made (snd (NextBackOff lib b))"
    and "made b \<Longrightarrow> cur (snd (NextBackOff lib b)) = min (m * cur b) (of_int M)"
    and "made b \<Longrightarrow> (1 - rf) * cur b \<le> of_int (fst (NextBackOff lib b))"
    and "made b \<Longrightarrow> of_int (fst (NextBackOff lib b)) \<le> (1 + rf) * cur b"
    and "made b \<Longrightarrow> of_int I \<le> cur b" and "made b \<Longrightarrow> cur b \<le> of_int M"
  using assms by (auto simp: backoff_documented_def)

text \<open>What a caller that only needs bounds uses: every pause is between two constants.\<close>

lemma NextBackOff_bounds:
  assumes doc: "backoff_documented lib opts I m M rf made cur" and b: "made b"
    and rf: "0 \<le> rf" "rf \<le> 1"
  shows "(1 - rf) * of_int I \<le> of_int (fst (NextBackOff lib b))"
    and "of_int (fst (NextBackOff lib b)) \<le> (1 + rf) * of_int M"
proof -
  note D = backoff_documentedD [OF doc]
  have "(1 - rf) * of_int I \<le> (1 - rf) * cur b"
    using D(9) [OF b] rf by (intro mult_left_mono) auto
  then show "(1 - rf) * of_int I \<le> of_int (fst (NextBackOff lib b))"
    using D(7) [OF b] by linarith
  have "(1 + rf) * cur b \<le> (1 + rf) * of_int M"
    using D(10) [OF b] rf by (intro mult_left_mono) auto
  then show "of_int (fst (NextBackOff lib b)) \<le> (1 + rf) * of_int M"
    using D(8) [OF b] by linarith
qed

section \<open>Weighted semaphores\<close>

text \<open>
  \<open>'s\<close> is the state behind a \<^verbatim>\<open>*semaphore.Weighted\<close>. \<^verbatim>\<open>Acquire\<close> blocks; here it gives \<open>None\<close>
  while it would block.
\<close>

record 's sem_lib =
  NewWeighted :: "int \<Rightarrow> 's"
  TryAcquire :: "'s \<Rightarrow> int \<Rightarrow> bool \<times> 's"
  Release :: "'s \<Rightarrow> int \<Rightarrow> 's"
  Acquire :: "'s \<Rightarrow> int \<Rightarrow> 's option"

text \<open>
  The documented behaviour, for the weight held \<open>cur\<close> and the capacity \<open>cap\<close>: an acquisition that
  succeeds stays within the capacity, one that fails leaves the semaphore unchanged, a release gives
  back what was taken.
\<close>

definition semaphore_documented :: "'s sem_lib \<Rightarrow> ('s \<Rightarrow> int) \<Rightarrow> ('s \<Rightarrow> int) \<Rightarrow> bool" where
  "semaphore_documented lib cur cap \<longleftrightarrow>
     (\<forall>n. cur (NewWeighted lib n) = 0 \<and> cap (NewWeighted lib n) = n) \<and>
     (\<forall>s n s'. TryAcquire lib s n = (True, s') \<longrightarrow>
        cur s + n \<le> cap s \<and> cur s' = cur s + n \<and> cap s' = cap s) \<and>
     (\<forall>s n s'. TryAcquire lib s n = (False, s') \<longrightarrow> s' = s) \<and>
     (\<forall>s n. n \<le> cur s \<longrightarrow> cur (Release lib s n) = cur s - n \<and> cap (Release lib s n) = cap s) \<and>
     (\<forall>s n s'. Acquire lib s n = Some s' \<longrightarrow>
        cur s + n \<le> cap s \<and> cur s' = cur s + n \<and> cap s' = cap s)"

text \<open>With nobody waiting, an acquisition that fits succeeds.\<close>

definition semaphore_available :: "'s sem_lib \<Rightarrow> ('s \<Rightarrow> int) \<Rightarrow> ('s \<Rightarrow> int) \<Rightarrow> bool" where
  "semaphore_available lib cur cap \<longleftrightarrow>
     (\<forall>s n. 0 \<le> n \<and> cur s + n \<le> cap s \<longrightarrow> fst (TryAcquire lib s n))"

lemma semaphore_documentedD:
  assumes "semaphore_documented lib cur cap"
  shows "cur (NewWeighted lib n) = 0" and "cap (NewWeighted lib n) = n"
    and "TryAcquire lib s n = (True, s') \<Longrightarrow> cur s + n \<le> cap s"
    and "TryAcquire lib s n = (True, s') \<Longrightarrow> cur s' = cur s + n"
    and "TryAcquire lib s n = (True, s') \<Longrightarrow> cap s' = cap s"
    and "TryAcquire lib s n = (False, s') \<Longrightarrow> s' = s"
    and "n \<le> cur s \<Longrightarrow> cur (Release lib s n) = cur s - n"
    and "n \<le> cur s \<Longrightarrow> cap (Release lib s n) = cap s"
    and "Acquire lib s n = Some s' \<Longrightarrow> cur s + n \<le> cap s"
    and "Acquire lib s n = Some s' \<Longrightarrow> cur s' = cur s + n"
    and "Acquire lib s n = Some s' \<Longrightarrow> cap s' = cap s"
  using assms unfolding semaphore_documented_def by blast+

section \<open>The hypotheses can hold\<close>

text \<open>
  Concrete functions that satisfy the hypotheses, for the witnesses: a backoff without jitter whose
  state is its retry interval, and a counting semaphore.
\<close>

definition plain_backoff :: "duration \<Rightarrow> duration \<Rightarrow> duration bo_lib" where
  "plain_backoff I M =
     \<lparr>NewExponentialBackOff = (\<lambda>opts. I),
      NextBackOff = (\<lambda>b. (b, min (2 * b) M)),
      Reset = (\<lambda>b. I)\<rparr>"

definition counting_sem :: "(int \<times> int) sem_lib" where
  "counting_sem =
     \<lparr>NewWeighted = (\<lambda>n. (0, n)),
      TryAcquire = (\<lambda>(c, k) n. if c + n \<le> k then (True, (c + n, k)) else (False, (c, k))),
      Release = (\<lambda>(c, k) n. (c - n, k)),
      Acquire = (\<lambda>(c, k) n. if c + n \<le> k then Some (c + n, k) else None)\<rparr>"

lemma plain_backoff_documented:
  assumes "0 < I" and "I \<le> M" and "0 \<le> rf"
  shows "backoff_documented (plain_backoff I M) opts I 2 M rf (\<lambda>b. I \<le> b \<and> b \<le> M) of_int"
proof -
  have "(1 - rf) * of_int b \<le> of_int b" and "of_int b \<le> (1 + rf) * of_int b"
    if "I \<le> b" for b :: int
  proof -
    have "0 \<le> rf * of_int b" using assms that by simp
    then show "(1 - rf) * of_int b \<le> of_int b" and "of_int b \<le> (1 + rf) * of_int b"
      by (simp_all add: algebra_simps)
  qed
  then show ?thesis using assms by (auto simp: backoff_documented_def plain_backoff_def of_int_min)
qed

lemma counting_sem_documented: "semaphore_documented counting_sem fst snd"
  by (auto simp: semaphore_documented_def counting_sem_def split: if_splits)

lemma counting_sem_available: "semaphore_available counting_sem fst snd"
  by (auto simp: semaphore_available_def counting_sem_def)

end
