(* ===== verification/Throttle.thy ===== *)
theory Throttle
  imports External
begin

text \<open>
  The throttle gate of \<^verbatim>\<open>src/throttle.go\<close>: after vCD rejects a request because the organization
  reached its operation limit, the whole group pauses. The gate's mutex makes each method atomic;
  \<open>now\<close> is what its clock returns. A \<^verbatim>\<open>*throttleGate\<close> may be nil, so the methods take an option.
\<close>

section \<open>State and operations\<close>

record 'b throttleGate =
  bo :: 'b
  pausedUntil :: time
  group :: string

definition throttleInitialPause :: duration where
  "throttleInitialPause = 15 * second"

definition throttleMaxPause :: duration where
  "throttleMaxPause = 5 * minute"

definition throttleJitter :: rat where
  "throttleJitter = 1 / 2"

definition throttle_options :: "bo_option list" where
  "throttle_options = [WithInitialInterval throttleInitialPause, WithMultiplier 2,
     WithMaxInterval throttleMaxPause, WithRandomizationFactor throttleJitter, WithMaxElapsedTime 0]"

definition newThrottleGate :: "'b bo_lib \<Rightarrow> string \<Rightarrow> 'b throttleGate" where
  "newThrottleGate lib g =
     \<lparr>bo = NewExponentialBackOff lib throttle_options, pausedUntil = zero_time, group = g\<rparr>"

fun throttled :: "'b bo_lib \<Rightarrow> time \<Rightarrow> 'b throttleGate option \<Rightarrow> 'b throttleGate option" where
  "throttled lib now None = None"
| "throttled lib now (Some g) =
     (if now < pausedUntil g then Some g
      else (let (pause, b) = NextBackOff lib (bo g)
            in Some (g\<lparr>bo := b, pausedUntil := now + pause\<rparr>)))"

fun succeeded :: "'b bo_lib \<Rightarrow> 'b throttleGate option \<Rightarrow> 'b throttleGate option" where
  "succeeded lib None = None"
| "succeeded lib (Some g) = Some (g\<lparr>bo := Reset lib (bo g)\<rparr>)"

fun paused :: "time \<Rightarrow> 'b throttleGate option \<Rightarrow> bool" where
  "paused now None = False"
| "paused now (Some g) = (now < pausedUntil g)"

fun until :: "time \<Rightarrow> 'b throttleGate option \<Rightarrow> time" where
  "until now None = zero_time"
| "until now (Some g) = (if now < pausedUntil g then pausedUntil g else zero_time)"

text \<open>
  \<^verbatim>\<open>wait\<close> re-reads the gate after each timer. What the loop sees in its \<open>n\<close>-th iteration comes from
  the environment: \<open>obs n\<close> is the gate's \<^verbatim>\<open>pausedUntil\<close> and the clock, \<open>ctxErr n\<close> whether the context
  has ended by then, \<open>ctxDone n\<close> whether the context ends before the timer of that iteration fires.
  The value \<open>Some True\<close> is the return of a context error, \<open>Some False\<close> of nil, \<open>None\<close> is a loop that
  never returns.
\<close>

partial_function (option) wait_loop ::
    "(nat \<Rightarrow> time \<times> time) \<Rightarrow> (nat \<Rightarrow> bool) \<Rightarrow> (nat \<Rightarrow> bool) \<Rightarrow> nat \<Rightarrow> bool option" where
  "wait_loop obs ctxErr ctxDone n =
     (if time_sub (fst (obs n)) (snd (obs n)) \<le> 0 then Some (ctxErr n)
      else if ctxDone n then Some True
      else wait_loop obs ctxErr ctxDone (Suc n))"

section \<open>A gate made with the plugin's options\<close>

definition gate_ok :: "'b bo_lib \<Rightarrow> ('b \<Rightarrow> bool) \<Rightarrow> ('b \<Rightarrow> rat) \<Rightarrow> 'b throttleGate \<Rightarrow> bool" where
  "gate_ok lib made cur g \<longleftrightarrow>
     backoff_documented lib throttle_options throttleInitialPause 2 throttleMaxPause throttleJitter made cur
     \<and> made (bo g)"

lemma newThrottleGate_ok:
  assumes "backoff_documented lib throttle_options throttleInitialPause 2 throttleMaxPause throttleJitter made cur"
  shows "gate_ok lib made cur (newThrottleGate lib g)"
  using assms backoff_documentedD(1) [OF assms] by (simp add: gate_ok_def newThrottleGate_def)

lemma throttled_ok:
  assumes "gate_ok lib made cur g" and "throttled lib now (Some g) = Some g'"
  shows "gate_ok lib made cur g'"
  using assms backoff_documentedD(5) [of lib throttle_options throttleInitialPause 2 throttleMaxPause throttleJitter made cur "bo g"]
  by (auto simp: gate_ok_def split: if_splits prod.splits)

lemma succeeded_ok:
  assumes "gate_ok lib made cur g" and "succeeded lib (Some g) = Some g'"
  shows "gate_ok lib made cur g'"
  using assms backoff_documentedD(3) [of lib throttle_options throttleInitialPause 2 throttleMaxPause throttleJitter made cur "bo g"]
  by (auto simp: gate_ok_def)

lemma throttled_pause_bounds:
  assumes ok: "gate_ok lib made cur g" and fresh: "\<not> now < pausedUntil g"
    and t: "throttled lib now (Some g) = Some g'"
  shows "now + 7500000000 \<le> pausedUntil g'" and "pausedUntil g' \<le> now + 450000000000"
proof -
  have doc: "backoff_documented lib throttle_options throttleInitialPause 2 throttleMaxPause throttleJitter made cur"
    and b: "made (bo g)" using ok by (auto simp: gate_ok_def)
  note B = NextBackOff_bounds [OF doc b]
  have "(7500000000 :: rat) \<le> of_int (fst (NextBackOff lib (bo g)))"
    and "of_int (fst (NextBackOff lib (bo g))) \<le> (450000000000 :: rat)"
    using B by (simp_all add: throttleJitter_def throttleInitialPause_def throttleMaxPause_def time_consts)
  then have "7500000000 \<le> fst (NextBackOff lib (bo g))" and "fst (NextBackOff lib (bo g)) \<le> 450000000000"
    by linarith+
  then show "now + 7500000000 \<le> pausedUntil g'" and "pausedUntil g' \<le> now + 450000000000"
    using t fresh by (auto split: prod.splits)
qed

end
