(* ===== verification/Limiter.thy ===== *)
theory Limiter
  imports Throttle
begin

text \<open>
  The operation limiter of \<^verbatim>\<open>src/oplimiter.go\<close>: three semaphores and two counters. The gate that
  \<^verbatim>\<open>tryAcquire\<close> asks is the reconciler's throttle gate, passed as an argument.
\<close>

section \<open>State and operations\<close>

datatype opKind = opCreate | opDelete

record 's opLimiter =
  opl_size :: int
  total :: 's
  creates :: 's
  deletes :: 's
  reserve :: bool
  deletesInUse :: int
  createsInUse :: int

definition newOpLimiter :: "'s sem_lib \<Rightarrow> int \<Rightarrow> int \<Rightarrow> int \<Rightarrow> 's opLimiter" where
  "newOpLimiter sem tot maxCreates maxDeletes =
     \<lparr>opl_size = tot, total = NewWeighted sem tot, creates = NewWeighted sem (min maxCreates tot),
      deletes = NewWeighted sem (min maxDeletes tot), reserve = True, deletesInUse = 0, createsInUse = 0\<rparr>"

definition setCreateReserve :: "bool \<Rightarrow> 's opLimiter \<Rightarrow> 's opLimiter" where
  "setCreateReserve on l = l\<lparr>reserve := on\<rparr>"

fun kindSem :: "opKind \<Rightarrow> 's opLimiter \<Rightarrow> 's" where
  "kindSem opDelete l = deletes l"
| "kindSem opCreate l = creates l"

fun set_kindSem :: "opKind \<Rightarrow> 's \<Rightarrow> 's opLimiter \<Rightarrow> 's opLimiter" where
  "set_kindSem opDelete s l = l\<lparr>deletes := s\<rparr>"
| "set_kindSem opCreate s l = l\<lparr>creates := s\<rparr>"

fun inUse :: "opKind \<Rightarrow> 's opLimiter \<Rightarrow> int" where
  "inUse opDelete l = deletesInUse l"
| "inUse opCreate l = createsInUse l"

fun add_inUse :: "opKind \<Rightarrow> int \<Rightarrow> 's opLimiter \<Rightarrow> 's opLimiter" where
  "add_inUse opDelete n l = l\<lparr>deletesInUse := deletesInUse l + n\<rparr>"
| "add_inUse opCreate n l = l\<lparr>createsInUse := createsInUse l + n\<rparr>"

definition tryAcquire ::
    "'s sem_lib \<Rightarrow> time \<Rightarrow> 'b throttleGate option \<Rightarrow> opKind \<Rightarrow> 's opLimiter \<Rightarrow> bool \<times> 's opLimiter" where
  "tryAcquire sem now gate kind l =
     (if paused now gate then (False, l)
      else if kind = opDelete \<and> reserve l \<and> 1 < opl_size l \<and> opl_size l - 1 \<le> deletesInUse l
      then (False, l)
      else
        (case TryAcquire sem (kindSem kind l) 1 of
           (False, k) \<Rightarrow> (False, set_kindSem kind k l)
         | (True, k) \<Rightarrow>
             (let l = set_kindSem kind k l in
              case TryAcquire sem (total l) 1 of
                (False, t) \<Rightarrow>
                  (let l = l\<lparr>total := t\<rparr>
                   in (False, set_kindSem kind (Release sem (kindSem kind l) 1) l))
              | (True, t) \<Rightarrow> (True, add_inUse kind 1 (l\<lparr>total := t\<rparr>)))))"

definition release :: "'s sem_lib \<Rightarrow> opKind \<Rightarrow> 's opLimiter \<Rightarrow> 's opLimiter" where
  "release sem kind l =
     (let l = add_inUse kind (- 1) l;
          l = l\<lparr>total := Release sem (total l) 1\<rparr>
      in set_kindSem kind (Release sem (kindSem kind l) 1) l)"

text \<open>\<^verbatim>\<open>drain\<close> blocks while any slot is taken (\<open>None\<close>); it returns holding every slot.\<close>

definition drain :: "'s sem_lib \<Rightarrow> 's opLimiter \<Rightarrow> 's opLimiter option" where
  "drain sem l = map_option (\<lambda>t. l\<lparr>total := t\<rparr>) (Acquire sem (total l) (opl_size l))"

section \<open>The counters and the semaphores agree\<close>

definition limiter_ok ::
    "'s sem_lib \<Rightarrow> ('s \<Rightarrow> int) \<Rightarrow> ('s \<Rightarrow> int) \<Rightarrow> int \<Rightarrow> int \<Rightarrow> 's opLimiter \<Rightarrow> bool" where
  "limiter_ok sem cur cap maxCreates maxDeletes l \<longleftrightarrow>
     semaphore_documented sem cur cap \<and>
     cap (total l) = opl_size l \<and> cap (creates l) = min maxCreates (opl_size l) \<and>
     cap (deletes l) = min maxDeletes (opl_size l) \<and>
     cur (total l) = createsInUse l + deletesInUse l \<and>
     cur (creates l) = createsInUse l \<and> cur (deletes l) = deletesInUse l \<and>
     0 \<le> createsInUse l \<and> 0 \<le> deletesInUse l \<and>
     createsInUse l \<le> min maxCreates (opl_size l) \<and> deletesInUse l \<le> min maxDeletes (opl_size l) \<and>
     createsInUse l + deletesInUse l \<le> opl_size l \<and>
     reserve l \<and> (1 < opl_size l \<longrightarrow> deletesInUse l \<le> opl_size l - 1)"

lemma newOpLimiter_ok:
  assumes "semaphore_documented sem cur cap" and "0 \<le> tot" and "0 \<le> maxCreates" and "0 \<le> maxDeletes"
  shows "limiter_ok sem cur cap maxCreates maxDeletes (newOpLimiter sem tot maxCreates maxDeletes)"
  using assms semaphore_documentedD(1,2) [OF assms(1)] by (simp add: limiter_ok_def newOpLimiter_def)

text \<open>The outcome of \<^verbatim>\<open>tryAcquire\<close> by the answers of the two semaphores.\<close>

lemma tryAcquire_outcome:
  assumes "TryAcquire sem (kindSem kind l) 1 = (b, ks)" and "TryAcquire sem (total l) 1 = (c, t)"
  shows "tryAcquire sem now gate kind l =
           (if paused now gate \<or> kind = opDelete \<and> reserve l \<and> 1 < opl_size l \<and> opl_size l - 1 \<le> deletesInUse l
            then (False, l)
            else if \<not> b then (False, set_kindSem kind ks l)
            else if \<not> c then (False, set_kindSem kind (Release sem ks 1) (l\<lparr>total := t\<rparr>))
            else (True, add_inUse kind 1 ((set_kindSem kind ks l)\<lparr>total := t\<rparr>)))"
proof -
  have "total (set_kindSem kind ks l) = total l" by (cases kind) simp_all
  then show ?thesis using assms by (cases b; cases c; cases kind) (simp_all add: tryAcquire_def Let_def)
qed

lemma tryAcquire_True:
  assumes ok: "limiter_ok sem cur cap mc md l" and acq: "tryAcquire sem now gate kind l = (True, l')"
  shows "limiter_ok sem cur cap mc md l'" and "inUse kind l' = inUse kind l + 1"
    and "k \<noteq> kind \<Longrightarrow> inUse k l' = inUse k l" and "opl_size l' = opl_size l"
    and "\<not> paused now gate"
proof -
  have doc: "semaphore_documented sem cur cap" using ok by (simp add: limiter_ok_def)
  note S = semaphore_documentedD [OF doc]
  obtain b ks where ks0: "TryAcquire sem (kindSem kind l) 1 = (b, ks)" by fastforce
  obtain c t where t0: "TryAcquire sem (total l) 1 = (c, t)" by fastforce
  have bc: "b" "c" and l': "l' = add_inUse kind 1 ((set_kindSem kind ks l)\<lparr>total := t\<rparr>)"
    and g: "\<not> paused now gate" "\<not> (kind = opDelete \<and> reserve l \<and> 1 < opl_size l \<and> opl_size l - 1 \<le> deletesInUse l)"
    using acq unfolding tryAcquire_outcome [OF ks0 t0] by (simp_all split: if_splits)
  have ks: "TryAcquire sem (kindSem kind l) 1 = (True, ks)" and t: "TryAcquire sem (total l) 1 = (True, t)"
    using ks0 t0 bc by simp_all
  show "limiter_ok sem cur cap mc md l'"
    using ok g(2) S(3-5) [OF ks] S(3-5) [OF t] by (cases kind) (auto simp: limiter_ok_def l')
  show "inUse kind l' = inUse kind l + 1" "k \<noteq> kind \<Longrightarrow> inUse k l' = inUse k l"
    "opl_size l' = opl_size l"
    by (cases kind; cases k; simp add: l')+
  show "\<not> paused now gate" by (rule g)
qed

lemma tryAcquire_False:
  assumes ok: "limiter_ok sem cur cap mc md l" and acq: "tryAcquire sem now gate kind l = (False, l')"
  shows "limiter_ok sem cur cap mc md l'" and "inUse k l' = inUse k l" and "opl_size l' = opl_size l"
proof -
  have doc: "semaphore_documented sem cur cap" using ok by (simp add: limiter_ok_def)
  note S = semaphore_documentedD [OF doc]
  obtain b ks where ks: "TryAcquire sem (kindSem kind l) 1 = (b, ks)" by fastforce
  obtain c t where t: "TryAcquire sem (total l) 1 = (c, t)" by fastforce
  consider "l' = l"
    | "b = False" "l' = set_kindSem kind ks l"
    | "b = True" "c = False" "l' = set_kindSem kind (Release sem ks 1) (l\<lparr>total := t\<rparr>)"
    using acq unfolding tryAcquire_outcome [OF ks t] by (simp split: if_splits)
  then have "limiter_ok sem cur cap mc md l' \<and> inUse k l' = inUse k l \<and> opl_size l' = opl_size l"
  proof cases
    case 1
    then show ?thesis using ok by simp
  next
    case 2
    then show ?thesis using ok S(6) [OF ks [unfolded 2(1)]] by (cases kind; cases k) auto
  next
    case 3
    have "cur ks = cur (kindSem kind l) + 1" "cap ks = cap (kindSem kind l)" "0 \<le> cur (kindSem kind l)"
      using S(4,5) [OF ks [unfolded 3(1)]] ok by (cases kind; auto simp: limiter_ok_def)+
    then have "cur (Release sem ks 1) = cur (kindSem kind l)" "cap (Release sem ks 1) = cap (kindSem kind l)"
      using S(7,8) [of 1 ks] by auto
    then show ?thesis using ok 3(3) S(6) [OF t [unfolded 3(2)]] by (cases kind; cases k) (auto simp: limiter_ok_def)
  qed
  then show "limiter_ok sem cur cap mc md l'" "inUse k l' = inUse k l" "opl_size l' = opl_size l"
    by blast+
qed

lemma release_ok:
  assumes ok: "limiter_ok sem cur cap mc md l" and held: "0 < inUse kind l"
  shows "limiter_ok sem cur cap mc md (release sem kind l)"
    and "inUse kind (release sem kind l) = inUse kind l - 1"
    and "k \<noteq> kind \<Longrightarrow> inUse k (release sem kind l) = inUse k l"
    and "opl_size (release sem kind l) = opl_size l"
proof -
  have doc: "semaphore_documented sem cur cap" using ok by (simp add: limiter_ok_def)
  have "1 \<le> cur (kindSem kind l)" "1 \<le> cur (total l)"
    using ok held by (cases kind; auto simp: limiter_ok_def)+
  then show "limiter_ok sem cur cap mc md (release sem kind l)"
    using ok held semaphore_documentedD(7,8) [OF doc, of 1]
    by (cases kind) (auto simp: release_def Let_def limiter_ok_def)
  show "inUse kind (release sem kind l) = inUse kind l - 1"
    "k \<noteq> kind \<Longrightarrow> inUse k (release sem kind l) = inUse k l"
    "opl_size (release sem kind l) = opl_size l"
    by (cases kind; cases k; simp add: release_def Let_def)+
qed

section \<open>The contract the dispatchers rely on\<close>

text \<open>
  A pool of slots: what a dispatcher needs of \<^verbatim>\<open>tryAcquire\<close> and \<^verbatim>\<open>release\<close>. \<open>taken\<close> counts the
  slots of a kind in use, \<open>limit\<close> is the size of the pool.
\<close>

locale slot_pool =
  fixes ok :: "'l \<Rightarrow> bool" and acquire :: "opKind \<Rightarrow> 'l \<Rightarrow> bool \<times> 'l" and rel :: "opKind \<Rightarrow> 'l \<Rightarrow> 'l"
    and taken :: "opKind \<Rightarrow> 'l \<Rightarrow> int" and limit :: "'l \<Rightarrow> int"
  assumes acquire_ok: "ok l \<Longrightarrow> ok (snd (acquire kind l))"
    and acquire_taken: "ok l \<Longrightarrow>
          taken k (snd (acquire kind l)) = taken k l + (if k = kind \<and> fst (acquire kind l) then 1 else 0)"
    and acquire_limit: "ok l \<Longrightarrow> limit (snd (acquire kind l)) = limit l"
    and rel_ok: "ok l \<Longrightarrow> 0 < taken kind l \<Longrightarrow> ok (rel kind l)"
    and rel_taken: "ok l \<Longrightarrow> 0 < taken kind l \<Longrightarrow> taken k (rel kind l) = taken k l - (if k = kind then 1 else 0)"
    and rel_limit: "ok l \<Longrightarrow> 0 < taken kind l \<Longrightarrow> limit (rel kind l) = limit l"
    and taken_nonneg: "ok l \<Longrightarrow> 0 \<le> taken k l"
    and taken_limit: "ok l \<Longrightarrow> taken opCreate l + taken opDelete l \<le> limit l"
begin

lemma acquire_cases:
  assumes "ok l"
  obtains (granted) l' where "acquire kind l = (True, l')" "ok l'" "taken kind l' = taken kind l + 1"
      "\<And>k. k \<noteq> kind \<Longrightarrow> taken k l' = taken k l" "limit l' = limit l"
    | (refused) l' where "acquire kind l = (False, l')" "ok l'" "\<And>k. taken k l' = taken k l" "limit l' = limit l"
  using assms acquire_ok [of l kind] acquire_taken [of l _ kind] acquire_limit [of l kind]
  by (cases "acquire kind l"; cases "fst (acquire kind l)") auto

text \<open>A refused or a granted request and a release of a held slot keep the pool within its limit.\<close>

lemma granted_room:
  assumes "ok l" and "fst (acquire kind l)"
  shows "taken opCreate l + taken opDelete l < limit l"
  using assms taken_limit [OF acquire_ok [OF assms(1)], of kind] acquire_taken [OF assms(1), of _ kind]
    acquire_limit [OF assms(1), of kind]
  by (cases kind) auto

end

lemma inUse_bounds:
  assumes "limiter_ok sem cur cap mc md l"
  shows "0 \<le> inUse k l" and "inUse opCreate l + inUse opDelete l \<le> opl_size l"
    and "inUse opCreate l \<le> mc" and "inUse opDelete l \<le> md"
    and "1 < opl_size l \<Longrightarrow> inUse opDelete l \<le> opl_size l - 1"
  using assms by (cases k; auto simp: limiter_ok_def)+

interpretation limiter: slot_pool "limiter_ok sem cur cap mc md" "tryAcquire sem now gate" "release sem"
    inUse opl_size
  for sem :: "'s sem_lib" and cur cap mc md and now and gate :: "'b throttleGate option"
proof
  fix l :: "'s opLimiter" and kind k
  assume ok: "limiter_ok sem cur cap mc md l"
  obtain b l' where acq: "tryAcquire sem now gate kind l = (b, l')" by fastforce
  show "limiter_ok sem cur cap mc md (snd (tryAcquire sem now gate kind l))"
    using ok acq tryAcquire_True(1) tryAcquire_False(1) by (cases b) (fastforce+)
  show "inUse k (snd (tryAcquire sem now gate kind l)) =
      inUse k l + (if k = kind \<and> fst (tryAcquire sem now gate kind l) then 1 else 0)"
    using ok acq tryAcquire_True(2,3) [OF ok, of now gate kind l'] tryAcquire_False(2) [OF ok, of now gate kind l']
    by (cases b) auto
  show "opl_size (snd (tryAcquire sem now gate kind l)) = opl_size l"
    using ok acq tryAcquire_True(4) [OF ok, of now gate kind l'] tryAcquire_False(3) [OF ok, of now gate kind l']
    by (cases b) auto
  show "0 \<le> inUse k l" "inUse opCreate l + inUse opDelete l \<le> opl_size l"
    by (rule inUse_bounds [OF ok])+
  assume "0 < inUse kind l"
  then show "limiter_ok sem cur cap mc md (release sem kind l)"
    "inUse k (release sem kind l) = inUse k l - (if k = kind then 1 else 0)"
    "opl_size (release sem kind l) = opl_size l"
    using release_ok [OF ok] by auto
qed

end
