(* ===== verification/Throttle_Props.thy ===== *)
theory Throttle_Props
  imports Limiter
begin

text \<open>
  What the throttle gate and the operation limiter promise over whole histories: the length of a
  pause, when a waiter is let through, and how many operations run at a time.
\<close>

section \<open>Histories of the gate\<close>

text \<open>
  The calls that change a gate. The second component counts the pauses begun since the last
  success; it is a ghost of the model and decides how long the next pause is.
\<close>

datatype gate_event = Rejected time | Succeeded

fun gate_step :: "'b bo_lib \<Rightarrow> gate_event \<Rightarrow> 'b throttleGate \<times> nat \<Rightarrow> 'b throttleGate \<times> nat" where
  "gate_step lib (Rejected now) (g, n) =
     (the (throttled lib now (Some g)), if paused now (Some g) then n else Suc n)"
| "gate_step lib Succeeded (g, n) = (the (succeeded lib (Some g)), 0)"

definition gate_run :: "'b bo_lib \<Rightarrow> string \<Rightarrow> gate_event list \<Rightarrow> 'b throttleGate \<times> nat" where
  "gate_run lib grp evs = fold (gate_step lib) evs (newThrottleGate lib grp, 0)"

definition pause_level :: "nat \<Rightarrow> rat" where
  "pause_level n = min (of_int throttleInitialPause * 2 ^ n) (of_int throttleMaxPause)"

lemma pause_level_Suc: "min (2 * pause_level n) (of_int throttleMaxPause) = pause_level (Suc n)"
  by (auto simp: pause_level_def min_def throttleMaxPause_def time_consts)

definition gate_level :: "'b bo_lib \<Rightarrow> ('b \<Rightarrow> bool) \<Rightarrow> ('b \<Rightarrow> rat) \<Rightarrow> 'b throttleGate \<times> nat \<Rightarrow> bool" where
  "gate_level lib made cur gn \<longleftrightarrow> gate_ok lib made cur (fst gn) \<and> cur (bo (fst gn)) = pause_level (snd gn)"

lemma gate_step_level:
  assumes lev: "gate_level lib made cur (g, n)"
  shows "gate_level lib made cur (gate_step lib e (g, n))"
proof -
  have doc: "backoff_documented lib throttle_options throttleInitialPause 2 throttleMaxPause throttleJitter made cur"
    and b: "made (bo g)" and c: "cur (bo g) = pause_level n"
    using lev by (auto simp: gate_level_def gate_ok_def)
  note D = backoff_documentedD [OF doc]
  show ?thesis
  proof (cases e)
    case (Rejected now)
    obtain p b' where n: "NextBackOff lib (bo g) = (p, b')" by fastforce
    then have "made b'" "cur b' = pause_level (Suc n)"
      using D(5,6) [OF b] c by (simp_all add: pause_level_Suc)
    then show ?thesis using lev n doc by (auto simp: Rejected gate_level_def gate_ok_def)
  next
    case Succeeded
    have "pause_level 0 = of_int throttleInitialPause"
      by (simp add: pause_level_def min_def throttleMaxPause_def throttleInitialPause_def time_consts)
    then show ?thesis using D(3,4) [OF b] doc by (simp add: Succeeded gate_level_def gate_ok_def)
  qed
qed

lemma gate_run_level:
  assumes doc: "backoff_documented lib throttle_options throttleInitialPause 2 throttleMaxPause throttleJitter made cur"
  shows "gate_level lib made cur (gate_run lib grp evs)"
proof -
  have "gate_level lib made cur (fold (gate_step lib) evs gn)" if "gate_level lib made cur gn" for gn
    using that
  proof (induction evs arbitrary: gn)
    case (Cons e evs)
    then show ?case using gate_step_level by (cases gn) fastforce
  qed simp
  moreover have "gate_level lib made cur (newThrottleGate lib grp, 0)"
    using newThrottleGate_ok [OF doc, of grp] backoff_documentedD(2) [OF doc]
    by (simp add: gate_level_def newThrottleGate_def pause_level_def min_def throttleMaxPause_def
        throttleInitialPause_def time_consts)
  ultimately show ?thesis by (simp add: gate_run_def)
qed

text \<open>The loop of \<^verbatim>\<open>wait\<close>: the iterations before the one that returns all slept.\<close>

definition wait_sleeps :: "(nat \<Rightarrow> time \<times> time) \<Rightarrow> (nat \<Rightarrow> bool) \<Rightarrow> nat \<Rightarrow> bool" where
  "wait_sleeps obs ctxDone m \<longleftrightarrow> snd (obs m) < fst (obs m) \<and> \<not> ctxDone m"

lemma time_sub_nonpos: "time_sub t u \<le> 0 \<longleftrightarrow> t \<le> u"
  by (simp add: time_sub_def min_duration_def max_duration_def min_def max_def)

lemma wait_loop_skip:
  assumes "\<And>m. n \<le> m \<Longrightarrow> m < n + d \<Longrightarrow> wait_sleeps obs ctxDone m"
  shows "wait_loop obs ctxErr ctxDone n = wait_loop obs ctxErr ctxDone (n + d)"
  using assms
proof (induction d arbitrary: n)
  case (Suc d)
  have "wait_loop obs ctxErr ctxDone n = wait_loop obs ctxErr ctxDone (Suc n)"
    using Suc.prems [of n] by (subst wait_loop.simps) (simp add: wait_sleeps_def time_sub_nonpos)
  also have "\<dots> = wait_loop obs ctxErr ctxDone (Suc n + d)"
    by (rule Suc.IH) (auto intro: Suc.prems)
  finally show ?case by simp
qed simp

lemma wait_loop_stop:
  assumes "\<And>m. m < n \<Longrightarrow> wait_sleeps obs ctxDone m" and "\<not> wait_sleeps obs ctxDone n"
  shows "wait_loop obs ctxErr ctxDone 0 = Some (if fst (obs n) \<le> snd (obs n) then ctxErr n else True)"
proof -
  have "wait_loop obs ctxErr ctxDone 0 = wait_loop obs ctxErr ctxDone n"
    using wait_loop_skip [of 0 n obs ctxDone ctxErr] assms(1) by simp
  also have "\<dots> = Some (if fst (obs n) \<le> snd (obs n) then ctxErr n else True)"
    using assms(2) by (subst wait_loop.simps) (auto simp: wait_sleeps_def time_sub_nonpos)
  finally show ?thesis .
qed

lemma wait_loop_never:
  "wait_loop obs ctxErr ctxDone n = Some r \<Longrightarrow> \<exists>m. \<not> wait_sleeps obs ctxDone m"
proof (erule wait_loop.raw_induct [where P = "\<lambda>obs ctxErr ctxDone n r. \<exists>m. \<not> wait_sleeps obs ctxDone m", rotated])
  fix rec :: "(nat \<Rightarrow> time \<times> time) \<Rightarrow> (nat \<Rightarrow> bool) \<Rightarrow> (nat \<Rightarrow> bool) \<Rightarrow> nat \<Rightarrow> bool option"
    and obs ctxErr ctxDone n r
  assume "\<And>obs ctxErr ctxDone n r. rec obs ctxErr ctxDone n = Some r \<Longrightarrow> \<exists>m. \<not> wait_sleeps obs ctxDone m"
    and "(if time_sub (fst (obs n)) (snd (obs n)) \<le> 0 then Some (ctxErr n)
          else if ctxDone n then Some True else rec obs ctxErr ctxDone (Suc n)) = Some r"
  then show "\<exists>m. \<not> wait_sleeps obs ctxDone m"
    by (cases "wait_sleeps obs ctxDone n") (auto simp: wait_sleeps_def time_sub_nonpos)
qed

lemma first_stop:
  assumes "\<not> wait_sleeps obs ctxDone n"
  obtains k where "k \<le> n" "\<not> wait_sleeps obs ctxDone k" "\<And>m. m < k \<Longrightarrow> wait_sleeps obs ctxDone m"
  using assms LeastI [of "\<lambda>k. \<not> wait_sleeps obs ctxDone k" n] not_less_Least Least_le
  by (metis (mono_tags, lifting))

section \<open>Properties of the gate\<close>

text \<open>
  C29: after any history of rejections and successes, a rejection during a pause leaves the gate as it
  is, and any other rejection begins a pause whose length is within half and one and a half times
  15 s doubled once per pause since the last success, at most 5 min.
\<close>

theorem throttle_pause_doubles:
  assumes doc: "backoff_documented lib throttle_options throttleInitialPause 2 throttleMaxPause throttleJitter made cur"
    and run: "gate_run lib grp evs = (g, n)" and rej: "throttled lib now (Some g) = Some g'"
  shows "(paused now (Some g) \<longrightarrow> g' = g) \<and>
         (\<not> paused now (Some g) \<longrightarrow>
            1 / 2 * min (15000000000 * 2 ^ n) 300000000000 \<le> (of_int (pausedUntil g' - now) :: rat) \<and>
            of_int (pausedUntil g' - now) \<le> (3 / 2 * min (15000000000 * 2 ^ n) 300000000000 :: rat))"
proof -
  have "gate_level lib made cur (g, n)" using gate_run_level [OF doc, of grp evs] run by simp
  then have b: "made (bo g)" "cur (bo g) = pause_level n" by (auto simp: gate_level_def gate_ok_def)
  have "pause_level n = min (15000000000 * 2 ^ n) 300000000000"
    by (simp add: pause_level_def throttleInitialPause_def throttleMaxPause_def time_consts)
  then show ?thesis
    using rej b backoff_documentedD(7,8) [OF doc b(1)]
    by (auto simp: throttleJitter_def split: prod.splits)
qed

theorem throttle_pause_doubles_witness:
  "let lib = plain_backoff throttleInitialPause throttleMaxPause;
       (g, n) = gate_run lib ''g'' [Rejected 0, Rejected 1, Rejected 20000000000];
       g' = the (throttled lib 60000000000 (Some g))
   in n = 2 \<and> (of_int (pausedUntil g' - 60000000000) :: rat) \<le> 90000000000"
proof -
  let ?lib = "plain_backoff throttleInitialPause throttleMaxPause"
  let ?evs = "[Rejected 0, Rejected 1, Rejected 20000000000]"
  have doc: "backoff_documented ?lib throttle_options throttleInitialPause 2 throttleMaxPause throttleJitter
      (\<lambda>b. throttleInitialPause \<le> b \<and> b \<le> throttleMaxPause) of_int"
    by (rule plain_backoff_documented)
      (simp_all add: throttleInitialPause_def throttleMaxPause_def throttleJitter_def time_consts)
  have "\<exists>g. gate_run ?lib ''g'' ?evs = (g, 2) \<and> \<not> paused 60000000000 (Some g)"
    by (simp add: gate_run_def newThrottleGate_def plain_backoff_def throttleInitialPause_def
        throttleMaxPause_def time_consts)
  then obtain g where run: "gate_run ?lib ''g'' ?evs = (g, 2)" and opn: "\<not> paused 60000000000 (Some g)"
    by blast
  have rej: "throttled ?lib 60000000000 (Some g) = Some (the (throttled ?lib 60000000000 (Some g)))"
    by (simp split: prod.split)
  show ?thesis using throttle_pause_doubles [OF doc run rej] opn run by (simp add: Let_def)
qed

text \<open>
  C30: \<^verbatim>\<open>wait\<close> returns after exactly the iterations that found the gate paused and slept their timer
  out. If the last one found the gate open the result is the context's error, otherwise the context
  ended during its timer and the result is an error; so a waiter with a live context passes only an
  open gate. If no iteration ends, it never returns.
\<close>

theorem wait_returns_when_open:
  "wait_loop obs ctxErr ctxDone 0 = Some r \<longleftrightarrow>
     (\<exists>n. (\<forall>m < n. snd (obs m) < fst (obs m) \<and> \<not> ctxDone m) \<and>
          (if fst (obs n) \<le> snd (obs n) then r = ctxErr n else ctxDone n \<and> r))"
  (is "_ \<longleftrightarrow> ?R")
proof
  assume some: "wait_loop obs ctxErr ctxDone 0 = Some r"
  show ?R
  proof (cases "\<exists>n. \<not> wait_sleeps obs ctxDone n")
    case True
    then obtain k where k: "\<not> wait_sleeps obs ctxDone k" "\<And>m. m < k \<Longrightarrow> wait_sleeps obs ctxDone m"
      using first_stop by blast
    then show ?thesis
      using wait_loop_stop [OF k(2,1), of ctxErr] some by (intro exI [of _ k]) (auto simp: wait_sleeps_def)
  next
    case False
    then show ?thesis using wait_loop_never [OF some] by blast
  qed
next
  assume ?R
  then obtain n where "\<And>m. m < n \<Longrightarrow> wait_sleeps obs ctxDone m"
    and "if fst (obs n) \<le> snd (obs n) then r = ctxErr n else ctxDone n \<and> r"
    by (auto simp: wait_sleeps_def)
  then show "wait_loop obs ctxErr ctxDone 0 = Some r"
    using wait_loop_stop [of n obs ctxDone ctxErr] by (auto simp: wait_sleeps_def split: if_splits)
qed

theorem wait_returns_when_open_witness:
  "wait_loop (\<lambda>n. (15, 20 * int n)) (\<lambda>n. False) (\<lambda>n. False) 0 = Some False"
  unfolding wait_returns_when_open by (rule exI [of _ 1]) simp

text \<open>
  C31: when every timer fires no earlier than the end of the pause it was set for, and some later
  iteration finds the pause no longer than the one before, \<^verbatim>\<open>wait\<close> returns: a waiter is
  delayed only by new rejections.
\<close>

theorem wait_ends_with_pause:
  assumes timers: "\<And>n. fst (obs n) \<le> snd (obs (Suc n))" and quiet: "fst (obs (Suc N)) \<le> fst (obs N)"
  shows "\<exists>r. wait_loop obs ctxErr ctxDone 0 = Some r"
proof -
  have "fst (obs (Suc N)) \<le> snd (obs (Suc N))" using quiet timers [of N] by linarith
  then have "\<not> wait_sleeps obs ctxDone (Suc N)" by (simp add: wait_sleeps_def)
  then show ?thesis by (rule first_stop) (use wait_loop_stop in blast)
qed

theorem wait_ends_with_pause_witness:
  "\<exists>r. wait_loop (\<lambda>n. (15, 20 * int n)) (\<lambda>n. False) (\<lambda>n. False) 0 = Some r"
  by (rule wait_ends_with_pause [of _ 0]) simp_all

section \<open>Histories of the limiter\<close>

text \<open>
  The reconciler asks for a slot before it starts an operation and gives it back when the operation
  has finished. \<open>held\<close> counts the operations that run.
\<close>

datatype 'b slot_event = Ask time "'b throttleGate option" opKind | Finish opKind

fun limiter_step ::
    "'s sem_lib \<Rightarrow> 'b slot_event \<Rightarrow> 's opLimiter \<times> (opKind \<Rightarrow> nat) \<Rightarrow> 's opLimiter \<times> (opKind \<Rightarrow> nat)" where
  "limiter_step sem (Ask now gate kind) (l, held) =
     (let (b, l) = tryAcquire sem now gate kind l
      in (l, if b then held(kind := held kind + 1) else held))"
| "limiter_step sem (Finish kind) (l, held) =
     (if held kind = 0 then (l, held) else (release sem kind l, held(kind := held kind - 1)))"

definition limiter_run ::
    "'s sem_lib \<Rightarrow> int \<Rightarrow> int \<Rightarrow> int \<Rightarrow> 'b slot_event list \<Rightarrow> 's opLimiter \<times> (opKind \<Rightarrow> nat)" where
  "limiter_run sem tot mc md evs = fold (limiter_step sem) evs (newOpLimiter sem tot mc md, \<lambda>k. 0)"

definition slots_ok where
  "slots_ok sem cur cap mc md tot lh \<longleftrightarrow>
     limiter_ok sem cur cap mc md (fst lh) \<and> opl_size (fst lh) = tot \<and>
     (\<forall>k. inUse k (fst lh) = int (snd lh k))"

lemma limiter_step_ok:
  assumes "slots_ok sem cur cap mc md tot (l, held)"
  shows "slots_ok sem cur cap mc md tot (limiter_step sem e (l, held))"
proof (cases e)
  case (Ask now gate kind)
  obtain b l' where acq: "tryAcquire sem now gate kind l = (b, l')" by fastforce
  show ?thesis
    using assms acq limiter.acquire_ok [of sem cur cap mc md l now gate kind]
      limiter.acquire_taken [of sem cur cap mc md l _ now gate kind]
      limiter.acquire_limit [of sem cur cap mc md l now gate kind]
    by (auto simp: slots_ok_def Ask)
next
  case (Finish kind)
  show ?thesis
    using assms limiter.rel_ok [of sem cur cap mc md l kind] limiter.rel_taken [of sem cur cap mc md l kind]
      limiter.rel_limit [of sem cur cap mc md l kind]
    by (auto simp: slots_ok_def Finish of_nat_diff)
qed

lemma limiter_run_ok:
  assumes "semaphore_documented sem cur cap" and "0 \<le> tot" and "0 \<le> mc" and "0 \<le> md"
  shows "slots_ok sem cur cap mc md tot (limiter_run sem tot mc md evs)"
proof -
  have "slots_ok sem cur cap mc md tot (fold (limiter_step sem) evs lh)"
    if "slots_ok sem cur cap mc md tot lh" for lh
    using that
  proof (induction evs arbitrary: lh)
    case (Cons e evs)
    then show ?case using limiter_step_ok by (cases lh) fastforce
  qed simp
  moreover have "slots_ok sem cur cap mc md tot (newOpLimiter sem tot mc md, \<lambda>k. 0)"
  proof -
    have "inUse k (newOpLimiter sem tot mc md) = 0" for k by (cases k) (simp_all add: newOpLimiter_def)
    then show ?thesis using newOpLimiter_ok [OF assms] by (simp add: slots_ok_def) (simp add: newOpLimiter_def)
  qed
  ultimately show ?thesis by (simp add: limiter_run_def)
qed

text \<open>The share of a kind: its own limit, and for deletes all slots but one unless there is only one.\<close>

definition kind_limit :: "int \<Rightarrow> int \<Rightarrow> int \<Rightarrow> opKind \<Rightarrow> int" where
  "kind_limit tot mc md kind =
     (case kind of opCreate \<Rightarrow> min mc tot | opDelete \<Rightarrow> if 1 < tot then min md (tot - 1) else min md tot)"

lemma tryAcquire_iff:
  assumes ok: "limiter_ok sem cur cap mc md l" and av: "semaphore_available sem cur cap"
  shows "fst (tryAcquire sem now gate kind l) \<longleftrightarrow>
           \<not> paused now gate \<and> inUse kind l < kind_limit (opl_size l) mc md kind \<and>
           inUse opCreate l + inUse opDelete l < opl_size l"
proof -
  have doc: "semaphore_documented sem cur cap" using ok by (simp add: limiter_ok_def)
  note S = semaphore_documentedD [OF doc]
  have iff: "fst (TryAcquire sem s 1) \<longleftrightarrow> cur s + 1 \<le> cap s" for s
    using S(3) [of s 1 "snd (TryAcquire sem s 1)"] av [unfolded semaphore_available_def, rule_format, of 1 s]
    by (cases "fst (TryAcquire sem s 1)") (auto simp: prod_eq_iff)
  obtain b ks where ks: "TryAcquire sem (kindSem kind l) 1 = (b, ks)" by fastforce
  obtain c t where t: "TryAcquire sem (total l) 1 = (c, t)" by fastforce
  have b: "b \<longleftrightarrow> cur (kindSem kind l) + 1 \<le> cap (kindSem kind l)" using iff [of "kindSem kind l"] ks by simp
  have c: "c \<longleftrightarrow> cur (total l) + 1 \<le> cap (total l)" using iff [of "total l"] t by simp
  have "fst (tryAcquire sem now gate kind l) \<longleftrightarrow>
      \<not> paused now gate \<and> \<not> (kind = opDelete \<and> reserve l \<and> 1 < opl_size l \<and> opl_size l - 1 \<le> deletesInUse l) \<and> b \<and> c"
    unfolding tryAcquire_outcome [OF ks t] by simp
  then show ?thesis
    using ok unfolding b c by (cases kind) (auto simp: limiter_ok_def kind_limit_def)
qed

section \<open>Properties of the limiter\<close>

text \<open>
  C26: over any history of requests and releases the operations that run stay within the limits: all
  together within the total, each kind within its own, and deletes leave a slot free unless there
  is only one. The in-flight counters are the numbers of running operations.
\<close>

theorem limiter_bounds:
  assumes "semaphore_documented sem cur cap" and "0 \<le> tot" and "0 \<le> mc" and "0 \<le> md"
    and "limiter_run sem tot mc md evs = (l, held)"
  shows "int (held opCreate) + int (held opDelete) \<le> tot \<and> int (held opCreate) \<le> mc \<and> int (held opDelete) \<le> md \<and>
         (1 < tot \<longrightarrow> int (held opDelete) \<le> tot - 1) \<and>
         createsInUse l = int (held opCreate) \<and> deletesInUse l = int (held opDelete)"
proof -
  have ok: "limiter_ok sem cur cap mc md l" and sz: "opl_size l = tot" and h: "\<And>k. inUse k l = int (held k)"
    using limiter_run_ok [OF assms(1-4), of evs] assms(5) by (auto simp: slots_ok_def)
  show ?thesis using inUse_bounds [OF ok] h [of opCreate] h [of opDelete] sz by auto
qed

theorem limiter_bounds_witness:
  "let (l, held) = limiter_run counting_sem 2 3 5
         [Ask 0 (None :: int throttleGate option) opDelete, Ask 1 None opDelete, Ask 2 None opCreate, Finish opDelete]
   in held opCreate = 1 \<and> held opDelete = 0 \<and> int (held opCreate) + int (held opDelete) \<le> 2"
proof -
  let ?evs = "[Ask 0 (None :: int throttleGate option) opDelete, Ask 1 None opDelete, Ask 2 None opCreate, Finish opDelete]"
  have "\<exists>l held. limiter_run counting_sem 2 3 5 ?evs = (l, held) \<and> held opCreate = 1 \<and> held opDelete = 0"
    by (simp add: limiter_run_def newOpLimiter_def tryAcquire_def release_def counting_sem_def Let_def)
  then obtain l held where run: "limiter_run counting_sem 2 3 5 ?evs = (l, held)"
    and h: "held opCreate = 1" "held opDelete = 0" by blast
  show ?thesis using limiter_bounds [OF counting_sem_documented _ _ _ run] run h by simp
qed





end
