(* ===== verification/Instances.thy ===== *)
theory Instances
  imports Prelude
begin

text \<open>
  The data model of \<^verbatim>\<open>src/instancegroup.go\<close>: the lifecycle phase of an instance and the record
  the store keeps for it, with the Go field names.
\<close>

section \<open>Phases\<close>

datatype Phase =
    PhasePendingCreate
  | PhaseCreating
  | PhaseRunning
  | PhasePendingDelete
  | PhaseDeleting
  | PhaseDeleted

text \<open>The \<^verbatim>\<open>iota\<close> value of each constant; it orders the phases along the lifecycle.\<close>

fun Phase_iota :: "Phase \<Rightarrow> nat" where
  "Phase_iota PhasePendingCreate = 0"
| "Phase_iota PhaseCreating = 1"
| "Phase_iota PhaseRunning = 2"
| "Phase_iota PhasePendingDelete = 3"
| "Phase_iota PhaseDeleting = 4"
| "Phase_iota PhaseDeleted = 5"

fun Phase_String :: "Phase \<Rightarrow> string" where
  "Phase_String PhasePendingCreate = ''PendingCreate''"
| "Phase_String PhaseCreating = ''Creating''"
| "Phase_String PhaseRunning = ''Running''"
| "Phase_String PhasePendingDelete = ''PendingDelete''"
| "Phase_String PhaseDeleting = ''Deleting''"
| "Phase_String PhaseDeleted = ''Deleted''"

lemma Phase_iota_inject [simp]: "Phase_iota p = Phase_iota q \<longleftrightarrow> p = q"
  by (cases p; cases q) simp_all

lemma Phase_String_inject [simp]: "Phase_String p = Phase_String q \<longleftrightarrow> p = q"
  by (cases p; cases q) simp_all

instantiation Phase :: linorder
begin

definition less_eq_Phase :: "Phase \<Rightarrow> Phase \<Rightarrow> bool" where
  "p \<le> q \<longleftrightarrow> Phase_iota p \<le> Phase_iota q"

definition less_Phase :: "Phase \<Rightarrow> Phase \<Rightarrow> bool" where
  "p < q \<longleftrightarrow> Phase_iota p < Phase_iota q"

instance
  by standard (auto simp: less_eq_Phase_def less_Phase_def)

end

section \<open>Instances\<close>

record Instance =
  ID :: string
  IntentID :: string
  Name :: string
  VMName :: string
  Phase :: Phase
  IPAddress :: string
  VAppStatus :: string
  VMStatus :: string
  OSType :: string
  CreatedAt :: "time option"
  CreateStartedAt :: "time option"
  CreateCompletedAt :: "time option"
  DeleteRequestedAt :: "time option"
  DeleteStartedAt :: "time option"
  DeleteCompletedAt :: "time option"
  GCMarkedAt :: "time option"
  LastUpdated :: "time option"
  RetryCount :: int
  LastError :: string
  NextRetryAfter :: "time option"
  MissedPolls :: int
  Leftover :: bool

text \<open>The Go zero value \<^verbatim>\<open>Instance{}\<close>, from which composite literals start.\<close>

definition Instance0 :: Instance where
  "Instance0 = \<lparr>ID = [], IntentID = [], Name = [], VMName = [], Phase = PhasePendingCreate,
     IPAddress = [], VAppStatus = [], VMStatus = [], OSType = [],
     CreatedAt = None, CreateStartedAt = None, CreateCompletedAt = None,
     DeleteRequestedAt = None, DeleteStartedAt = None, DeleteCompletedAt = None,
     GCMarkedAt = None, LastUpdated = None,
     RetryCount = 0, LastError = [], NextRetryAfter = None, MissedPolls = 0, Leftover = False\<rparr>"

lemma Instance0_simps [simp]:
  "ID Instance0 = []" "IntentID Instance0 = []" "Phase Instance0 = PhasePendingCreate"
  "CreatedAt Instance0 = None" "Leftover Instance0 = False" "MissedPolls Instance0 = 0"
  "RetryCount Instance0 = 0" "NextRetryAfter Instance0 = None" "DeleteCompletedAt Instance0 = None"
  "DeleteRequestedAt Instance0 = None" "DeleteStartedAt Instance0 = None"
  "CreateStartedAt Instance0 = None" "CreateCompletedAt Instance0 = None"
  "GCMarkedAt Instance0 = None"
  by (simp_all add: Instance0_def)

end
