(* ===== verification/Store.thy ===== *)
theory Store
  imports Instances
begin

text \<open>
  The cache of desired and observed state, \<^verbatim>\<open>src/store.go\<close>. Both Go maps hold pointers to the
  same \<^verbatim>\<open>Instance\<close> objects, so the model keeps the objects in a heap (a list; an address is a
  position, allocation appends) and the two maps hold addresses. Every exported method takes the
  store's mutex for its whole body, so each operation below is one atomic step. \<open>now\<close> is the value
  \<^verbatim>\<open>time.Now()\<close> returns inside the operation. Log calls are left out.
\<close>

section \<open>State and operations\<close>

type_synonym addr = nat

record desiredStateStore =
  heap :: "Instance list"
  instances :: "addr gomap"
  byVAppHREF :: "addr gomap"
  instanceGroupName :: string

definition pruneAfter :: duration where
  "pruneAfter = 5 * minute"

definition missedPollsBeforeDisappeared :: int where
  "missedPollsBeforeDisappeared = 3"

definition newDesiredStateStore :: "string \<Rightarrow> desiredStateStore" where
  "newDesiredStateStore name =
     \<lparr>heap = [], instances = [], byVAppHREF = [], instanceGroupName = name\<rparr>"

text \<open>Allocation of a new object and writing through a pointer.\<close>

definition alloc :: "Instance \<Rightarrow> desiredStateStore \<Rightarrow> addr \<times> desiredStateStore" where
  "alloc i s = (length (heap s), s\<lparr>heap := heap s @ [i]\<rparr>)"

definition put_inst :: "addr \<Rightarrow> Instance \<Rightarrow> desiredStateStore \<Rightarrow> desiredStateStore" where
  "put_inst a i s = s\<lparr>heap := (heap s)[a := i]\<rparr>"

definition AddCreateIntent :: "time \<Rightarrow> string \<Rightarrow> desiredStateStore \<Rightarrow> desiredStateStore" where
  "AddCreateIntent now intentID s =
     (let inst = Instance0\<lparr>IntentID := intentID, Phase := PhasePendingCreate, CreatedAt := Some now\<rparr>;
          (a, s) = alloc inst s
      in s\<lparr>instances := AList.update intentID a (instances s)\<rparr>)"

definition findLocked :: "desiredStateStore \<Rightarrow> string \<Rightarrow> addr option" where
  "findLocked s k =
     (case map_of (instances s) k of
        Some a \<Rightarrow> Some a
      | None \<Rightarrow> map_of (byVAppHREF s) k)"

definition MarkForDeletion :: "time \<Rightarrow> string \<Rightarrow> desiredStateStore \<Rightarrow> desiredStateStore" where
  "MarkForDeletion now instanceID s =
     (case findLocked s instanceID of
        None \<Rightarrow> s
      | Some a \<Rightarrow>
          (let inst = heap s ! a in
           if Phase inst \<noteq> PhaseRunning then s
           else put_inst a (inst\<lparr>Phase := PhasePendingDelete, DeleteRequestedAt := Some now,
                              LastUpdated := Some now\<rparr>) s))"

definition GetByVAppHREF :: "desiredStateStore \<Rightarrow> string \<Rightarrow> Instance option" where
  "GetByVAppHREF s href = map_option (\<lambda>a. heap s ! a) (map_of (byVAppHREF s) href)"

definition GetByIntentID :: "desiredStateStore \<Rightarrow> string \<Rightarrow> Instance option" where
  "GetByIntentID s intentID = map_option (\<lambda>a. heap s ! a) (map_of (instances s) intentID)"

definition GetAll :: "desiredStateStore \<Rightarrow> Instance list" where
  "GetAll s = map (\<lambda>(k, a). heap s ! a) (instances s)"

definition UpdateInstance ::
    "time \<Rightarrow> string \<Rightarrow> (Instance \<Rightarrow> Instance) \<Rightarrow> desiredStateStore \<Rightarrow> desiredStateStore" where
  "UpdateInstance now intentID fn s =
     (case map_of (instances s) intentID of
        None \<Rightarrow> s
      | Some a \<Rightarrow>
          (let inst = (fn (heap s ! a))\<lparr>LastUpdated := Some now\<rparr>;
               s = put_inst a inst s
           in if ID inst \<noteq> [] then
                (let s = (case map_of (byVAppHREF s) (ID inst) of
                            Some existing \<Rightarrow>
                              if existing \<noteq> a
                              then s\<lparr>instances := AList.delete (IntentID (heap s ! existing)) (instances s)\<rparr>
                              else s
                          | None \<Rightarrow> s)
                 in s\<lparr>byVAppHREF := AList.update (ID inst) a (byVAppHREF s)\<rparr>)
              else s))"

definition AddPreexisting ::
    "time \<Rightarrow> string \<Rightarrow> string \<Rightarrow> string \<Rightarrow> string \<Rightarrow> string \<Rightarrow> string \<Rightarrow> string
     \<Rightarrow> desiredStateStore \<Rightarrow> desiredStateStore" where
  "AddPreexisting now href vappName vmName ipAddress vappStatus vmStatus osType s =
     (case map_of (byVAppHREF s) href of
        Some _ \<Rightarrow> s
      | None \<Rightarrow>
          (let intentID = href;
               inst = Instance0\<lparr>ID := href, IntentID := intentID, Name := vappName, VMName := vmName,
                        Phase := PhaseRunning, IPAddress := ipAddress, VAppStatus := vappStatus,
                        VMStatus := vmStatus, OSType := osType, LastUpdated := Some now\<rparr>;
               (a, s) = alloc inst s
           in s\<lparr>instances := AList.update intentID a (instances s),
                byVAppHREF := AList.update href a (byVAppHREF s)\<rparr>))"

definition AddLeftover ::
    "time \<Rightarrow> string \<Rightarrow> string \<Rightarrow> desiredStateStore \<Rightarrow> bool \<times> desiredStateStore" where
  "AddLeftover now href vappName s =
     (case map_of (byVAppHREF s) href of
        Some _ \<Rightarrow> (False, s)
      | None \<Rightarrow>
          (let inst = Instance0\<lparr>ID := href, IntentID := href, Name := vappName,
                        Phase := PhasePendingDelete, Leftover := True,
                        DeleteRequestedAt := Some now, LastUpdated := Some now\<rparr>;
               (a, s) = alloc inst s
           in (True, s\<lparr>instances := AList.update href a (instances s),
                       byVAppHREF := AList.update href a (byVAppHREF s)\<rparr>)))"

definition LeftoverCount :: "desiredStateStore \<Rightarrow> nat" where
  "LeftoverCount s =
     fold (\<lambda>(k, a) count.
             let inst = heap s ! a in
             if Leftover inst \<and> Phase inst \<noteq> PhaseDeleted then count + 1 else count)
       (instances s) 0"

definition UpdateFromVCD ::
    "time \<Rightarrow> string \<Rightarrow> string \<Rightarrow> string \<Rightarrow> string \<Rightarrow> string \<Rightarrow> string \<Rightarrow> string
     \<Rightarrow> desiredStateStore \<Rightarrow> bool \<times> desiredStateStore" where
  "UpdateFromVCD now href vappName vmName ipAddress vappStatus vmStatus osType s =
     (case map_of (byVAppHREF s) href of
        None \<Rightarrow> (False, s)
      | Some a \<Rightarrow>
          (True, put_inst a ((heap s ! a)\<lparr>Name := vappName, VMName := vmName, IPAddress := ipAddress,
                            VAppStatus := vappStatus, VMStatus := vmStatus, OSType := osType,
                            MissedPolls := 0, LastUpdated := Some now\<rparr>) s))"

text \<open>
  The body of the loop of \<^verbatim>\<open>MarkDisappeared\<close>, and the loop. \<open>knownHREFs\<close> is the set of HREFs
  the poll observed, as a list.
\<close>

definition MarkDisappeared_body :: "time \<Rightarrow> string list \<Rightarrow> Instance \<Rightarrow> Instance" where
  "MarkDisappeared_body now knownHREFs inst =
     (if ID inst = [] then inst
      else if Phase inst = PhaseDeleted then inst
      else if Phase inst = PhasePendingCreate \<or> Phase inst = PhaseCreating then inst
      else if ID inst \<in> set knownHREFs then inst
      else
        (let inst = inst\<lparr>MissedPolls := MissedPolls inst + 1\<rparr> in
         if missedPollsBeforeDisappeared \<le> MissedPolls inst
         then inst\<lparr>Phase := PhaseDeleted, DeleteCompletedAt := Some now, LastUpdated := Some now\<rparr>
         else inst))"

definition MarkDisappeared :: "time \<Rightarrow> string list \<Rightarrow> desiredStateStore \<Rightarrow> desiredStateStore" where
  "MarkDisappeared now knownHREFs s =
     fold (\<lambda>(k, a) s. put_inst a (MarkDisappeared_body now knownHREFs (heap s ! a)) s) (instances s) s"

definition prunable :: "time \<Rightarrow> Instance \<Rightarrow> bool" where
  "prunable cutoff inst \<longleftrightarrow>
     Phase inst = PhaseDeleted \<and>
     (case DeleteCompletedAt inst of None \<Rightarrow> False | Some t \<Rightarrow> t < cutoff)"

definition Prune :: "time \<Rightarrow> desiredStateStore \<Rightarrow> desiredStateStore" where
  "Prune now s =
     (let cutoff = now - pruneAfter in
      fold (\<lambda>(intentID, a) s.
              if prunable cutoff (heap s ! a)
              then s\<lparr>byVAppHREF := AList.delete (ID (heap s ! a)) (byVAppHREF s),
                     instances := AList.delete intentID (instances s)\<rparr>
              else s) (instances s) s)"

text \<open>\<^verbatim>\<open>NextRetryAfter != nil && now.Before(*NextRetryAfter)\<close>\<close>

definition backoff_pending :: "time \<Rightarrow> Instance \<Rightarrow> bool" where
  "backoff_pending now inst \<longleftrightarrow>
     (case NextRetryAfter inst of None \<Rightarrow> False | Some t \<Rightarrow> now < t)"

definition GetPendingCreates :: "time \<Rightarrow> desiredStateStore \<Rightarrow> Instance list" where
  "GetPendingCreates now s =
     filter (\<lambda>inst. Phase inst = PhasePendingCreate \<and> \<not> backoff_pending now inst) (GetAll s)"

definition GetPendingDeletes :: "time \<Rightarrow> desiredStateStore \<Rightarrow> Instance list" where
  "GetPendingDeletes now s =
     filter (\<lambda>inst. Phase inst = PhasePendingDelete \<and> \<not> backoff_pending now inst) (GetAll s)"

definition GetRunningForGC :: "time \<Rightarrow> duration \<Rightarrow> desiredStateStore \<Rightarrow> Instance list" where
  "GetRunningForGC now maxAge s =
     (let cutoff = now - maxAge in
      filter (\<lambda>inst. Phase inst = PhaseRunning \<and>
                (case CreateCompletedAt inst of None \<Rightarrow> False | Some t \<Rightarrow> t < cutoff)) (GetAll s))"

definition MarkGC :: "time \<Rightarrow> string \<Rightarrow> desiredStateStore \<Rightarrow> desiredStateStore" where
  "MarkGC now intentID s =
     (case map_of (instances s) intentID of
        None \<Rightarrow> s
      | Some a \<Rightarrow>
          (let inst = heap s ! a in
           if Phase inst \<noteq> PhaseRunning then s
           else put_inst a (inst\<lparr>Phase := PhasePendingDelete, GCMarkedAt := Some now,
                              DeleteRequestedAt := Some now, LastUpdated := Some now\<rparr>) s))"

definition HasCreating :: "desiredStateStore \<Rightarrow> bool" where
  "HasCreating s \<longleftrightarrow> list_ex (\<lambda>(k, a). Phase (heap s ! a) = PhaseCreating) (instances s)"

definition Size :: "desiredStateStore \<Rightarrow> nat" where
  "Size s =
     fold (\<lambda>(k, a) count. if Phase (heap s ! a) \<noteq> PhaseDeleted then count + 1 else count)
       (instances s) 0"

text \<open>
  The gauges \<^verbatim>\<open>UpdateMetrics\<close> sets: the total, and the count for each fleeting state, the phases
  being folded into the states of the fleeting provider.
\<close>

datatype fleeting_state = StateCreating | StateRunning | StateDeleting | StateDeleted

fun fleetingStateMap :: "Phase \<Rightarrow> fleeting_state" where
  "fleetingStateMap PhasePendingCreate = StateCreating"
| "fleetingStateMap PhaseCreating = StateCreating"
| "fleetingStateMap PhaseRunning = StateRunning"
| "fleetingStateMap PhasePendingDelete = StateDeleting"
| "fleetingStateMap PhaseDeleting = StateDeleting"
| "fleetingStateMap PhaseDeleted = StateDeleted"

definition phase_counts :: "desiredStateStore \<Rightarrow> Phase \<Rightarrow> nat" where
  "phase_counts s p = length (filter (\<lambda>inst. Phase inst = p) (GetAll s))"

definition UpdateMetrics :: "desiredStateStore \<Rightarrow> nat \<times> (fleeting_state \<Rightarrow> nat)" where
  "UpdateMetrics s =
     (length (instances s),
      (\<lambda>st. sum_list (map (phase_counts s)
         (filter (\<lambda>p. fleetingStateMap p = st)
            [PhasePendingCreate, PhaseCreating, PhaseRunning, PhasePendingDelete, PhaseDeleting,
             PhaseDeleted]))))"

end
