(* ===== verification/Store_Inv.thy ===== *)
theory Store_Inv
  imports Store
begin

text \<open>
  The representation invariant of the store, an abstract store without pointers, and the
  refinement between them. The abstract store is a map from intent IDs to instances and an index
  from vApp HREFs to intent IDs.
\<close>

section \<open>The two indexes agree\<close>

definition index_inv :: "desiredStateStore \<Rightarrow> bool" where
  "index_inv s \<longleftrightarrow>
     distinct (keys (instances s)) \<and> distinct (keys (byVAppHREF s)) \<and>
     (\<forall>(k, a) \<in> set (instances s).
        a < length (heap s) \<and> IntentID (heap s ! a) = k \<and>
        (ID (heap s ! a) \<noteq> [] \<longrightarrow> map_of (byVAppHREF s) (ID (heap s ! a)) = Some a)) \<and>
     (\<forall>(h, a) \<in> set (byVAppHREF s).
        h \<noteq> [] \<and> a < length (heap s) \<and> ID (heap s ! a) = h \<and>
        map_of (instances s) (IntentID (heap s ! a)) = Some a)"

lemma index_invI:
  assumes "distinct (keys (instances s))" and "distinct (keys (byVAppHREF s))"
    and "\<And>k a. map_of (instances s) k = Some a \<Longrightarrow>
           a < length (heap s) \<and> IntentID (heap s ! a) = k \<and>
           (ID (heap s ! a) \<noteq> [] \<longrightarrow> map_of (byVAppHREF s) (ID (heap s ! a)) = Some a)"
    and "\<And>h a. map_of (byVAppHREF s) h = Some a \<Longrightarrow>
           h \<noteq> [] \<and> a < length (heap s) \<and> ID (heap s ! a) = h \<and>
           map_of (instances s) (IntentID (heap s ! a)) = Some a"
  shows "index_inv s"
  using assms by (auto simp: index_inv_def)

lemma index_inv_distinct:
  assumes "index_inv s"
  shows "distinct (keys (instances s))" and "distinct (keys (byVAppHREF s))"
  using assms by (auto simp: index_inv_def)

lemma index_inv_instances:
  assumes "index_inv s" and "map_of (instances s) k = Some a"
  shows "a < length (heap s)" and "IntentID (heap s ! a) = k"
    and "ID (heap s ! a) \<noteq> [] \<Longrightarrow> map_of (byVAppHREF s) (ID (heap s ! a)) = Some a"
  using assms map_of_SomeD [OF assms(2)] by (fastforce simp: index_inv_def)+

lemma index_inv_href:
  assumes "index_inv s" and "map_of (byVAppHREF s) h = Some a"
  shows "h \<noteq> []" and "a < length (heap s)" and "ID (heap s ! a) = h"
    and "map_of (instances s) (IntentID (heap s ! a)) = Some a"
  using assms map_of_SomeD [OF assms(2)] by (fastforce simp: index_inv_def)+

lemma instances_addr_unique:
  assumes "index_inv s" and "map_of (instances s) k = Some a" and "map_of (instances s) k' = Some a"
  shows "k = k'"
  using index_inv_instances(2) [OF assms(1,2)] index_inv_instances(2) [OF assms(1,3)] by simp

lemma href_addr_unique:
  assumes "index_inv s" and "map_of (byVAppHREF s) h = Some a" and "map_of (byVAppHREF s) h' = Some a"
  shows "h = h'"
  using index_inv_href(3) [OF assms(1,2)] index_inv_href(3) [OF assms(1,3)] by simp

section \<open>The abstract store\<close>

record astore =
  ains :: "string \<Rightarrow> Instance option"
  ahref :: "string \<Rightarrow> string option"

definition abs_store :: "desiredStateStore \<Rightarrow> astore" where
  "abs_store s =
     \<lparr>ains = GetByIntentID s, ahref = (\<lambda>h. map_option IntentID (GetByVAppHREF s h))\<rparr>"

lemma ains_abs [simp]: "ains (abs_store s) = GetByIntentID s"
  by (simp add: abs_store_def)

lemma ahref_abs [simp]: "ahref (abs_store s) h = map_option IntentID (GetByVAppHREF s h)"
  by (simp add: abs_store_def)

lemma abs_store_eqI:
  assumes "\<And>k. GetByIntentID s k = ains A k"
    and "\<And>h. map_option IntentID (GetByVAppHREF s h) = ahref A h"
  shows "abs_store s = A"
  using assms by (cases A) (auto simp: abs_store_def fun_eq_iff)

text \<open>What the abstract store does for each mutating operation.\<close>

datatype store_op =
    OpAddCreateIntent time string
  | OpMarkForDeletion time string
  | OpUpdateInstance time string "Instance \<Rightarrow> Instance"
  | OpAddPreexisting time string string string string string string string
  | OpAddLeftover time string string
  | OpUpdateFromVCD time string string string string string string string
  | OpMarkDisappeared time "string list"
  | OpPrune time
  | OpMarkGC time string

fun store_exec :: "store_op \<Rightarrow> desiredStateStore \<Rightarrow> desiredStateStore" where
  "store_exec (OpAddCreateIntent now k) s = AddCreateIntent now k s"
| "store_exec (OpMarkForDeletion now k) s = MarkForDeletion now k s"
| "store_exec (OpUpdateInstance now k fn) s = UpdateInstance now k fn s"
| "store_exec (OpAddPreexisting now h n v ip vas vs os) s = AddPreexisting now h n v ip vas vs os s"
| "store_exec (OpAddLeftover now h n) s = snd (AddLeftover now h n s)"
| "store_exec (OpUpdateFromVCD now h n v ip vas vs os) s = snd (UpdateFromVCD now h n v ip vas vs os s)"
| "store_exec (OpMarkDisappeared now known) s = MarkDisappeared now known s"
| "store_exec (OpPrune now) s = Prune now s"
| "store_exec (OpMarkGC now k) s = MarkGC now k s"

definition a_set :: "string \<Rightarrow> Instance \<Rightarrow> astore \<Rightarrow> astore" where
  "a_set k i A = A\<lparr>ains := (ains A)(k \<mapsto> i)\<rparr>"

definition a_add :: "string \<Rightarrow> Instance \<Rightarrow> astore \<Rightarrow> astore" where
  "a_add h i A = \<lparr>ains = (ains A)(h \<mapsto> i), ahref = (ahref A)(h \<mapsto> h)\<rparr>"

definition a_find :: "astore \<Rightarrow> string \<Rightarrow> string option" where
  "a_find A k = (if ains A k \<noteq> None then Some k else ahref A k)"

definition pending_delete :: "time \<Rightarrow> Instance \<Rightarrow> Instance" where
  "pending_delete now i =
     (if Phase i = PhaseRunning
      then i\<lparr>Phase := PhasePendingDelete, DeleteRequestedAt := Some now, LastUpdated := Some now\<rparr>
      else i)"

definition gc_delete :: "time \<Rightarrow> Instance \<Rightarrow> Instance" where
  "gc_delete now i =
     (if Phase i = PhaseRunning
      then i\<lparr>Phase := PhasePendingDelete, GCMarkedAt := Some now, DeleteRequestedAt := Some now,
             LastUpdated := Some now\<rparr>
      else i)"

definition a_map :: "string \<Rightarrow> (Instance \<Rightarrow> Instance) \<Rightarrow> astore \<Rightarrow> astore" where
  "a_map k f A = A\<lparr>ains := (ains A)(k := map_option f (ains A k))\<rparr>"

definition leftover_inst :: "time \<Rightarrow> string \<Rightarrow> string \<Rightarrow> Instance" where
  "leftover_inst now h n =
     Instance0\<lparr>ID := h, IntentID := h, Name := n, Phase := PhasePendingDelete, Leftover := True,
       DeleteRequestedAt := Some now, LastUpdated := Some now\<rparr>"

definition observed ::
    "time \<Rightarrow> string \<Rightarrow> string \<Rightarrow> string \<Rightarrow> string \<Rightarrow> string \<Rightarrow> string \<Rightarrow> Instance \<Rightarrow> Instance" where
  "observed now n v ip vas vs os i =
     i\<lparr>Name := n, VMName := v, IPAddress := ip, VAppStatus := vas, VMStatus := vs, OSType := os,
       MissedPolls := 0, LastUpdated := Some now\<rparr>"

definition a_update :: "time \<Rightarrow> string \<Rightarrow> (Instance \<Rightarrow> Instance) \<Rightarrow> astore \<Rightarrow> astore" where
  "a_update now k fn A =
     (case ains A k of
        None \<Rightarrow> A
      | Some i \<Rightarrow>
          (let j = (fn i)\<lparr>LastUpdated := Some now\<rparr> in
           if ID j = [] then a_set k j A
           else \<lparr>ains = (\<lambda>k'. if k' = k then Some j
                              else if ahref A (ID j) = Some k' then None else ains A k'),
                 ahref = (ahref A)(ID j \<mapsto> k)\<rparr>))"

fun astore_exec :: "store_op \<Rightarrow> astore \<Rightarrow> astore" where
  "astore_exec (OpAddCreateIntent now k) A =
     a_set k (Instance0\<lparr>IntentID := k, Phase := PhasePendingCreate, CreatedAt := Some now\<rparr>) A"
| "astore_exec (OpMarkForDeletion now k) A =
     (case a_find A k of None \<Rightarrow> A | Some k' \<Rightarrow> a_map k' (pending_delete now) A)"
| "astore_exec (OpUpdateInstance now k fn) A = a_update now k fn A"
| "astore_exec (OpAddPreexisting now h n v ip vas vs os) A =
     (if ahref A h \<noteq> None then A
      else a_add h (Instance0\<lparr>ID := h, IntentID := h, Name := n, VMName := v, Phase := PhaseRunning,
                      IPAddress := ip, VAppStatus := vas, VMStatus := vs, OSType := os,
                      LastUpdated := Some now\<rparr>) A)"
| "astore_exec (OpAddLeftover now h n) A =
     (if ahref A h \<noteq> None then A else a_add h (leftover_inst now h n) A)"
| "astore_exec (OpUpdateFromVCD now h n v ip vas vs os) A =
     (case ahref A h of None \<Rightarrow> A | Some k \<Rightarrow> a_map k (observed now n v ip vas vs os) A)"
| "astore_exec (OpMarkDisappeared now known) A =
     A\<lparr>ains := (\<lambda>k. map_option (MarkDisappeared_body now known) (ains A k))\<rparr>"
| "astore_exec (OpPrune now) A =
     (let dead = (\<lambda>k. case ains A k of None \<Rightarrow> False | Some i \<Rightarrow> prunable (now - pruneAfter) i)
      in \<lparr>ains = (\<lambda>k. if dead k then None else ains A k),
          ahref = (\<lambda>h. case ahref A h of None \<Rightarrow> None | Some k \<Rightarrow> if dead k then None else Some k)\<rparr>)"
| "astore_exec (OpMarkGC now k) A = a_map k (gc_delete now) A"

text \<open>
  When each operation may be called: a new intent has a fresh ID, a newly discovered vApp has an
  HREF that is no intent ID, and a mutation keeps the intent ID and assigns the HREF once.
\<close>

definition mutation_ok :: "(Instance \<Rightarrow> Instance) \<Rightarrow> Instance \<Rightarrow> bool" where
  "mutation_ok fn i \<longleftrightarrow> IntentID (fn i) = IntentID i \<and> (ID i = [] \<or> ID (fn i) = ID i)"

fun astore_pre :: "store_op \<Rightarrow> astore \<Rightarrow> bool" where
  "astore_pre (OpAddCreateIntent now k) A \<longleftrightarrow> ains A k = None"
| "astore_pre (OpUpdateInstance now k fn) A \<longleftrightarrow> (case ains A k of None \<Rightarrow> True | Some i \<Rightarrow> mutation_ok fn i)"
| "astore_pre (OpAddPreexisting now h n v ip vas vs os) A \<longleftrightarrow> h \<noteq> [] \<and> (ahref A h = None \<longrightarrow> ains A h = None)"
| "astore_pre (OpAddLeftover now h n) A \<longleftrightarrow> h \<noteq> [] \<and> (ahref A h = None \<longrightarrow> ains A h = None)"
| "astore_pre _ A \<longleftrightarrow> True"

section \<open>Every operation keeps the invariant and refines its abstract counterpart\<close>

lemma instances_put [simp]:
  "instances (put_inst a i s) = instances s" "byVAppHREF (put_inst a i s) = byVAppHREF s"
  "heap (put_inst a i s) = (heap s)[a := i]"
  by (simp_all add: put_inst_def)

text \<open>Writing to a tracked object without changing its keys.\<close>

lemma put_inst_refines:
  assumes inv: "index_inv s" and a: "map_of (instances s) k = Some a"
    and i: "IntentID i = k" "ID i = ID (heap s ! a)"
  shows "index_inv (put_inst a i s)" and "abs_store (put_inst a i s) = a_set k i (abs_store s)"
proof -
  note ent = index_inv_instances [OF inv] and hrf = index_inv_href [OF inv]
  have la: "a < length (heap s)" and ka: "IntentID (heap s ! a) = k"
    using ent [OF a] by auto
  show "index_inv (put_inst a i s)"
  proof (rule index_invI)
    fix k' b assume "map_of (instances (put_inst a i s)) k' = Some b"
    then have b: "map_of (instances s) k' = Some b" by simp
    then show "b < length (heap (put_inst a i s)) \<and> IntentID (heap (put_inst a i s) ! b) = k' \<and>
        (ID (heap (put_inst a i s) ! b) \<noteq> [] \<longrightarrow>
          map_of (byVAppHREF (put_inst a i s)) (ID (heap (put_inst a i s) ! b)) = Some b)"
      using ent [OF b] i la ka by (cases "b = a") auto
  next
    fix h b assume "map_of (byVAppHREF (put_inst a i s)) h = Some b"
    then have b: "map_of (byVAppHREF s) h = Some b" by simp
    then show "h \<noteq> [] \<and> b < length (heap (put_inst a i s)) \<and> ID (heap (put_inst a i s) ! b) = h \<and>
        map_of (instances (put_inst a i s)) (IntentID (heap (put_inst a i s) ! b)) = Some b"
      using hrf [OF b] i la a by (cases "b = a") simp_all
  qed (use index_inv_distinct [OF inv] in simp_all)
  show "abs_store (put_inst a i s) = a_set k i (abs_store s)"
  proof (rule abs_store_eqI)
    fix k'
    show "GetByIntentID (put_inst a i s) k' = ains (a_set k i (abs_store s)) k'"
      using a la instances_addr_unique [OF inv a, of k']
      by (cases "map_of (instances s) k'") (auto simp: GetByIntentID_def a_set_def nth_list_update)
  next
    fix h
    show "map_option IntentID (GetByVAppHREF (put_inst a i s) h) = ahref (a_set k i (abs_store s)) h"
      using la i ka
      by (cases "map_of (byVAppHREF s) h")
        (auto simp: GetByVAppHREF_def a_set_def nth_list_update)
  qed
qed

text \<open>Adding a new object under an unused key, with or without an HREF.\<close>

lemma nth_fresh:
  "index_inv s \<Longrightarrow> map_of (instances s) k = Some a \<Longrightarrow> (heap s @ [i]) ! a = heap s ! a"
  "index_inv s \<Longrightarrow> map_of (byVAppHREF s) h = Some a \<Longrightarrow> (heap s @ [i]) ! a = heap s ! a"
  by (auto dest: index_inv_instances(1) index_inv_href(2) simp: nth_append)

lemma add_plain_refines:
  assumes inv: "index_inv s" and k: "GetByIntentID s k = None" and i: "IntentID i = k" "ID i = []"
  defines "s' \<equiv> s\<lparr>heap := heap s @ [i], instances := AList.update k (length (heap s)) (instances s)\<rparr>"
  shows "index_inv s'" and "abs_store s' = a_set k i (abs_store s)"
proof -
  have nk: "map_of (instances s) k = None" using k by (simp add: GetByIntentID_def)
  show "index_inv s'"
  proof (rule index_invI)
    fix k' b assume "map_of (instances s') k' = Some b"
    then show "b < length (heap s') \<and> IntentID (heap s' ! b) = k' \<and>
        (ID (heap s' ! b) \<noteq> [] \<longrightarrow> map_of (byVAppHREF s') (ID (heap s' ! b)) = Some b)"
      using index_inv_instances [OF inv, of k' b] nth_fresh(1) [OF inv, of k' b i] i
      by (cases "k' = k") (auto simp: s'_def)
  next
    fix h b assume "map_of (byVAppHREF s') h = Some b"
    then have b: "map_of (byVAppHREF s) h = Some b" by (simp add: s'_def)
    have "IntentID (heap s ! b) \<noteq> k" using index_inv_href(4) [OF inv b] nk by auto
    then show "h \<noteq> [] \<and> b < length (heap s') \<and> ID (heap s' ! b) = h \<and>
        map_of (instances s') (IntentID (heap s' ! b)) = Some b"
      using index_inv_href [OF inv b] nth_fresh(2) [OF inv b, of i] by (auto simp: s'_def)
  qed (use index_inv_distinct [OF inv] in \<open>simp_all add: s'_def\<close>)
  show "abs_store s' = a_set k i (abs_store s)"
  proof (rule abs_store_eqI)
    fix k' show "GetByIntentID s' k' = ains (a_set k i (abs_store s)) k'"
      using nth_fresh(1) [OF inv, of k' _ i]
      by (cases "map_of (instances s) k'") (auto simp: s'_def GetByIntentID_def a_set_def)
  next
    fix h show "map_option IntentID (GetByVAppHREF s' h) = ahref (a_set k i (abs_store s)) h"
      using nth_fresh(2) [OF inv, of h _ i]
      by (cases "map_of (byVAppHREF s) h") (auto simp: s'_def GetByVAppHREF_def a_set_def)
  qed
qed

lemma add_href_refines:
  assumes inv: "index_inv s" and h: "h \<noteq> []" and new: "GetByIntentID s h = None"
    and untracked: "map_of (byVAppHREF s) h = None" and i: "IntentID i = h" "ID i = h"
  defines "s' \<equiv> s\<lparr>heap := heap s @ [i], instances := AList.update h (length (heap s)) (instances s),
                  byVAppHREF := AList.update h (length (heap s)) (byVAppHREF s)\<rparr>"
  shows "index_inv s'" and "abs_store s' = a_add h i (abs_store s)"
proof -
  have nk: "map_of (instances s) h = None" using new by (simp add: GetByIntentID_def)
  show "index_inv s'"
  proof (rule index_invI)
    fix k' b assume b': "map_of (instances s') k' = Some b"
    have "ID (heap s ! b) \<noteq> h" if "map_of (instances s) k' = Some b"
      using index_inv_instances(3) [OF inv that] untracked h by auto
    then show "b < length (heap s') \<and> IntentID (heap s' ! b) = k' \<and>
        (ID (heap s' ! b) \<noteq> [] \<longrightarrow> map_of (byVAppHREF s') (ID (heap s' ! b)) = Some b)"
      using b' index_inv_instances [OF inv, of k' b] nth_fresh(1) [OF inv, of k' b i] i
      by (cases "k' = h") (auto simp: s'_def)
  next
    fix h' b assume b': "map_of (byVAppHREF s') h' = Some b"
    have "IntentID (heap s ! b) \<noteq> h" if "map_of (byVAppHREF s) h' = Some b"
      using index_inv_href(4) [OF inv that] nk by auto
    then show "h' \<noteq> [] \<and> b < length (heap s') \<and> ID (heap s' ! b) = h' \<and>
        map_of (instances s') (IntentID (heap s' ! b)) = Some b"
      using b' index_inv_href [OF inv, of h' b] nth_fresh(2) [OF inv, of h' b i] i h
      by (cases "h' = h") (auto simp: s'_def)
  qed (use index_inv_distinct [OF inv] in \<open>simp_all add: s'_def\<close>)
  show "abs_store s' = a_add h i (abs_store s)"
  proof (rule abs_store_eqI)
    fix k' show "GetByIntentID s' k' = ains (a_add h i (abs_store s)) k'"
      using nth_fresh(1) [OF inv, of k' _ i]
      by (cases "map_of (instances s) k'") (auto simp: s'_def GetByIntentID_def a_add_def)
  next
    fix h' show "map_option IntentID (GetByVAppHREF s' h') = ahref (a_add h i (abs_store s)) h'"
      using nth_fresh(2) [OF inv, of h' _ i] i
      by (cases "map_of (byVAppHREF s) h'") (auto simp: s'_def GetByVAppHREF_def a_add_def)
  qed
qed

text \<open>Dropping an object from both indexes.\<close>

definition a_drop :: "string \<Rightarrow> astore \<Rightarrow> astore" where
  "a_drop k A = \<lparr>ains = (ains A)(k := None),
                 ahref = (\<lambda>h. if ahref A h = Some k then None else ahref A h)\<rparr>"

lemma GetByVAppHREF_intent:
  assumes "index_inv s"
  shows "map_option IntentID (GetByVAppHREF s h) = Some k \<longleftrightarrow>
           h \<noteq> [] \<and> (\<exists>a. map_of (instances s) k = Some a \<and> ID (heap s ! a) = h)"
proof
  assume "map_option IntentID (GetByVAppHREF s h) = Some k"
  then obtain a where "map_of (byVAppHREF s) h = Some a" "IntentID (heap s ! a) = k"
    by (auto simp: GetByVAppHREF_def)
  then show "h \<noteq> [] \<and> (\<exists>a. map_of (instances s) k = Some a \<and> ID (heap s ! a) = h)"
    using index_inv_href [OF assms, of h a] by auto
next
  assume "h \<noteq> [] \<and> (\<exists>a. map_of (instances s) k = Some a \<and> ID (heap s ! a) = h)"
  then obtain a where "h \<noteq> []" "map_of (instances s) k = Some a" "ID (heap s ! a) = h" by auto
  then show "map_option IntentID (GetByVAppHREF s h) = Some k"
    using index_inv_instances [OF assms, of k a] by (simp add: GetByVAppHREF_def)
qed

lemma drop_refines:
  assumes inv: "index_inv s" and a: "map_of (instances s) k = Some a"
  defines "s' \<equiv> s\<lparr>byVAppHREF := AList.delete (ID (heap s ! a)) (byVAppHREF s),
                  instances := AList.delete k (instances s)\<rparr>"
  shows "index_inv s'" and "abs_store s' = a_drop k (abs_store s)"
proof -
  have ka: "IntentID (heap s ! a) = k" using index_inv_instances [OF inv a] by auto
  show "index_inv s'"
  proof (rule index_invI)
    fix k' b assume b': "map_of (instances s') k' = Some b"
    then have b: "map_of (instances s) k' = Some b" and "k' \<noteq> k" by (auto simp: s'_def split: if_splits)
    then have ne: "b \<noteq> a" using instances_addr_unique [OF inv a] by auto
    have "ID (heap s ! b) \<noteq> ID (heap s ! a)" if "ID (heap s ! b) \<noteq> []"
      using index_inv_instances(3) [OF inv b that] index_inv_instances(3) [OF inv a] ne that by auto
    then show "b < length (heap s') \<and> IntentID (heap s' ! b) = k' \<and>
        (ID (heap s' ! b) \<noteq> [] \<longrightarrow> map_of (byVAppHREF s') (ID (heap s' ! b)) = Some b)"
      using index_inv_instances [OF inv b] by (auto simp: s'_def)
  next
    fix h b assume b': "map_of (byVAppHREF s') h = Some b"
    then have b: "map_of (byVAppHREF s) h = Some b" and "h \<noteq> ID (heap s ! a)"
      by (auto simp: s'_def split: if_splits)
    then have "IntentID (heap s ! b) \<noteq> k"
      using index_inv_href [OF inv b] a by auto
    then show "h \<noteq> [] \<and> b < length (heap s') \<and> ID (heap s' ! b) = h \<and>
        map_of (instances s') (IntentID (heap s' ! b)) = Some b"
      using index_inv_href [OF inv b] by (auto simp: s'_def)
  qed (use index_inv_distinct [OF inv] in \<open>simp_all add: s'_def\<close>)
  show "abs_store s' = a_drop k (abs_store s)"
  proof (rule abs_store_eqI)
    fix k' show "GetByIntentID s' k' = ains (a_drop k (abs_store s)) k'"
      by (auto simp: s'_def GetByIntentID_def a_drop_def)
  next
    fix h
    have "h = ID (heap s ! a) \<longleftrightarrow> map_option IntentID (GetByVAppHREF s h) = Some k" if "h \<noteq> []"
      using GetByVAppHREF_intent [OF inv, of h k] a that by auto
    moreover have "map_of (byVAppHREF s) [] = None"
      using index_inv_href(1) [OF inv, of "[]"] by fastforce
    ultimately show "map_option IntentID (GetByVAppHREF s' h) = ahref (a_drop k (abs_store s)) h"
      by (cases "h = []") (auto simp: s'_def GetByVAppHREF_def a_drop_def)
  qed
qed

text \<open>The mutating operations, one by one.\<close>

lemma AddCreateIntent_refines:
  assumes "index_inv s" and "GetByIntentID s k = None"
  shows "index_inv (AddCreateIntent now k s)"
    and "abs_store (AddCreateIntent now k s) = astore_exec (OpAddCreateIntent now k) (abs_store s)"
  using add_plain_refines [OF assms, of "Instance0\<lparr>IntentID := k, Phase := PhasePendingCreate, CreatedAt := Some now\<rparr>"]
  by (simp_all add: AddCreateIntent_def alloc_def Let_def)

lemma findLocked_abs:
  assumes inv: "index_inv s"
  shows "findLocked s k = None \<Longrightarrow> a_find (abs_store s) k = None"
    and "findLocked s k = Some a \<Longrightarrow>
           \<exists>k'. a_find (abs_store s) k = Some k' \<and> map_of (instances s) k' = Some a"
  using index_inv_href(4) [OF inv, of k]
  by (auto simp: findLocked_def a_find_def GetByIntentID_def GetByVAppHREF_def split: option.splits)

lemma a_map_abs:
  "map_of (instances s) k = Some a \<Longrightarrow> a_map k f (abs_store s) = a_set k (f (heap s ! a)) (abs_store s)"
  by (simp add: a_map_def a_set_def GetByIntentID_def)

lemma a_map_id: "f i = i \<Longrightarrow> GetByIntentID s k = Some i \<Longrightarrow> a_map k f (abs_store s) = abs_store s"
  by (auto simp: a_map_def abs_store_def fun_eq_iff)

lemma MarkForDeletion_refines:
  assumes inv: "index_inv s"
  shows "index_inv (MarkForDeletion now k s)"
    and "abs_store (MarkForDeletion now k s) = astore_exec (OpMarkForDeletion now k) (abs_store s)"
proof -
  have "index_inv (MarkForDeletion now k s) \<and>
    abs_store (MarkForDeletion now k s) = astore_exec (OpMarkForDeletion now k) (abs_store s)"
  proof (cases "findLocked s k")
    case None
    then show ?thesis using inv findLocked_abs(1) [OF inv None] by (simp add: MarkForDeletion_def)
  next
    case (Some a)
    then obtain k' where k': "a_find (abs_store s) k = Some k'" "map_of (instances s) k' = Some a"
      using findLocked_abs(2) [OF inv] by blast
    show ?thesis
    proof (cases "Phase (heap s ! a) = PhaseRunning")
      case True
      then show ?thesis
        using Some k' put_inst_refines [OF inv k'(2), of "pending_delete now (heap s ! a)"]
          index_inv_instances [OF inv k'(2)]
        by (simp add: MarkForDeletion_def pending_delete_def a_map_abs)
    next
      case False
      then show ?thesis
        using Some k' inv a_map_id [of "pending_delete now" "heap s ! a" s k']
        by (simp add: MarkForDeletion_def pending_delete_def GetByIntentID_def)
    qed
  qed
  then show "index_inv (MarkForDeletion now k s)"
    "abs_store (MarkForDeletion now k s) = astore_exec (OpMarkForDeletion now k) (abs_store s)"
    by blast+
qed

lemma MarkGC_refines:
  assumes inv: "index_inv s"
  shows "index_inv (MarkGC now k s)"
    and "abs_store (MarkGC now k s) = astore_exec (OpMarkGC now k) (abs_store s)"
proof -
  have "index_inv (MarkGC now k s) \<and>
    abs_store (MarkGC now k s) = astore_exec (OpMarkGC now k) (abs_store s)"
  proof (cases "map_of (instances s) k")
    case None
    then show ?thesis using inv
      by (auto simp: MarkGC_def a_map_def abs_store_def GetByIntentID_def fun_eq_iff)
  next
    case (Some a)
    show ?thesis
    proof (cases "Phase (heap s ! a) = PhaseRunning")
      case True
      then show ?thesis
        using Some put_inst_refines [OF inv Some, of "gc_delete now (heap s ! a)"]
          index_inv_instances [OF inv Some]
        by (simp add: MarkGC_def gc_delete_def a_map_abs)
    next
      case False
      then show ?thesis
        using Some inv a_map_id [of "gc_delete now" "heap s ! a" s k]
        by (simp add: MarkGC_def gc_delete_def GetByIntentID_def)
    qed
  qed
  then show "index_inv (MarkGC now k s)"
    "abs_store (MarkGC now k s) = astore_exec (OpMarkGC now k) (abs_store s)"
    by blast+
qed

lemma AddPreexisting_refines:
  assumes inv: "index_inv s" and pre: "astore_pre (OpAddPreexisting now h n v ip vas vs os) (abs_store s)"
  shows "index_inv (AddPreexisting now h n v ip vas vs os s)"
    and "abs_store (AddPreexisting now h n v ip vas vs os s) =
           astore_exec (OpAddPreexisting now h n v ip vas vs os) (abs_store s)"
  using inv pre add_href_refines [OF inv, of h "Instance0\<lparr>ID := h, IntentID := h, Name := n, VMName := v,
      Phase := PhaseRunning, IPAddress := ip, VAppStatus := vas, VMStatus := vs, OSType := os,
      LastUpdated := Some now\<rparr>"]
  by (auto simp: AddPreexisting_def alloc_def Let_def GetByVAppHREF_def split: option.splits)

lemma AddLeftover_refines:
  assumes inv: "index_inv s" and pre: "astore_pre (OpAddLeftover now h n) (abs_store s)"
  shows "index_inv (snd (AddLeftover now h n s))"
    and "abs_store (snd (AddLeftover now h n s)) = astore_exec (OpAddLeftover now h n) (abs_store s)"
    and "fst (AddLeftover now h n s) \<longleftrightarrow> GetByVAppHREF s h = None"
  using inv pre add_href_refines [OF inv, of h "leftover_inst now h n"]
  by (auto simp: AddLeftover_def alloc_def Let_def GetByVAppHREF_def leftover_inst_def split: option.splits)

lemma UpdateFromVCD_refines:
  assumes inv: "index_inv s"
  shows "index_inv (snd (UpdateFromVCD now h n v ip vas vs os s))"
    and "abs_store (snd (UpdateFromVCD now h n v ip vas vs os s)) =
           astore_exec (OpUpdateFromVCD now h n v ip vas vs os) (abs_store s)"
    and "fst (UpdateFromVCD now h n v ip vas vs os s) \<longleftrightarrow> GetByVAppHREF s h \<noteq> None"
proof -
  have "index_inv (snd (UpdateFromVCD now h n v ip vas vs os s)) \<and>
    abs_store (snd (UpdateFromVCD now h n v ip vas vs os s)) =
           astore_exec (OpUpdateFromVCD now h n v ip vas vs os) (abs_store s) \<and>
    (fst (UpdateFromVCD now h n v ip vas vs os s) \<longleftrightarrow> GetByVAppHREF s h \<noteq> None)"
  proof (cases "map_of (byVAppHREF s) h")
    case None
    then show ?thesis using inv by (simp add: UpdateFromVCD_def GetByVAppHREF_def)
  next
    case (Some a)
    note a = index_inv_href(4) [OF inv Some]
    show ?thesis
      using Some put_inst_refines [OF inv a, of "observed now n v ip vas vs os (heap s ! a)"]
        a_map_abs [OF a, of "observed now n v ip vas vs os"]
      by (simp add: UpdateFromVCD_def GetByVAppHREF_def observed_def)
  qed
  then show "index_inv (snd (UpdateFromVCD now h n v ip vas vs os s))"
    "abs_store (snd (UpdateFromVCD now h n v ip vas vs os s)) =
       astore_exec (OpUpdateFromVCD now h n v ip vas vs os) (abs_store s)"
    "fst (UpdateFromVCD now h n v ip vas vs os s) \<longleftrightarrow> GetByVAppHREF s h \<noteq> None"
    by blast+
qed

text \<open>
  \<^verbatim>\<open>UpdateInstance\<close> when the mutated instance has an HREF: the HREF index is pointed at it, and
  an object that held the HREF before is dropped.
\<close>

definition relink :: "string \<Rightarrow> addr \<Rightarrow> Instance \<Rightarrow> desiredStateStore \<Rightarrow> desiredStateStore" where
  "relink k a j s =
     s\<lparr>heap := (heap s)[a := j],
       instances := (case map_of (byVAppHREF s) (ID j) of
                       Some e \<Rightarrow> if e \<noteq> a then AList.delete (IntentID (heap s ! e)) (instances s)
                                else instances s
                     | None \<Rightarrow> instances s),
       byVAppHREF := AList.update (ID j) a (byVAppHREF s)\<rparr>"

lemma UpdateInstance_relink:
  assumes "map_of (instances s) k = Some a" and "ID (fn (heap s ! a)) \<noteq> []"
  shows "UpdateInstance now k fn s = relink k a ((fn (heap s ! a))\<lparr>LastUpdated := Some now\<rparr>) s"
  using assms
  by (auto simp: UpdateInstance_def relink_def Let_def put_inst_def nth_list_update split: option.splits)

lemma map_of_instances_relink:
  assumes inv: "index_inv s" and a: "map_of (instances s) k = Some a" and j: "ID j \<noteq> []"
  shows "map_of (instances (relink k a j s)) k' =
           (if k' \<noteq> k \<and> map_option IntentID (GetByVAppHREF s (ID j)) = Some k' then None
            else map_of (instances s) k')"
proof (cases "map_of (byVAppHREF s) (ID j)")
  case None
  then show ?thesis by (simp add: relink_def GetByVAppHREF_def)
next
  case (Some e)
  note e = index_inv_href [OF inv Some]
  have "e = a \<longleftrightarrow> IntentID (heap s ! e) = k"
    using e(4) a index_inv_instances(2) [OF inv a] by (metis option.inject)
  then show ?thesis using Some by (auto simp: relink_def GetByVAppHREF_def)
qed

lemma relink_index_inv:
  assumes inv: "index_inv s" and a: "map_of (instances s) k = Some a" and j: "ID j \<noteq> []" "IntentID j = k"
    and once: "ID (heap s ! a) = [] \<or> ID j = ID (heap s ! a)"
  shows "index_inv (relink k a j s)"
proof (rule index_invI)
  note la = index_inv_instances(1) [OF inv a]
  note rel = map_of_instances_relink [OF inv a j(1)]
  {
    fix k' b assume "map_of (instances (relink k a j s)) k' = Some b"
    then have b: "map_of (instances s) k' = Some b"
      and ne: "k' = k \<or> map_option IntentID (GetByVAppHREF s (ID j)) \<noteq> Some k'"
      by (auto simp: rel split: if_splits)
    show "b < length (heap (relink k a j s)) \<and> IntentID (heap (relink k a j s) ! b) = k' \<and>
        (ID (heap (relink k a j s) ! b) \<noteq> [] \<longrightarrow>
           map_of (byVAppHREF (relink k a j s)) (ID (heap (relink k a j s) ! b)) = Some b)"
    proof (cases "k' = k")
      case True
      then show ?thesis using a b la j by (simp add: relink_def)
    next
      case False
      then have "b \<noteq> a" using instances_addr_unique [OF inv a] b by auto
      moreover have "ID (heap s ! b) \<noteq> ID j"
        using GetByVAppHREF_intent [OF inv, of "ID j" k'] ne False b j by auto
      ultimately show ?thesis using index_inv_instances [OF inv b] by (simp add: relink_def)
    qed
  next
    fix h b assume hb: "map_of (byVAppHREF (relink k a j s)) h = Some b"
    show "h \<noteq> [] \<and> b < length (heap (relink k a j s)) \<and> ID (heap (relink k a j s) ! b) = h \<and>
        map_of (instances (relink k a j s)) (IntentID (heap (relink k a j s) ! b)) = Some b"
    proof (cases "h = ID j")
      case True
      then show ?thesis using hb a la j rel [of k] by (simp add: relink_def)
    next
      case False
      then have b: "map_of (byVAppHREF s) h = Some b" using hb by (simp add: relink_def)
      note hrf = index_inv_href [OF inv b]
      have "b \<noteq> a" using once hrf False by auto
      moreover have "map_option IntentID (GetByVAppHREF s (ID j)) \<noteq> Some (IntentID (heap s ! b))"
        using GetByVAppHREF_intent [OF inv, of "ID j"] hrf False by auto
      ultimately show ?thesis using hrf rel [of "IntentID (heap s ! b)"] by (simp add: relink_def)
    qed
  }
qed (use index_inv_distinct [OF inv] in \<open>auto simp: relink_def split: option.splits\<close>)

lemma relink_refines:
  assumes inv: "index_inv s" and a: "map_of (instances s) k = Some a" and j: "ID j \<noteq> []" "IntentID j = k"
  shows "abs_store (relink k a j s) =
           \<lparr>ains = (\<lambda>k'. if k' = k then Some j
                        else if map_option IntentID (GetByVAppHREF s (ID j)) = Some k' then None
                        else GetByIntentID s k'),
            ahref = (\<lambda>h. map_option IntentID (GetByVAppHREF s h))(ID j \<mapsto> k)\<rparr>"
proof (rule abs_store_eqI)
  note la = index_inv_instances(1,2) [OF inv a]
  fix k'
  show "GetByIntentID (relink k a j s) k' = ains \<lparr>ains = (\<lambda>k'. if k' = k then Some j
                        else if map_option IntentID (GetByVAppHREF s (ID j)) = Some k' then None
                        else GetByIntentID s k'),
            ahref = (\<lambda>h. map_option IntentID (GetByVAppHREF s h))(ID j \<mapsto> k)\<rparr> k'"
    using la a instances_addr_unique [OF inv a, of k'] map_of_instances_relink [OF inv a j(1), of k']
    by (cases "map_of (instances s) k'")
      (auto simp: GetByIntentID_def relink_def nth_list_update)
next
  note la = index_inv_instances(1,2) [OF inv a]
  fix h
  show "map_option IntentID (GetByVAppHREF (relink k a j s) h) = ahref \<lparr>ains = (\<lambda>k'. if k' = k then Some j
                        else if map_option IntentID (GetByVAppHREF s (ID j)) = Some k' then None
                        else GetByIntentID s k'),
            ahref = (\<lambda>h. map_option IntentID (GetByVAppHREF s h))(ID j \<mapsto> k)\<rparr> h"
    using la j by (cases "map_of (byVAppHREF s) h")
      (auto simp: GetByVAppHREF_def relink_def nth_list_update)
qed

lemma UpdateInstance_refines:
  assumes inv: "index_inv s" and pre: "astore_pre (OpUpdateInstance now k fn) (abs_store s)"
  shows "index_inv (UpdateInstance now k fn s)"
    and "abs_store (UpdateInstance now k fn s) = astore_exec (OpUpdateInstance now k fn) (abs_store s)"
proof -
  have "index_inv (UpdateInstance now k fn s) \<and>
    abs_store (UpdateInstance now k fn s) = astore_exec (OpUpdateInstance now k fn) (abs_store s)"
  proof (cases "map_of (instances s) k")
    case None
    then show ?thesis using inv by (simp add: UpdateInstance_def a_update_def GetByIntentID_def)
  next
    case (Some a)
    let ?j = "(fn (heap s ! a))\<lparr>LastUpdated := Some now\<rparr>"
    have ok: "mutation_ok fn (heap s ! a)" and ka: "IntentID (heap s ! a) = k"
      using pre Some index_inv_instances(2) [OF inv Some] by (auto simp: GetByIntentID_def)
    then have j: "IntentID ?j = k" "ID (heap s ! a) = [] \<or> ID ?j = ID (heap s ! a)"
      by (auto simp: mutation_ok_def)
    show ?thesis
    proof (cases "ID (fn (heap s ! a)) = []")
      case True
      then show ?thesis
        using Some j put_inst_refines [OF inv Some, of ?j]
        by (auto simp: UpdateInstance_def a_update_def GetByIntentID_def Let_def)
    next
      case False
      then show ?thesis
        using Some j UpdateInstance_relink [where now = now and fn = fn, OF Some False]
          relink_index_inv [OF inv Some, of ?j]
          relink_refines [OF inv Some, of ?j]
        by (auto simp: a_update_def GetByIntentID_def [of s k] Let_def fun_eq_iff)
    qed
  qed
  then show "index_inv (UpdateInstance now k fn s)"
    "abs_store (UpdateInstance now k fn s) = astore_exec (OpUpdateInstance now k fn) (abs_store s)"
    by blast+
qed

text \<open>The two loops over the instances, by induction over the entries still to visit.\<close>

lemma MarkDisappeared_body_keys [simp]:
  "ID (MarkDisappeared_body now known i) = ID i"
  "IntentID (MarkDisappeared_body now known i) = IntentID i"
  by (simp_all add: MarkDisappeared_body_def Let_def)

lemma fold_put_refines:
  assumes "index_inv s" and "set xs \<subseteq> set (instances s)" and "distinct (keys xs)"
    and keep: "\<And>i. ID (f i) = ID i" "\<And>i. IntentID (f i) = IntentID i"
  shows "index_inv (fold (\<lambda>(k, a) s. put_inst a (f (heap s ! a)) s) xs s) \<and>
         abs_store (fold (\<lambda>(k, a) s. put_inst a (f (heap s ! a)) s) xs s) =
           (abs_store s)\<lparr>ains := (\<lambda>k. if k \<in> set (keys xs) then map_option f (GetByIntentID s k)
                                  else GetByIntentID s k)\<rparr>"
  using assms(1-3)
proof (induction xs arbitrary: s)
  case Nil
  then show ?case by (auto simp: abs_store_def)
next
  case (Cons x xs)
  obtain k a where x: "x = (k, a)" by fastforce
  let ?s = "put_inst a (f (heap s ! a)) s"
  have a: "map_of (instances s) k = Some a"
    using Cons.prems index_inv_distinct(1) [OF Cons.prems(1)] x by (simp add: map_of_iff_mem)
  have ka: "IntentID (heap s ! a) = k" using index_inv_instances(2) [OF Cons.prems(1) a] .
  note put = put_inst_refines [OF Cons.prems(1) a, of "f (heap s ! a)", unfolded keep ka, OF refl refl]
  have IH: "index_inv (fold (\<lambda>(k, a) s. put_inst a (f (heap s ! a)) s) xs ?s) \<and>
         abs_store (fold (\<lambda>(k, a) s. put_inst a (f (heap s ! a)) s) xs ?s) =
           (abs_store ?s)\<lparr>ains := (\<lambda>k. if k \<in> set (keys xs) then map_option f (GetByIntentID ?s k)
                                  else GetByIntentID ?s k)\<rparr>"
    by (rule Cons.IH) (use put Cons.prems in auto)
  have get: "GetByIntentID ?s = (GetByIntentID s)(k \<mapsto> f (heap s ! a))"
    using arg_cong [OF put(2), of ains] by (simp add: a_set_def)
  have "GetByIntentID s k = Some (heap s ! a)" using a by (simp add: GetByIntentID_def)
  moreover have "k \<notin> set (keys xs)" using Cons.prems(3) x by auto
  ultimately show ?case using IH put(2) x
    by (auto simp: get a_set_def fun_eq_iff)
qed

lemma MarkDisappeared_refines:
  assumes inv: "index_inv s"
  shows "index_inv (MarkDisappeared now known s)"
    and "abs_store (MarkDisappeared now known s) = astore_exec (OpMarkDisappeared now known) (abs_store s)"
proof -
  have "GetByIntentID s k = None" if "k \<notin> set (keys (instances s))" for k
    using that by (simp add: GetByIntentID_def map_of_eq_None_iff)
  then show "index_inv (MarkDisappeared now known s)"
    "abs_store (MarkDisappeared now known s) = astore_exec (OpMarkDisappeared now known) (abs_store s)"
    using fold_put_refines [OF inv subset_refl index_inv_distinct(1) [OF inv],
        of "MarkDisappeared_body now known"]
    by (auto simp: MarkDisappeared_def fun_eq_iff)
qed

definition a_dead :: "time \<Rightarrow> astore \<Rightarrow> string \<Rightarrow> bool" where
  "a_dead cutoff A k = (case ains A k of None \<Rightarrow> False | Some i \<Rightarrow> prunable cutoff i)"

definition a_prune :: "time \<Rightarrow> string set \<Rightarrow> astore \<Rightarrow> astore" where
  "a_prune cutoff K A =
     \<lparr>ains = (\<lambda>k. if k \<in> K \<and> a_dead cutoff A k then None else ains A k),
      ahref = (\<lambda>h. case ahref A h of None \<Rightarrow> None
                   | Some k \<Rightarrow> if k \<in> K \<and> a_dead cutoff A k then None else Some k)\<rparr>"

definition prune_entry :: "time \<Rightarrow> string \<times> addr \<Rightarrow> desiredStateStore \<Rightarrow> desiredStateStore" where
  "prune_entry cutoff = (\<lambda>(k, a) s.
     if prunable cutoff (heap s ! a)
     then s\<lparr>byVAppHREF := AList.delete (ID (heap s ! a)) (byVAppHREF s),
            instances := AList.delete k (instances s)\<rparr>
     else s)"

lemma prune_entry_refines:
  assumes inv: "index_inv s" and a: "map_of (instances s) k = Some a"
  shows "index_inv (prune_entry cutoff (k, a) s)"
    and "abs_store (prune_entry cutoff (k, a) s) = a_prune cutoff {k} (abs_store s)"
proof -
  have get: "GetByIntentID s k = Some (heap s ! a)" using a by (simp add: GetByIntentID_def)
  show "index_inv (prune_entry cutoff (k, a) s)"
    using drop_refines(1) [OF inv a] inv by (simp add: prune_entry_def)
  show "abs_store (prune_entry cutoff (k, a) s) = a_prune cutoff {k} (abs_store s)"
    using drop_refines(2) [OF inv a] get
    by (auto simp: prune_entry_def a_prune_def a_dead_def a_drop_def abs_store_def fun_eq_iff
        split: option.splits)
qed

lemma instances_prune_entry:
  "k' \<noteq> k \<Longrightarrow> map_of (instances (prune_entry cutoff (k, a) s)) k' = map_of (instances s) k'"
  by (simp add: prune_entry_def)

lemma a_prune_insert:
  assumes "k \<notin> K"
  shows "a_prune cutoff K (a_prune cutoff {k} A) = a_prune cutoff (insert k K) A"
  using assms by (auto simp: a_prune_def a_dead_def fun_eq_iff split: option.splits)

lemma fold_prune_refines:
  assumes "index_inv s" and "\<forall>(k, a) \<in> set xs. map_of (instances s) k = Some a" and "distinct (keys xs)"
  shows "index_inv (fold (prune_entry cutoff) xs s) \<and>
         abs_store (fold (prune_entry cutoff) xs s) = a_prune cutoff (set (keys xs)) (abs_store s)"
  using assms
proof (induction xs arbitrary: s)
  case Nil
  then show ?case by (auto simp: a_prune_def abs_store_def fun_eq_iff split: option.splits)
next
  case (Cons x xs)
  obtain k a where x: "x = (k, a)" by fastforce
  have a: "map_of (instances s) k = Some a" using Cons.prems x by auto
  note entry = prune_entry_refines [OF Cons.prems(1) a, of cutoff]
  have "\<forall>(k', b) \<in> set xs. map_of (instances (prune_entry cutoff (k, a) s)) k' = Some b"
  proof clarify
    fix k' b assume kb: "(k', b) \<in> set xs"
    with Cons.prems(3) x have "k' \<noteq> k" by force
    with Cons.prems(2) kb show "map_of (instances (prune_entry cutoff (k, a) s)) k' = Some b"
      by (auto simp: instances_prune_entry)
  qed
  with Cons.IH [OF entry(1)] Cons.prems
  have "index_inv (fold (prune_entry cutoff) xs (prune_entry cutoff (k, a) s)) \<and>
    abs_store (fold (prune_entry cutoff) xs (prune_entry cutoff (k, a) s)) =
      a_prune cutoff (set (keys xs)) (a_prune cutoff {k} (abs_store s))"
    by (simp add: entry(2))
  moreover have "k \<notin> set (keys xs)" using Cons.prems(3) x by auto
  ultimately show ?case using a_prune_insert [of k "set (keys xs)" cutoff "abs_store s"] x by simp
qed

lemma Prune_refines:
  assumes inv: "index_inv s"
  shows "index_inv (Prune now s)"
    and "abs_store (Prune now s) = astore_exec (OpPrune now) (abs_store s)"
proof -
  have P: "Prune now s = fold (prune_entry (now - pruneAfter)) (instances s) s"
    unfolding Prune_def Let_def prune_entry_def ..
  have ent: "\<forall>(k, a) \<in> set (instances s). map_of (instances s) k = Some a"
    using index_inv_distinct(1) [OF inv] by (auto simp: map_of_iff_mem)
  have dom: "a_dead c (abs_store s) k \<Longrightarrow> k \<in> set (keys (instances s))" for c k
    by (auto simp: a_dead_def GetByIntentID_def map_of_eq_None_iff split: option.splits
        dest!: map_of_SomeD) force+
  show "index_inv (Prune now s)"
    using fold_prune_refines [OF inv ent index_inv_distinct(1) [OF inv]] by (simp add: P)
  have "a_prune (now - pruneAfter) (set (keys (instances s))) (abs_store s) = astore_exec (OpPrune now) (abs_store s)"
    using dom [of "now - pruneAfter"]
    by (auto simp: a_prune_def a_dead_def Let_def fun_eq_iff split: option.splits)
  then show "abs_store (Prune now s) = astore_exec (OpPrune now) (abs_store s)"
    using fold_prune_refines [OF inv ent index_inv_distinct(1) [OF inv]] by (simp add: P)
qed

lemma newDesiredStateStore_inv [simp]: "index_inv (newDesiredStateStore g)"
  by (simp add: index_inv_def newDesiredStateStore_def)

lemmas store_refines =
  AddCreateIntent_refines MarkForDeletion_refines UpdateInstance_refines AddPreexisting_refines
  AddLeftover_refines UpdateFromVCD_refines MarkDisappeared_refines Prune_refines MarkGC_refines

interpretation store_sim: simulation index_inv abs_store store_exec astore_exec astore_pre
proof
  fix s x assume "index_inv s" "astore_pre x (abs_store s)"
  then show "index_inv (store_exec x s)"
    by (cases x) (simp_all add: store_refines del: astore_exec.simps)
next
  fix s x assume "index_inv s" "astore_pre x (abs_store s)"
  then show "abs_store (store_exec x s) = astore_exec x (abs_store s)"
    by (cases x) (simp_all add: store_refines del: astore_exec.simps)
qed

end
