(* ===== verification/Lifecycle.thy ===== *)
theory Lifecycle
  imports Store_Inv
begin

text \<open>
  How each store operation changes the instances a client can look up, and the lifecycle invariant of
  a single instance: which fields are set in which phase.
\<close>

section \<open>Operations that change instances in place\<close>

text \<open>
  The contract most clients need: the operation applies a function to the instances it touches and
  leaves the others and the set of tracked intents alone.
\<close>

locale pointwise_op =
  fixes get :: "'s \<Rightarrow> string \<Rightarrow> Instance option" and pre :: "'s \<Rightarrow> bool" and op :: "'s \<Rightarrow> 's"
    and touched :: "'s \<Rightarrow> string \<Rightarrow> bool" and f :: "Instance \<Rightarrow> Instance"
  assumes get_op: "pre s \<Longrightarrow> get (op s) k = (if touched s k then map_option f (get s k) else get s k)"
begin

lemma op_None: "pre s \<Longrightarrow> get (op s) k = None \<longleftrightarrow> get s k = None"
  by (simp add: get_op)

lemma op_Some:
  assumes "pre s" and "get (op s) k = Some i"
  obtains i0 where "get s k = Some i0" "i = i0 \<or> i = f i0"
  using assms by (auto simp: get_op split: if_splits)

lemma op_all:
  assumes "pre s" and "\<And>k i. get s k = Some i \<Longrightarrow> P k i" and "\<And>k i. P k i \<Longrightarrow> P k (f i)"
    and "get (op s) k = Some i"
  shows "P k i"
  using assms by (auto elim: op_Some)

text \<open>A field the function keeps is the same before and after.\<close>

lemma op_field:
  assumes "pre s" and "\<And>i. g (f i) = g i"
  shows "map_option g (get (op s) k) = map_option g (get s k)"
  using assms by (cases "get s k") (auto simp: get_op)

end

lemma GetByIntentID_refined: "abs_store s' = A \<Longrightarrow> GetByIntentID s' k = ains A k"
  by auto

interpretation mark_deletion: pointwise_op GetByIntentID index_inv "MarkForDeletion now target"
    "\<lambda>s k. a_find (abs_store s) target = Some k" "pending_delete now"
  for now target
  by unfold_locales
    (auto simp: GetByIntentID_refined [OF MarkForDeletion_refines(2)] a_map_def split: option.splits)

interpretation mark_gc: pointwise_op GetByIntentID index_inv "MarkGC now target" "\<lambda>s k. k = target"
    "gc_delete now"
  for now target
  by unfold_locales (auto simp: GetByIntentID_refined [OF MarkGC_refines(2)] a_map_def)

interpretation observe: pointwise_op GetByIntentID index_inv
    "\<lambda>s. snd (UpdateFromVCD now h n v ip vas vs os s)"
    "\<lambda>s k. ahref (abs_store s) h = Some k" "observed now n v ip vas vs os"
  for now h n v ip vas vs os
  by unfold_locales
    (auto simp: GetByIntentID_refined [OF UpdateFromVCD_refines(2)] a_map_def split: option.splits)

interpretation disappear: pointwise_op GetByIntentID index_inv "MarkDisappeared now known"
    "\<lambda>s k. True" "MarkDisappeared_body now known"
  for now known
  by unfold_locales (auto simp: GetByIntentID_refined [OF MarkDisappeared_refines(2)])

text \<open>
  \<^verbatim>\<open>UpdateInstance\<close> is such an operation as long as no other instance holds the HREF the mutation
  assigns.
\<close>

definition stamp :: "time \<Rightarrow> (Instance \<Rightarrow> Instance) \<Rightarrow> Instance \<Rightarrow> Instance" where
  "stamp now fn i = (fn i)\<lparr>LastUpdated := Some now\<rparr>"

definition update_pre :: "string \<Rightarrow> (Instance \<Rightarrow> Instance) \<Rightarrow> desiredStateStore \<Rightarrow> bool" where
  "update_pre k fn s \<longleftrightarrow>
     index_inv s \<and>
     (\<forall>i. GetByIntentID s k = Some i \<longrightarrow>
        mutation_ok fn i \<and>
        (\<forall>j. GetByVAppHREF s (ID (fn i)) = Some j \<longrightarrow> IntentID j = k))"

lemma update_preD: "update_pre k fn s \<Longrightarrow> astore_pre (OpUpdateInstance now k fn) (abs_store s)"
  by (auto simp: update_pre_def split: option.splits)

interpretation update: pointwise_op GetByIntentID "update_pre target fn" "UpdateInstance now target fn"
    "\<lambda>s k. k = target" "stamp now fn"
  for now target fn
proof
  fix s k assume pre: "update_pre target fn s"
  then have inv: "index_inv s" by (simp add: update_pre_def)
  have eq: "GetByIntentID (UpdateInstance now target fn s) k = ains (a_update now target fn (abs_store s)) k"
    using GetByIntentID_refined [OF UpdateInstance_refines(2) [OF inv update_preD [OF pre]], of now k] by simp
  show "GetByIntentID (UpdateInstance now target fn s) k =
      (if k = target then map_option (stamp now fn) (GetByIntentID s k) else GetByIntentID s k)"
  proof (cases "GetByIntentID s target")
    case None
    then show ?thesis by (simp add: eq a_update_def)
  next
    case (Some i)
    then have "map_option IntentID (GetByVAppHREF s (ID (fn i))) \<in> {None, Some target}"
      using pre by (cases "GetByVAppHREF s (ID (fn i))") (simp_all add: update_pre_def)
    then show ?thesis
      using Some by (auto simp: eq a_update_def a_set_def Let_def stamp_def)
  qed
qed

lemma UpdateInstance_inv [inv_intros]: "update_pre k fn s \<Longrightarrow> index_inv (UpdateInstance now k fn s)"
  using UpdateInstance_refines(1) [OF conjunct1 [OF iffD1 [OF update_pre_def]] update_preD] by blast

lemmas store_inv_intros [inv_intros] =
  MarkForDeletion_refines(1) MarkGC_refines(1) UpdateFromVCD_refines(1) MarkDisappeared_refines(1)
  Prune_refines(1)

section \<open>Operations that add or remove instances\<close>

lemma GetByIntentID_AddCreateIntent:
  assumes "index_inv s" and "GetByIntentID s k = None"
  shows "GetByIntentID (AddCreateIntent now k s) =
           (GetByIntentID s)(k \<mapsto> Instance0\<lparr>IntentID := k, Phase := PhasePendingCreate, CreatedAt := Some now\<rparr>)"
  using GetByIntentID_refined [OF AddCreateIntent_refines(2) [OF assms]] by (auto simp: a_set_def)

text \<open>Under the invariant the HREF index is the inverse of the \<^verbatim>\<open>ID\<close> field.\<close>

lemma GetByVAppHREF_iff:
  assumes inv: "index_inv s"
  shows "GetByVAppHREF s h = Some i \<longleftrightarrow> h \<noteq> [] \<and> ID i = h \<and> GetByIntentID s (IntentID i) = Some i"
proof
  assume "GetByVAppHREF s h = Some i"
  then obtain a where "map_of (byVAppHREF s) h = Some a" "i = heap s ! a"
    by (auto simp: GetByVAppHREF_def)
  then show "h \<noteq> [] \<and> ID i = h \<and> GetByIntentID s (IntentID i) = Some i"
    using index_inv_href [OF inv, of h a] by (simp add: GetByIntentID_def)
next
  assume R: "h \<noteq> [] \<and> ID i = h \<and> GetByIntentID s (IntentID i) = Some i"
  then obtain a where a: "map_of (instances s) (IntentID i) = Some a" "heap s ! a = i"
    by (auto simp: GetByIntentID_def)
  then have "map_of (byVAppHREF s) h = Some a"
    using R index_inv_instances(3) [OF inv a(1)] by simp
  then show "GetByVAppHREF s h = Some i"
    using a(2) by (simp add: GetByVAppHREF_def)
qed

lemma GetByIntentID_key: "index_inv s \<Longrightarrow> GetByIntentID s k = Some i \<Longrightarrow> IntentID i = k"
  using index_inv_instances(2) by (auto simp: GetByIntentID_def)

lemma ID_unique:
  assumes "index_inv s" and "GetByIntentID s k = Some i" and "GetByIntentID s k' = Some i'"
    and "ID i = ID i'" and "ID i \<noteq> []"
  shows "k = k'"
  using assms GetByVAppHREF_iff [OF assms(1), of "ID i"] GetByIntentID_key [OF assms(1)]
  by (metis option.inject)

lemma AddLeftover_tracked:
  "GetByVAppHREF s h = Some i \<Longrightarrow> AddLeftover now h n s = (False, s)"
  by (auto simp: AddLeftover_def GetByVAppHREF_def)

lemma GetByIntentID_AddLeftover:
  assumes "index_inv s" and "h \<noteq> []" and "GetByVAppHREF s h = None" and "GetByIntentID s h = None"
  shows "GetByIntentID (snd (AddLeftover now h n s)) = (GetByIntentID s)(h \<mapsto> leftover_inst now h n)"
  using assms GetByIntentID_refined [OF AddLeftover_refines(2), of s now h n]
  by (auto simp: a_add_def)

lemma AddLeftover_inv [inv_intros]:
  assumes "index_inv s" and "h \<noteq> []" and "GetByVAppHREF s h = None \<Longrightarrow> GetByIntentID s h = None"
  shows "index_inv (snd (AddLeftover now h n s))"
  using assms by (intro AddLeftover_refines(1)) auto

lemma GetByIntentID_Prune:
  assumes "index_inv s"
  shows "GetByIntentID (Prune now s) k =
           (case GetByIntentID s k of
              None \<Rightarrow> None
            | Some i \<Rightarrow> if prunable (now - pruneAfter) i then None else Some i)"
  using GetByIntentID_refined [OF Prune_refines(2) [OF assms], of now k]
  by (auto simp: Let_def split: option.splits)

section \<open>Lists and counts\<close>

lemma GetAll_iff:
  assumes "index_inv s"
  shows "i \<in> set (GetAll s) \<longleftrightarrow> GetByIntentID s (IntentID i) = Some i"
proof
  assume "i \<in> set (GetAll s)"
  then obtain k a where "(k, a) \<in> set (instances s)" "i = heap s ! a" by (auto simp: GetAll_def)
  then have "map_of (instances s) k = Some a" "i = heap s ! a"
    using index_inv_distinct(1) [OF assms] by (auto simp: map_of_iff_mem)
  then show "GetByIntentID s (IntentID i) = Some i"
    using index_inv_instances(2) [OF assms, of k a] by (simp add: GetByIntentID_def)
next
  assume "GetByIntentID s (IntentID i) = Some i"
  then show "i \<in> set (GetAll s)"
    by (force simp: GetByIntentID_def GetAll_def dest: map_of_SomeD)
qed

lemma GetAll_intents:
  assumes "index_inv s"
  shows "map IntentID (GetAll s) = keys (instances s)"
proof -
  have "IntentID (heap s ! a) = k" if "(k, a) \<in> set (instances s)" for k a
    using that assms index_inv_instances(2) [OF assms, of k a] index_inv_distinct(1) [OF assms]
    by (simp add: map_of_iff_mem)
  then show ?thesis by (auto simp: GetAll_def)
qed

lemma GetAll_distinct: "index_inv s \<Longrightarrow> distinct (map IntentID (GetAll s))"
  by (simp add: GetAll_intents index_inv_distinct)

lemma fold_count:
  "fold (\<lambda>x count. if P x then count + 1 else count) xs (n :: nat) = n + length (filter P xs)"
  by (induction xs arbitrary: n) simp_all

lemma LeftoverCount_eq:
  "LeftoverCount s = length (filter (\<lambda>i. Leftover i \<and> Phase i \<noteq> PhaseDeleted) (GetAll s))"
  unfolding LeftoverCount_def GetAll_def Let_def
  using fold_count [of "\<lambda>(k, a). Leftover (heap s ! a) \<and> Phase (heap s ! a) \<noteq> PhaseDeleted" "instances s" 0]
  by (simp add: filter_map o_def split_def)

lemma Size_eq: "Size s = length (filter (\<lambda>i. Phase i \<noteq> PhaseDeleted) (GetAll s))"
  unfolding Size_def GetAll_def
  using fold_count [of "\<lambda>(k, a). Phase (heap s ! a) \<noteq> PhaseDeleted" "instances s" 0]
  by (simp add: filter_map o_def split_def)

section \<open>The lifecycle invariant of an instance\<close>

definition doomed :: "Instance \<Rightarrow> bool" where
  "doomed i \<longleftrightarrow> DeleteRequestedAt i \<noteq> None \<and> ID i \<noteq> [] \<and>
     Phase i \<in> {PhasePendingDelete, PhaseDeleting, PhaseDeleted}"

definition inst_ok :: "Instance \<Rightarrow> bool" where
  "inst_ok i \<longleftrightarrow>
     (Phase i \<in> {PhasePendingCreate, PhaseCreating} \<longrightarrow> ID i = [] \<and> CreatedAt i \<noteq> None) \<and>
     (Phase i = PhaseCreating \<longrightarrow> CreateStartedAt i \<noteq> None) \<and>
     (Phase i = PhaseRunning \<longrightarrow> ID i \<noteq> [] \<and> CreatedAt i \<noteq> None \<and> CreateCompletedAt i \<noteq> None) \<and>
     (Phase i \<in> {PhasePendingDelete, PhaseDeleting} \<longrightarrow> doomed i) \<and>
     (Phase i = PhaseDeleting \<longrightarrow> DeleteStartedAt i \<noteq> None) \<and>
     (Phase i = PhaseDeleted \<longrightarrow> ID i \<noteq> [] \<and> DeleteCompletedAt i \<noteq> None) \<and>
     (CreatedAt i = None \<longleftrightarrow> Leftover i) \<and>
     (Leftover i \<longrightarrow> ID i = IntentID i)"

lemma inst_ok_new_intent:
  "inst_ok (Instance0\<lparr>IntentID := k, Phase := PhasePendingCreate, CreatedAt := Some now\<rparr>)"
  by (simp add: inst_ok_def)

lemma inst_ok_leftover: "h \<noteq> [] \<Longrightarrow> inst_ok (leftover_inst now h n)"
  by (simp add: inst_ok_def leftover_inst_def doomed_def)

lemma inst_ok_pending_delete: "inst_ok i \<Longrightarrow> inst_ok (pending_delete now i)"
  by (auto simp: inst_ok_def pending_delete_def doomed_def)

lemma inst_ok_gc_delete: "inst_ok i \<Longrightarrow> inst_ok (gc_delete now i)"
  by (auto simp: inst_ok_def gc_delete_def doomed_def)

lemma inst_ok_observed: "inst_ok i \<Longrightarrow> inst_ok (observed now n v ip vas vs os i)"
  by (auto simp: inst_ok_def observed_def doomed_def)

lemma inst_ok_disappear: "inst_ok i \<Longrightarrow> inst_ok (MarkDisappeared_body now known i)"
  by (cases "Phase i") (auto simp: inst_ok_def MarkDisappeared_body_def doomed_def Let_def)

lemmas inst_ok_intros =
  inst_ok_new_intent inst_ok_leftover inst_ok_pending_delete inst_ok_gc_delete inst_ok_observed
  inst_ok_disappear

end
