(* ===== verification/Store_Props.thy ===== *)
theory Store_Props
  imports Lifecycle
begin

text \<open>
  The properties of the store on its own: it implements the abstract store for every sequence of
  calls, its two indexes always agree, and the exact effect of the operations that decide when an
  instance is deleted, declared gone and forgotten.
\<close>

section \<open>Shared lemmas\<close>

abbreviation empty_astore :: astore where
  "empty_astore \<equiv> \<lparr>ains = Map.empty, ahref = Map.empty\<rparr>"

lemma abs_store_new [simp]: "abs_store (newDesiredStateStore g) = empty_astore"
  by (simp add: abs_store_def newDesiredStateStore_def GetByIntentID_def GetByVAppHREF_def fun_eq_iff)

lemma run_from_new:
  assumes "all_pre astore_pre astore_exec ops empty_astore"
  shows "index_inv (fold store_exec ops (newDesiredStateStore g))"
    and "abs_store (fold store_exec ops (newDesiredStateStore g)) = fold astore_exec ops empty_astore"
  using store_sim.run [of "newDesiredStateStore g" ops] assms by simp_all

text \<open>Phases in which \<^verbatim>\<open>MarkDisappeared\<close> counts misses.\<close>

definition miss_countable :: "Instance \<Rightarrow> bool" where
  "miss_countable i \<longleftrightarrow> ID i \<noteq> [] \<and> Phase i \<in> {PhaseRunning, PhasePendingDelete, PhaseDeleting}"

definition misses :: "string \<Rightarrow> (time \<times> string list) list \<Rightarrow> nat" where
  "misses h polls = length (filter (\<lambda>(now, known). h \<notin> set known) polls)"

definition disappear_polls :: "(time \<times> string list) list \<Rightarrow> Instance \<Rightarrow> Instance" where
  "disappear_polls polls i = fold (\<lambda>(now, known). MarkDisappeared_body now known) polls i"

lemma disappear_polls_Deleted:
  "Phase i = PhaseDeleted \<Longrightarrow> disappear_polls polls i = i"
  by (induction polls) (auto simp: disappear_polls_def MarkDisappeared_body_def)

lemma disappear_body_countable:
  assumes "miss_countable i" and "MissedPolls i < 3"
  shows "MarkDisappeared_body now known i =
           (if ID i \<in> set known then i
            else if MissedPolls i = 2
            then i\<lparr>MissedPolls := 3, Phase := PhaseDeleted, DeleteCompletedAt := Some now, LastUpdated := Some now\<rparr>
            else i\<lparr>MissedPolls := MissedPolls i + 1\<rparr>)"
proof -
  have ph: "ID i \<noteq> []" "Phase i \<noteq> PhaseDeleted" "\<not> (Phase i = PhasePendingCreate \<or> Phase i = PhaseCreating)"
    using assms(1) unfolding miss_countable_def by auto
  have "3 \<le> MissedPolls i + 1 \<longleftrightarrow> MissedPolls i = 2" using assms(2) by linarith
  then show ?thesis
    unfolding MarkDisappeared_body_def Let_def missedPollsBeforeDisappeared_def using ph by simp
qed

lemma disappear_polls_countable:
  assumes "miss_countable i" and "MissedPolls i < 3"
  shows "Phase (disappear_polls polls i) =
           (if 3 \<le> MissedPolls i + int (misses (ID i) polls) then PhaseDeleted else Phase i)"
  using assms
proof (induction polls arbitrary: i)
  case Nil
  then show ?case by (simp add: disappear_polls_def misses_def)
next
  case (Cons p polls)
  obtain now known where p: "p = (now, known)" by fastforce
  let ?j = "MarkDisappeared_body now known i"
  have unfold: "disappear_polls ((now, known) # polls) i = disappear_polls polls ?j"
    by (simp add: disappear_polls_def)
  note body = disappear_body_countable [OF Cons.prems, of now known]
  consider (seen) "ID i \<in> set known" | (third) "ID i \<notin> set known" "MissedPolls i = 2"
    | (miss) "ID i \<notin> set known" "MissedPolls i < 2"
    using Cons.prems(2) by linarith
  then show ?case
  proof cases
    case seen
    then show ?thesis using Cons.IH [OF Cons.prems] by (simp add: unfold body misses_def p)
  next
    case third
    then show ?thesis by (simp add: unfold body misses_def p disappear_polls_Deleted)
  next
    case miss
    then have "miss_countable ?j" "MissedPolls ?j < 3" "MissedPolls ?j = MissedPolls i + 1"
      "ID ?j = ID i" "Phase ?j = Phase i"
      using Cons.prems(1) by (simp_all add: body miss_countable_def)
    then show ?thesis using Cons.IH [of ?j] miss by (simp add: unfold misses_def p)
  qed
qed

lemma MarkDisappeared_polls:
  assumes "index_inv s"
  shows "index_inv (fold (\<lambda>(now, known). MarkDisappeared now known) polls s)"
    and "GetByIntentID (fold (\<lambda>(now, known). MarkDisappeared now known) polls s) k =
           map_option (disappear_polls polls) (GetByIntentID s k)"
  using assms
proof (induction polls arbitrary: s)
  case Nil
  { case 1 then show ?case by simp }
  { case 2 then show ?case by (simp add: disappear_polls_def option.map_ident) }
next
  case (Cons p polls)
  obtain now known where p: "p = (now, known)" by fastforce
  { case 1 then show ?case using Cons.IH(1) by (simp add: p MarkDisappeared_refines(1)) }
  { case 2
    then show ?case
      using Cons.IH(2) [of "MarkDisappeared now known s"]
      by (simp add: p MarkDisappeared_refines(1) disappear.get_op option.map_comp o_def disappear_polls_def) }
qed

lemma a_find_tracked:
  assumes inv: "index_inv s" and i: "GetByIntentID s k = Some i"
  shows "a_find (abs_store s) target = Some k \<longleftrightarrow>
           k = target \<or> GetByIntentID s target = None \<and> ID i = target \<and> target \<noteq> []"
proof (cases "GetByIntentID s target")
  case None
  have "(\<exists>j. GetByVAppHREF s target = Some j \<and> IntentID j = k) \<longleftrightarrow> ID i = target \<and> target \<noteq> []"
    using i GetByIntentID_key [OF inv i] by (metis GetByVAppHREF_iff [OF inv] option.inject)
  then show ?thesis using None i by (auto simp: a_find_def)
next
  case (Some j)
  then show ?thesis by (auto simp: a_find_def)
qed

lemma MarkForDeletion_lookup:
  assumes inv: "index_inv s"
  shows "GetByIntentID (MarkForDeletion now target s) k =
           (case GetByIntentID s k of
              None \<Rightarrow> None
            | Some i \<Rightarrow>
                Some (if k = target \<or> GetByIntentID s target = None \<and> ID i = target \<and> target \<noteq> []
                      then pending_delete now i else i))"
  using mark_deletion.get_op [OF inv, of now target k] a_find_tracked [OF inv, of k]
  by (cases "GetByIntentID s k") auto

lemma Prune_lookup:
  assumes "index_inv s"
  shows "GetByIntentID (Prune now s) k = Some i \<longleftrightarrow>
           GetByIntentID s k = Some i \<and> \<not> prunable (now - pruneAfter) i"
  using assms by (auto simp: GetByIntentID_Prune split: option.splits)

lemma phase_counts_sum:
  "length xs = (\<Sum>p\<leftarrow>[PhasePendingCreate, PhaseCreating, PhaseRunning, PhasePendingDelete, PhaseDeleting, PhaseDeleted].
     length (filter (\<lambda>i. Phase i = p) xs))"
proof (induction xs)
  case (Cons i xs)
  then show ?case by (cases "Phase i") simp_all
qed simp

lemma filter_complement: "length (filter P xs) + length (filter (\<lambda>x. \<not> P x) xs) = length xs"
  by (induction xs) simp_all

section \<open>Properties\<close>

text \<open>
  C12: the store implements its specification. Whatever sequence of calls the program makes (new
  intents under fresh IDs, discovered HREFs that are no intent ID, mutations that assign an HREF
  once), the pointer structure with its two maps stays consistent and denotes the abstract store
  that the same calls give.
\<close>

theorem store_refines_abstract:
  assumes "all_pre astore_pre astore_exec ops empty_astore"
  shows "index_inv (fold store_exec ops (newDesiredStateStore g)) \<and>
         abs_store (fold store_exec ops (newDesiredStateStore g)) = fold astore_exec ops empty_astore"
  using run_from_new [OF assms] by blast

definition demo_ops :: "store_op list" where
  "demo_ops =
     [OpAddCreateIntent 1 ''a'', OpAddLeftover 2 ''h1'' ''old'',
      OpUpdateInstance 3 ''a'' (\<lambda>i. i\<lparr>Phase := PhaseRunning, ID := ''h2''\<rparr>),
      OpMarkForDeletion 4 ''h2'', OpMarkDisappeared 5 [''h2'']]"

lemma demo_ops_pre: "all_pre astore_pre astore_exec demo_ops empty_astore"
  by (simp add: demo_ops_def mutation_ok_def a_set_def a_add_def)

theorem store_refines_abstract_witness:
  "index_inv (fold store_exec demo_ops (newDesiredStateStore ''g'')) \<and>
   abs_store (fold store_exec demo_ops (newDesiredStateStore ''g'')) = fold astore_exec demo_ops empty_astore"
  using store_refines_abstract [OF demo_ops_pre] by blast

text \<open>
  C22: after any sequence of calls the two lookups agree: an instance is found under a vApp HREF
  exactly when it carries that HREF and is tracked under its intent ID, and two tracked instances
  never carry the same HREF.
\<close>

theorem store_lookups_agree:
  assumes "all_pre astore_pre astore_exec ops empty_astore"
    and "s = fold store_exec ops (newDesiredStateStore g)"
  shows "(GetByVAppHREF s h = Some i \<longleftrightarrow> h \<noteq> [] \<and> ID i = h \<and> GetByIntentID s (IntentID i) = Some i) \<and>
         (GetByIntentID s k = Some j \<and> GetByIntentID s k' = Some j' \<and> ID j = ID j' \<and> ID j \<noteq> [] \<longrightarrow> k = k')"
proof -
  have inv: "index_inv s" using run_from_new(1) [OF assms(1)] assms(2) by simp
  show ?thesis
    by (intro conjI impI; (elim conjE)?) (rule GetByVAppHREF_iff [OF inv], rule ID_unique [OF inv])
qed

theorem store_lookups_agree_witness:
  "let s = fold store_exec demo_ops (newDesiredStateStore ''g'');
       i = heap s ! 0
   in GetByVAppHREF s ''h2'' = Some i \<and> GetByIntentID s ''a'' = Some i"
proof -
  let ?s = "fold store_exec demo_ops (newDesiredStateStore ''g'')"
  have "GetByVAppHREF ?s ''h2'' = Some (heap ?s ! 0)" by code_simp
  moreover from this have "GetByIntentID ?s (IntentID (heap ?s ! 0)) = Some (heap ?s ! 0)"
    using store_lookups_agree [OF demo_ops_pre refl, of "''g''" "''h2''" "heap ?s ! 0"] by blast
  moreover have "IntentID (heap ?s ! 0) = ''a''" by code_simp
  ultimately show ?thesis by (simp add: Let_def)
qed

text \<open>
  C23: a deletion request, by intent ID or by vApp HREF, changes the one instance it names and only
  if that instance is running; every other instance and every other phase is left alone, and asking
  again changes nothing, so the time of the first request is kept.
\<close>

theorem MarkForDeletion_effect:
  assumes "index_inv s"
  shows "GetByIntentID (MarkForDeletion now target s) k =
           (case GetByIntentID s k of
              None \<Rightarrow> None
            | Some i \<Rightarrow>
                Some (if (k = target \<or> GetByIntentID s target = None \<and> ID i = target \<and> target \<noteq> []) \<and>
                         Phase i = PhaseRunning
                      then i\<lparr>Phase := PhasePendingDelete, DeleteRequestedAt := Some now, LastUpdated := Some now\<rparr>
                      else i)) \<and>
         GetByIntentID (MarkForDeletion later target (MarkForDeletion now target s)) k =
           GetByIntentID (MarkForDeletion now target s) k"
proof (cases "GetByIntentID s k")
  case None
  then show ?thesis using assms MarkForDeletion_lookup by (simp add: store_inv_intros)
next
  case (Some i)
  then show ?thesis
    using MarkForDeletion_lookup [OF assms, of now target]
      MarkForDeletion_lookup [OF MarkForDeletion_refines(1) [OF assms], of later target now target]
    by (simp add: pending_delete_def split: option.split)
qed

theorem MarkForDeletion_effect_witness:
  "map_option Phase (GetByIntentID
     (MarkForDeletion 9 ''h2'' (fold store_exec (take 3 demo_ops) (newDesiredStateStore ''g''))) ''a'') =
   Some PhasePendingDelete"
proof -
  let ?s = "fold store_exec (take 3 demo_ops) (newDesiredStateStore ''g'')"
  have "all_pre astore_pre astore_exec (take 3 demo_ops) empty_astore"
    by (simp add: demo_ops_def mutation_ok_def a_set_def a_add_def)
  note inv = run_from_new(1) [OF this, of "''g''"]
  have "GetByIntentID ?s ''h2'' = None" by code_simp
  moreover have "GetByIntentID ?s ''a'' = Some (heap ?s ! 0)" by code_simp
  moreover have "ID (heap ?s ! 0) = ''h2''" "Phase (heap ?s ! 0) = PhaseRunning" by code_simp+
  ultimately show ?thesis using MarkForDeletion_effect [OF inv, of 9 "''h2''" "''a''"] by simp
qed



text \<open>
  C25: pruning forgets, in both indexes, exactly the instances whose deletion completed more than five
  minutes ago, and changes nothing else.
\<close>

theorem Prune_exact:
  assumes "index_inv s"
  shows "(GetByIntentID (Prune now s) k = Some i \<longleftrightarrow>
            GetByIntentID s k = Some i \<and>
            \<not> (Phase i = PhaseDeleted \<and> (\<exists>t. DeleteCompletedAt i = Some t \<and> t + 5 * minute < now))) \<and>
         (GetByVAppHREF (Prune now s) h = Some i \<longleftrightarrow>
            GetByVAppHREF s h = Some i \<and>
            \<not> (Phase i = PhaseDeleted \<and> (\<exists>t. DeleteCompletedAt i = Some t \<and> t + 5 * minute < now)))"
proof -
  have P: "prunable (now - pruneAfter) i \<longleftrightarrow>
      Phase i = PhaseDeleted \<and> (\<exists>t. DeleteCompletedAt i = Some t \<and> t + 5 * minute < now)"
    by (auto simp: prunable_def pruneAfter_def algebra_simps split: option.splits)
  show ?thesis
    unfolding P [symmetric] GetByVAppHREF_iff [OF assms] GetByVAppHREF_iff [OF Prune_refines(1) [OF assms]]
      Prune_lookup [OF assms]
    by blast
qed

theorem Prune_exact_witness:
  "GetByIntentID (Prune 300000000052 (fold store_exec (demo_ops @ [OpMarkDisappeared 50 [], OpMarkDisappeared 51 []])
     (newDesiredStateStore ''g''))) ''h1'' = None"
proof -
  let ?ops = "demo_ops @ [OpMarkDisappeared 50 [], OpMarkDisappeared 51 []]"
  let ?s = "fold store_exec ?ops (newDesiredStateStore ''g'')"
  have "all_pre astore_pre astore_exec ?ops empty_astore"
    by (simp add: demo_ops_def mutation_ok_def a_set_def a_add_def)
  note inv = run_from_new(1) [OF this, of "''g''"]
  have i: "GetByIntentID ?s ''h1'' = Some (heap ?s ! 1)" by code_simp
  have "Phase (heap ?s ! 1) = PhaseDeleted" "DeleteCompletedAt (heap ?s ! 1) = Some 51" by code_simp+
  with i have "GetByIntentID (Prune 300000000052 ?s) ''h1'' \<noteq> Some j" for j
    using Prune_exact [OF inv, of 300000000052 "''h1''" j] by (auto simp: time_consts)
  then show ?thesis by auto
qed

text \<open>
  The state gauges account for every tracked instance: over the four fleeting states they add up to
  the total, and the pool size is the total less the deleted ones.
\<close>

theorem UpdateMetrics_conserves:
  "fst (UpdateMetrics s) =
     snd (UpdateMetrics s) StateCreating + snd (UpdateMetrics s) StateRunning +
     snd (UpdateMetrics s) StateDeleting + snd (UpdateMetrics s) StateDeleted \<and>
   Size s + snd (UpdateMetrics s) StateDeleted = fst (UpdateMetrics s)"
proof -
  have total: "length (instances s) = length (GetAll s)" by (simp add: GetAll_def)
  have "Size s + phase_counts s PhaseDeleted = length (GetAll s)"
    using filter_complement [of "\<lambda>i. Phase i = PhaseDeleted" "GetAll s"] by (simp add: Size_eq phase_counts_def)
  then show ?thesis
    using phase_counts_sum [of "GetAll s"] by (simp add: UpdateMetrics_def total phase_counts_def)
qed

end
