(* ===== verification/Errors.thy ===== *)
theory Errors
  imports Prelude
begin

text \<open>
  Go errors and the four classifiers the plugin steers by: \<^verbatim>\<open>isEntityNotFoundError\<close>
  (\<^verbatim>\<open>src/vcd.go\<close>), \<^verbatim>\<open>isPermanentError\<close> (\<^verbatim>\<open>src/vcd_safe.go\<close>), \<^verbatim>\<open>isOperationLimitError\<close>
  (\<^verbatim>\<open>src/throttle.go\<close>) and \<^verbatim>\<open>isUnauthorizedError\<close> (\<^verbatim>\<open>src/session.go\<close>).
\<close>

section \<open>Error values\<close>

text \<open>
  Sentinel errors are compared by identity and carry a message; the texts of those that belong to
  other packages are not known here, so a message is part of the value. \<open>Errorf\<close> is an error with a
  formatted message and the errors it wraps, \<open>PermanentError\<close> the wrapper of \<^verbatim>\<open>backoff.Permanent\<close>.
\<close>

datatype sentinel =
    ErrorEntityNotFound
  | ContextCanceled
  | ContextDeadlineExceeded
  | errIncompletePoll
  | errTemplateNotReady
  | errUnexpectedNumberOfVMs
  | errDiskSectionNotFound
  | errCouldNotExecuteTaskRequest
  | errInstanceNotFound

datatype goerror =
    Sentinel sentinel string
  | Errorf string "goerror list"
  | PermanentError goerror

fun Error :: "goerror \<Rightarrow> string" where
  "Error (Sentinel _ msg) = msg"
| "Error (Errorf msg _) = msg"
| "Error (PermanentError e) = Error e"

fun errors_Is :: "goerror \<Rightarrow> sentinel \<Rightarrow> bool" where
  "errors_Is (Sentinel t _) target = (t = target)"
| "errors_Is (Errorf _ es) target = list_ex (\<lambda>e. errors_Is e target) es"
| "errors_Is (PermanentError e) target = errors_Is e target"

definition errors_New :: "string \<Rightarrow> goerror" where
  "errors_New msg = Errorf msg []"

section \<open>Classification\<close>

text \<open>A nil error is \<open>None\<close>.\<close>

definition isEntityNotFoundError :: "goerror option \<Rightarrow> bool" where
  "isEntityNotFoundError err =
     (case err of
        None \<Rightarrow> False
      | Some e \<Rightarrow>
          if errors_Is e ErrorEntityNotFound then True
          else (let msg = Error e in
                Contains msg ''does not exist'' \<or> Contains msg ''could not be found'' \<or> Contains msg ''[ENF]''))"

definition permanentErrorPatterns :: "string list" where
  "permanentErrorPatterns =
     [''exceed the VDC'' @ [CHR 0x27] @ ''s storage quota'',
      ''entity does not exist'',
      ''Unable to perform this action'',
      ''already exists'']"

definition isPermanentError :: "goerror option \<Rightarrow> bool" where
  "isPermanentError err =
     (case err of
        None \<Rightarrow> False
      | Some e \<Rightarrow>
          (let msg = ToLower (Error e)
           in list_ex (\<lambda>pattern. Contains msg (ToLower pattern)) permanentErrorPatterns))"

definition isOperationLimitError :: "goerror option \<Rightarrow> bool" where
  "isOperationLimitError err =
     (case err of
        None \<Rightarrow> False
      | Some e \<Rightarrow> Contains (ToLower (Error e)) ''maximum number of simultaneous operations'')"

subsection \<open>The regular expression for HTTP 401\<close>

text \<open>
  \<^verbatim>\<open>(?i)(\b401\s+Unauthorized\b|\bAPI Error:\s*401\b|\[401:|\bstatus(?: code)?[=: ]+401\b)\<close>, as a
  recogniser on the lower-case text. No alternative needs backtracking: after each repetition comes a
  character outside the repeated class. \<open>\b\<close> before and after a word character is the absence of a
  neighbouring word character.
\<close>

definition word_char :: "char \<Rightarrow> bool" where
  "word_char c \<longleftrightarrow> (let n = (of_char c :: nat) in
     (48 \<le> n \<and> n \<le> 57) \<or> (65 \<le> n \<and> n \<le> 90) \<or> (97 \<le> n \<and> n \<le> 122) \<or> n = 95)"

definition space_char :: "char \<Rightarrow> bool" where
  "space_char c \<longleftrightarrow> (of_char c :: nat) \<in> {9, 10, 12, 13, 32}"

definition at_boundary :: "string \<Rightarrow> bool" where
  "at_boundary s = (case s of [] \<Rightarrow> True | c # _ \<Rightarrow> \<not> word_char c)"

definition strip :: "string \<Rightarrow> string \<Rightarrow> string option" where
  "strip lit s = (if HasPrefix s lit then Some (drop (length lit) s) else None)"

definition ends_401 :: "string \<Rightarrow> bool" where
  "ends_401 s = (case strip ''401'' s of None \<Rightarrow> False | Some r \<Rightarrow> at_boundary r)"

definition alt_unauthorized :: "bool \<Rightarrow> string \<Rightarrow> bool" where
  "alt_unauthorized start s =
     (start \<and> (case strip ''401'' s of None \<Rightarrow> False
               | Some r \<Rightarrow> r \<noteq> [] \<and> space_char (hd r) \<and>
                   (case strip ''unauthorized'' (dropWhile space_char r) of None \<Rightarrow> False
                    | Some r' \<Rightarrow> at_boundary r')))"

definition alt_api_error :: "bool \<Rightarrow> string \<Rightarrow> bool" where
  "alt_api_error start s =
     (start \<and> (case strip ''api error:'' s of None \<Rightarrow> False | Some r \<Rightarrow> ends_401 (dropWhile space_char r)))"

definition alt_bracket :: "string \<Rightarrow> bool" where
  "alt_bracket s = HasPrefix s ''[401:''"

definition sep_char :: "char \<Rightarrow> bool" where
  "sep_char c \<longleftrightarrow> c = CHR ''='' \<or> c = CHR '':'' \<or> c = CHR '' ''"

definition sep_401 :: "string \<Rightarrow> bool" where
  "sep_401 r \<longleftrightarrow> r \<noteq> [] \<and> sep_char (hd r) \<and> ends_401 (dropWhile sep_char r)"

definition alt_status :: "bool \<Rightarrow> string \<Rightarrow> bool" where
  "alt_status start s =
     (start \<and> (case strip ''status'' s of None \<Rightarrow> False
               | Some r \<Rightarrow> sep_401 r \<or> (case strip '' code'' r of None \<Rightarrow> False | Some r' \<Rightarrow> sep_401 r')))"

fun unauthorizedStatus_from :: "bool \<Rightarrow> string \<Rightarrow> bool" where
  "unauthorizedStatus_from start [] = False"
| "unauthorizedStatus_from start (c # s) =
     (alt_unauthorized start (c # s) \<or> alt_api_error start (c # s) \<or> alt_bracket (c # s) \<or>
      alt_status start (c # s) \<or> unauthorizedStatus_from (\<not> word_char c) s)"

definition isUnauthorizedError :: "goerror option \<Rightarrow> bool" where
  "isUnauthorizedError err =
     (case err of None \<Rightarrow> False | Some e \<Rightarrow> unauthorizedStatus_from True (ToLower (Error e)))"

section \<open>Lemmas\<close>

lemma nil_is_nothing [simp]:
  "\<not> isEntityNotFoundError None" "\<not> isPermanentError None" "\<not> isOperationLimitError None"
  "\<not> isUnauthorizedError None"
  by (simp_all add: isEntityNotFoundError_def isPermanentError_def isOperationLimitError_def
      isUnauthorizedError_def)

text \<open>Wrapping an error for the retry library does not change how it is classified.\<close>

lemma PermanentError_classified [simp]:
  "isEntityNotFoundError (Some (PermanentError e)) = isEntityNotFoundError (Some e)"
  "isPermanentError (Some (PermanentError e)) = isPermanentError (Some e)"
  "isOperationLimitError (Some (PermanentError e)) = isOperationLimitError (Some e)"
  "isUnauthorizedError (Some (PermanentError e)) = isUnauthorizedError (Some e)"
  by (simp_all add: isEntityNotFoundError_def isPermanentError_def isOperationLimitError_def
      isUnauthorizedError_def)

end
