(* ===== verification/Reconciler.thy ===== *)
theory Reconciler
  imports Lifecycle Limiter Errors
begin

text \<open>
  The control loop of \<^verbatim>\<open>src/reconciler.go\<close>. Goroutines the loop starts are recorded in the state;
  what they do when the vCD work returns is \<^verbatim>\<open>doCreate\<close>, \<^verbatim>\<open>doDelete\<close> and the body of the cleanup
  goroutine. The vCD work itself enters as an argument: the answers of the \<^verbatim>\<open>vcdOps\<close> interface.

  \<open>clk n\<close> is the value of the \<open>n\<close>-th call of \<^verbatim>\<open>time.Now()\<close> a function makes; loops pass the rest of
  the readings on. Metrics and log calls are left out.
\<close>

section \<open>Configuration\<close>

record ReconcilerConfig =
  MaxConcurrentCreates :: int
  MaxConcurrentDeletes :: int
  MaxConcurrentOperations :: int
  Interval :: duration
  MaxInstanceAge :: duration
  PollReadTimeout :: duration
  CreateTimeout :: duration
  StartupCleanupTimeout :: duration

definition defaultReconcileInterval :: duration where "defaultReconcileInterval = 10 * second"
definition defaultMaxConcurrentCreates :: int where "defaultMaxConcurrentCreates = 3"
definition defaultMaxConcurrentDeletes :: int where "defaultMaxConcurrentDeletes = 5"
definition defaultMaxConcurrentOperations :: int where "defaultMaxConcurrentOperations = 4"
definition defaultCreateTimeout :: duration where "defaultCreateTimeout = 20 * minute"
definition defaultStartupCleanupTimeout :: duration where "defaultStartupCleanupTimeout = 30 * minute"
definition holdLogInterval :: duration where "holdLogInterval = minute"
definition defaultMaxInstanceAge :: duration where "defaultMaxInstanceAge = 24 * hour"
definition gcCheckEveryN :: int where "gcCheckEveryN = 360"
definition retryBaseDelay :: duration where "retryBaseDelay = 10 * second"
definition retryMaxDelay :: duration where "retryMaxDelay = 5 * minute"
definition retryMultiplier :: rat where "retryMultiplier = 2"
definition retryJitter :: rat where "retryJitter = 1 / 4"
definition circuitBreakerThreshold :: int where "circuitBreakerThreshold = 3"
definition circuitBreakerCooldown :: duration where "circuitBreakerCooldown = 5 * minute"
definition circuitBreakerMaxCooldown :: duration where "circuitBreakerMaxCooldown = 30 * minute"
definition pollReadTimeout :: duration where "pollReadTimeout = 30 * second"
definition safeCallMaxElapsedTime :: duration where "safeCallMaxElapsedTime = 5 * minute"

lemmas default_consts [time_consts] =
  defaultReconcileInterval_def defaultMaxConcurrentCreates_def defaultMaxConcurrentDeletes_def
  defaultMaxConcurrentOperations_def defaultCreateTimeout_def defaultStartupCleanupTimeout_def
  defaultMaxInstanceAge_def pollReadTimeout_def

definition withDefaults :: "ReconcilerConfig \<Rightarrow> ReconcilerConfig" where
  "withDefaults c =
     (let out = c;
          out = (if MaxConcurrentCreates out \<le> 0 then out\<lparr>MaxConcurrentCreates := defaultMaxConcurrentCreates\<rparr> else out);
          out = (if MaxConcurrentDeletes out \<le> 0 then out\<lparr>MaxConcurrentDeletes := defaultMaxConcurrentDeletes\<rparr> else out);
          out = (if MaxConcurrentOperations out \<le> 0 then out\<lparr>MaxConcurrentOperations := defaultMaxConcurrentOperations\<rparr> else out);
          out = (if Interval out \<le> 0 then out\<lparr>Interval := defaultReconcileInterval\<rparr> else out);
          out = (if MaxInstanceAge out \<le> 0 then out\<lparr>MaxInstanceAge := defaultMaxInstanceAge\<rparr> else out);
          out = (if PollReadTimeout out \<le> 0 then out\<lparr>PollReadTimeout := pollReadTimeout\<rparr> else out);
          out = (if CreateTimeout out \<le> 0 then out\<lparr>CreateTimeout := defaultCreateTimeout\<rparr> else out);
          out = (if StartupCleanupTimeout out \<le> 0 then out\<lparr>StartupCleanupTimeout := defaultStartupCleanupTimeout\<rparr> else out)
      in out)"

section \<open>State\<close>

text \<open>The snapshot published for the debug server (\<^verbatim>\<open>src/status.go\<close>); seconds are rationals.\<close>

record DebugStatus =
  LastReconcileAt :: time
  LastReconcileDurationSeconds :: rat
  LastPollError :: string
  st_StartupHold :: bool
  st_StartupPolled :: bool
  LeftoversRemaining :: nat
  LeftoversDeleting :: nat
  HoldStartedAt :: time
  HoldTimeoutSeconds :: rat
  ThrottlePausedUntil :: time
  BreakerFailures :: int
  BreakerOpenUntil :: time
  OpsLimit :: int
  CreatesInFlight :: int
  DeletesInFlight :: int

definition DebugStatus0 :: DebugStatus where
  "DebugStatus0 = \<lparr>LastReconcileAt = zero_time, LastReconcileDurationSeconds = 0, LastPollError = [],
     st_StartupHold = False, st_StartupPolled = False, LeftoversRemaining = 0, LeftoversDeleting = 0,
     HoldStartedAt = zero_time, HoldTimeoutSeconds = 0, ThrottlePausedUntil = zero_time,
     BreakerFailures = 0, BreakerOpenUntil = zero_time, OpsLimit = 0, CreatesInFlight = 0, DeletesInFlight = 0\<rparr>"

text \<open>
  The goroutines the dispatchers start and that have not finished, by how far they are. A create
  starts as \<open>GoCreate intentID\<close>; inside \<^verbatim>\<open>createInstance\<close> it chooses a vApp name and registers it in
  flight (\<open>GoCreateNamed\<close>); when it fails after that, the deferred function first queues the name for
  cleanup (\<open>GoCreateFailing\<close>) and then drops it from the names in flight (\<open>GoCreateFailed\<close>); when it
  succeeds, the store is updated before the name is dropped (\<open>GoCreateRecord\<close>). The deferred release
  of the slot runs last (\<open>GoRelease\<close>).
\<close>

datatype goroutine =
    GoCreate string
  | GoCreateNamed string string
  | GoCreateFailing string string
  | GoCreateFailed string
  | GoCreateRecord string
  | GoDelete string string
  | GoCleanup string time
  | GoRelease opKind

text \<open>
  The fields of \<^verbatim>\<open>vcdInstanceGroup\<close> that carry state, with the two name maps of the
  \<^verbatim>\<open>InstanceGroup\<close> it shares (\<^verbatim>\<open>r.ig.failedCreateCleanups\<close>, \<^verbatim>\<open>r.ig.inflightCreates\<close>).
  \<open>triggerCh\<close> says whether the one-slot channel is full.
\<close>

record ('s, 'b) vcdInstanceGroup =
  store :: desiredStateStore
  config :: ReconcilerConfig
  limiter :: "'s opLimiter"
  throttle :: "'b throttleGate"
  startupHold :: bool
  startupPolled :: bool
  lastHoldLog :: time
  status :: DebugStatus
  startedAt :: time
  backgroundDeletes :: "string list"
  consecutiveCreateFailures :: int
  circuitBreakerUntil :: time
  cbLoggedActive :: bool
  cbBackoff :: 'b
  triggerCh :: bool
  failedCreateCleanups :: "time gomap"
  inflightCreates :: "string list"
  goroutines :: "goroutine list"

definition breaker_options :: "bo_option list" where
  "breaker_options = [WithInitialInterval circuitBreakerCooldown, WithMultiplier 2,
     WithMaxInterval circuitBreakerMaxCooldown, WithRandomizationFactor (1 / 4), WithMaxElapsedTime 0]"

definition newCircuitBreakerBackOff :: "'b bo_lib \<Rightarrow> 'b" where
  "newCircuitBreakerBackOff lib = NewExponentialBackOff lib breaker_options"

definition newVCDInstanceGroup ::
    "'s sem_lib \<Rightarrow> 'b bo_lib \<Rightarrow> time \<Rightarrow> desiredStateStore \<Rightarrow> ReconcilerConfig \<Rightarrow> ('s, 'b) vcdInstanceGroup" where
  "newVCDInstanceGroup sem lib now st cfg =
     (let cfg = withDefaults cfg in
      \<lparr>store = st, config = cfg,
       limiter = newOpLimiter sem (MaxConcurrentOperations cfg) (MaxConcurrentCreates cfg) (MaxConcurrentDeletes cfg),
       throttle = newThrottleGate lib (instanceGroupName st),
       startupHold = True, startupPolled = False, lastHoldLog = zero_time, status = DebugStatus0,
       startedAt = now, backgroundDeletes = [], consecutiveCreateFailures = 0,
       circuitBreakerUntil = zero_time, cbLoggedActive = False, cbBackoff = newCircuitBreakerBackOff lib,
       triggerCh = False, failedCreateCleanups = [], inflightCreates = [], goroutines = []\<rparr>)"

section \<open>Circuit breaker and retry delay\<close>

definition recordCreateFailure ::
    "'b bo_lib \<Rightarrow> (nat \<Rightarrow> time) \<Rightarrow> ('s, 'b) vcdInstanceGroup \<Rightarrow> ('s, 'b) vcdInstanceGroup" where
  "recordCreateFailure lib clk r =
     (let r = r\<lparr>consecutiveCreateFailures := consecutiveCreateFailures r + 1\<rparr> in
      if consecutiveCreateFailures r < circuitBreakerThreshold \<or> clk 0 < circuitBreakerUntil r then r
      else (let (cooldown, b) = NextBackOff lib (cbBackoff r)
            in r\<lparr>cbBackoff := b, circuitBreakerUntil := clk 1 + cooldown, cbLoggedActive := False\<rparr>))"

definition recordCreateSuccess ::
    "'b bo_lib \<Rightarrow> ('s, 'b) vcdInstanceGroup \<Rightarrow> ('s, 'b) vcdInstanceGroup" where
  "recordCreateSuccess lib r =
     r\<lparr>consecutiveCreateFailures := 0, cbBackoff := Reset lib (cbBackoff r)\<rparr>"

definition trigger :: "('s, 'b) vcdInstanceGroup \<Rightarrow> ('s, 'b) vcdInstanceGroup" where
  "trigger r = r\<lparr>triggerCh := True\<rparr>"

definition retry_options :: "bo_option list" where
  "retry_options = [WithInitialInterval retryBaseDelay, WithMultiplier retryMultiplier,
     WithMaxInterval retryMaxDelay, WithRandomizationFactor retryJitter, WithMaxElapsedTime 0]"

text \<open>\<^verbatim>\<open>for i := 1; i < retryCount; i++ { delay = b.NextBackOff() }\<close>\<close>

fun retryDelay_loop :: "'b bo_lib \<Rightarrow> nat \<Rightarrow> duration \<Rightarrow> 'b \<Rightarrow> duration" where
  "retryDelay_loop lib 0 delay b = delay"
| "retryDelay_loop lib (Suc n) delay b =
     (let (delay, b) = NextBackOff lib b in retryDelay_loop lib n delay b)"

definition retryDelay :: "'b bo_lib \<Rightarrow> int \<Rightarrow> duration" where
  "retryDelay lib retryCount =
     (let b = NewExponentialBackOff lib retry_options;
          (delay, b) = NextBackOff lib b
      in retryDelay_loop lib (nat (retryCount - 1)) delay b)"

section \<open>Polling vCD\<close>

text \<open>What the poll reads of a vApp and of its VMs, and the answers of the \<^verbatim>\<open>vcdOps\<close> calls it makes.\<close>

record VM =
  vm_HREF :: string
  vm_Name :: string
  vm_Status :: int

record VApp =
  vapp_HREF :: string
  vapp_Name :: string
  vapp_Status :: int
  vapp_Children :: "VM list option"

record vmPollResult =
  poll_IP :: string
  poll_OSType :: string

record vcd_answers =
  VAppStatuses :: "int \<Rightarrow> string"
  listing :: "goerror + VApp list \<times> string list"
  pollVM_answer :: "string \<Rightarrow> goerror + vmPollResult option"

definition ownsVApp :: "('s, 'b) vcdInstanceGroup \<Rightarrow> string \<Rightarrow> bool" where
  "ownsVApp r name =
     (if name \<in> set (inflightCreates r) then True
      else map_of (failedCreateCleanups r) name \<noteq> None)"

definition createRecorded :: "string \<Rightarrow> ('s, 'b) vcdInstanceGroup \<Rightarrow> ('s, 'b) vcdInstanceGroup" where
  "createRecorded name r = r\<lparr>inflightCreates := removeAll name (inflightCreates r)\<rparr>"

definition hasVM :: "VApp \<Rightarrow> bool" where
  "hasVM vapp = (case vapp_Children vapp of None \<Rightarrow> False | Some vms \<Rightarrow> vms \<noteq> [])"

definition firstVM :: "VApp \<Rightarrow> VM" where
  "firstVM vapp = hd (the (vapp_Children vapp))"

text \<open>One vApp of the listing: the new store and the new value of \<^verbatim>\<open>skipVMReads\<close>.\<close>

definition pollVCD_vapp ::
    "time \<Rightarrow> vcd_answers \<Rightarrow> (string \<Rightarrow> bool) \<Rightarrow> VApp \<Rightarrow> bool \<Rightarrow> desiredStateStore \<Rightarrow> bool \<times> desiredStateStore" where
  "pollVCD_vapp now ans owns vapp skip s =
     (let href = vapp_HREF vapp; name = vapp_Name vapp;
          vappStatus = VAppStatuses ans (vapp_Status vapp)
      in case GetByVAppHREF s href of
           None \<Rightarrow> if owns name then (skip, s) else (skip, snd (AddLeftover now href name s))
         | Some inst \<Rightarrow>
             if Leftover inst \<or> \<not> hasVM vapp
             then (skip, snd (UpdateFromVCD now href name [] [] vappStatus [] [] s))
             else if skip then (skip, s)
             else (case pollVM_answer ans (vm_HREF (firstVM vapp)) of
                     Inl err \<Rightarrow> (if isEntityNotFoundError (Some err) then skip else True, s)
                   | Inr None \<Rightarrow> (if isEntityNotFoundError None then skip else True, s)
                   | Inr (Some res) \<Rightarrow>
                       (skip, snd (UpdateFromVCD now href name (vm_Name (firstVM vapp)) (poll_IP res)
                          vappStatus (VAppStatuses ans (vm_Status (firstVM vapp))) (poll_OSType res) s))))"

fun pollVCD_loop ::
    "(nat \<Rightarrow> time) \<Rightarrow> vcd_answers \<Rightarrow> (string \<Rightarrow> bool) \<Rightarrow> VApp list \<Rightarrow> bool \<Rightarrow> desiredStateStore \<Rightarrow> desiredStateStore" where
  "pollVCD_loop clk ans owns [] skip s = s"
| "pollVCD_loop clk ans owns (vapp # rest) skip s =
     (let (skip, s) = pollVCD_vapp (clk 0) ans owns vapp skip s
      in pollVCD_loop (clk \<circ> Suc) ans owns rest skip s)"

definition pollVCD ::
    "(nat \<Rightarrow> time) \<Rightarrow> vcd_answers \<Rightarrow> ('s, 'b) vcdInstanceGroup \<Rightarrow> goerror option \<times> ('s, 'b) vcdInstanceGroup" where
  "pollVCD clk ans r =
     (case listing ans of
        Inl err \<Rightarrow> (Some (Errorf (''listing instance group vApps: '' @ Error err) [err]), r)
      | Inr (vApps, unread) \<Rightarrow>
          (let knownHREFs = unread @ map vapp_HREF vApps;
               s = pollVCD_loop (clk \<circ> Suc) ans (ownsVApp r) vApps False (store r);
               s = (if knownHREFs \<noteq> [] \<or> Size s = 0 then MarkDisappeared (clk 0) knownHREFs s else s);
               r = r\<lparr>store := s\<rparr>
           in if unread \<noteq> []
              then (Some (Errorf (''incomplete poll: '' @ decimal (length unread) @ '' listed vApps could not be read'')
                            [Sentinel errIncompletePoll ''incomplete poll'']), r)
              else (None, r)))"

section \<open>Startup hold\<close>

definition leftoverProgress :: "desiredStateStore \<Rightarrow> nat \<times> nat" where
  "leftoverProgress s =
     fold (\<lambda>inst (remaining, deleting).
             if \<not> Leftover inst \<or> Phase inst = PhaseDeleted then (remaining, deleting)
             else (remaining + 1, if Phase inst = PhaseDeleting then deleting + 1 else deleting))
       (GetAll s) (0, 0)"

definition endStartupHold :: "('s, 'b) vcdInstanceGroup \<Rightarrow> ('s, 'b) vcdInstanceGroup" where
  "endStartupHold r = r\<lparr>startupHold := False\<rparr>"

definition updateStartupHold ::
    "(nat \<Rightarrow> time) \<Rightarrow> bool \<Rightarrow> ('s, 'b) vcdInstanceGroup \<Rightarrow> ('s, 'b) vcdInstanceGroup" where
  "updateStartupHold clk pollOK r =
     (if \<not> startupHold r then r
      else
        (let r = (if pollOK \<and> \<not> startupPolled r
                  then r\<lparr>startupPolled := True, startedAt := clk 0, lastHoldLog := clk 0\<rparr> else r)
         in if \<not> startupPolled r
            then (if holdLogInterval \<le> time_sub (clk 1) (lastHoldLog r) then r\<lparr>lastHoldLog := clk 2\<rparr> else r)
            else
              (let (remaining, deleting) = leftoverProgress (store r);
                   elapsed = time_sub (clk 3) (startedAt r)
               in if remaining = 0 then endStartupHold r
                  else if StartupCleanupTimeout (config r) \<le> elapsed then endStartupHold r
                  else if holdLogInterval \<le> time_sub (clk 4) (lastHoldLog r) then r\<lparr>lastHoldLog := clk 5\<rparr>
                  else r)))"

section \<open>Creating\<close>

definition breaker_open :: "time \<Rightarrow> ('s, 'b) vcdInstanceGroup \<Rightarrow> bool" where
  "breaker_open now r \<longleftrightarrow>
     circuitBreakerThreshold \<le> consecutiveCreateFailures r \<and> now < circuitBreakerUntil r"

text \<open>One pending intent: \<open>False\<close> means the loop breaks.\<close>

definition dispatchCreates_body ::
    "'s sem_lib \<Rightarrow> (nat \<Rightarrow> time) \<Rightarrow> Instance \<Rightarrow> ('s, 'b) vcdInstanceGroup \<Rightarrow> bool \<times> ('s, 'b) vcdInstanceGroup" where
  "dispatchCreates_body sem clk inst r =
     (let intentID = IntentID inst in
      case tryAcquire sem (clk 0) (Some (throttle r)) opCreate (limiter r) of
        (False, l) \<Rightarrow> (False, r\<lparr>limiter := l\<rparr>)
      | (True, l) \<Rightarrow>
          (True, r\<lparr>limiter := l,
                   store := UpdateInstance (clk 2) intentID
                     (\<lambda>inst. inst\<lparr>Phase := PhaseCreating, CreateStartedAt := Some (clk 1)\<rparr>) (store r),
                   goroutines := goroutines r @ [GoCreate intentID]\<rparr>))"

fun dispatchCreates_loop ::
    "'s sem_lib \<Rightarrow> (nat \<Rightarrow> time) \<Rightarrow> Instance list \<Rightarrow> ('s, 'b) vcdInstanceGroup \<Rightarrow> ('s, 'b) vcdInstanceGroup" where
  "dispatchCreates_loop sem clk [] r = r"
| "dispatchCreates_loop sem clk (inst # rest) r =
     (case dispatchCreates_body sem clk inst r of
        (False, r) \<Rightarrow> r
      | (True, r) \<Rightarrow> dispatchCreates_loop sem (\<lambda>n. clk (n + 3)) rest r)"

definition dispatchCreates ::
    "'s sem_lib \<Rightarrow> (nat \<Rightarrow> time) \<Rightarrow> ('s, 'b) vcdInstanceGroup \<Rightarrow> ('s, 'b) vcdInstanceGroup" where
  "dispatchCreates sem clk r =
     (if startupHold r then r
      else if breaker_open (clk 0) r then r\<lparr>cbLoggedActive := True\<rparr>
      else dispatchCreates_loop sem (\<lambda>n. clk (n + 2)) (GetPendingCreates (clk 1) (store r)) r)"

record createResult =
  VAppHREF :: string
  VAppName :: string
  res_VMName :: string
  res_IPAddress :: string
  res_OSType :: string

definition create_failed :: "'b bo_lib \<Rightarrow> time \<Rightarrow> string \<Rightarrow> Instance \<Rightarrow> Instance" where
  "create_failed lib now msg inst =
     (let inst = inst\<lparr>Phase := PhasePendingCreate, CreateStartedAt := None,
                      RetryCount := RetryCount inst + 1, LastError := msg\<rparr>
      in inst\<lparr>NextRetryAfter := Some (now + retryDelay lib (RetryCount inst))\<rparr>)"

definition create_succeeded :: "time \<Rightarrow> createResult \<Rightarrow> Instance \<Rightarrow> Instance" where
  "create_succeeded now res inst =
     inst\<lparr>Phase := PhaseRunning, CreateCompletedAt := Some now, ID := VAppHREF res,
          Name := VAppName res, VMName := res_VMName res, IPAddress := res_IPAddress res,
          OSType := res_OSType res, LastError := [], NextRetryAfter := None\<rparr>"

text \<open>
  The part of \<^verbatim>\<open>doCreate\<close> after \<^verbatim>\<open>createInstance\<close> returned \<open>result\<close>: accounting and the store
  update, and then, on success, the release of the name.
\<close>

definition doCreate_update ::
    "'b bo_lib \<Rightarrow> (nat \<Rightarrow> time) \<Rightarrow> goerror + createResult \<Rightarrow> string
     \<Rightarrow> ('s, 'b) vcdInstanceGroup \<Rightarrow> ('s, 'b) vcdInstanceGroup" where
  "doCreate_update lib clk result intentID r =
     (case result of
        Inl err \<Rightarrow>
          (let r = recordCreateFailure lib clk r
           in r\<lparr>store := UpdateInstance (clk 3) intentID (create_failed lib (clk 2) (Error err)) (store r)\<rparr>)
      | Inr res \<Rightarrow>
          (let r = recordCreateSuccess lib r;
               r = r\<lparr>throttle := the (succeeded lib (Some (throttle r)))\<rparr>
           in r\<lparr>store := UpdateInstance (clk 3) intentID (create_succeeded (clk 2) res) (store r)\<rparr>))"

definition doCreate ::
    "'b bo_lib \<Rightarrow> (nat \<Rightarrow> time) \<Rightarrow> goerror + createResult \<Rightarrow> string
     \<Rightarrow> ('s, 'b) vcdInstanceGroup \<Rightarrow> ('s, 'b) vcdInstanceGroup" where
  "doCreate lib clk result intentID r =
     (let r = doCreate_update lib clk result intentID r
      in case result of Inl err \<Rightarrow> r | Inr res \<Rightarrow> createRecorded (VAppName res) r)"

section \<open>Deleting\<close>

definition dispatchDeletes_body ::
    "'s sem_lib \<Rightarrow> (nat \<Rightarrow> time) \<Rightarrow> Instance \<Rightarrow> ('s, 'b) vcdInstanceGroup \<Rightarrow> bool \<times> ('s, 'b) vcdInstanceGroup" where
  "dispatchDeletes_body sem clk inst r =
     (let intentID = IntentID inst; href = ID inst in
      if href = [] then
        (True, r\<lparr>store := UpdateInstance (clk 2) intentID
                   (\<lambda>inst. inst\<lparr>Phase := PhaseDeleted, DeleteCompletedAt := Some (clk 1)\<rparr>) (store r)\<rparr>)
      else
        (case tryAcquire sem (clk 0) (Some (throttle r)) opDelete (limiter r) of
           (False, l) \<Rightarrow> (False, r\<lparr>limiter := l\<rparr>)
         | (True, l) \<Rightarrow>
             (True, r\<lparr>limiter := l,
                      store := UpdateInstance (clk 2) intentID
                        (\<lambda>inst. inst\<lparr>Phase := PhaseDeleting, DeleteStartedAt := Some (clk 1)\<rparr>) (store r),
                      goroutines := goroutines r @ [GoDelete intentID href]\<rparr>)))"

fun dispatchDeletes_loop ::
    "'s sem_lib \<Rightarrow> (nat \<Rightarrow> time) \<Rightarrow> Instance list \<Rightarrow> ('s, 'b) vcdInstanceGroup \<Rightarrow> ('s, 'b) vcdInstanceGroup" where
  "dispatchDeletes_loop sem clk [] r = r"
| "dispatchDeletes_loop sem clk (inst # rest) r =
     (case dispatchDeletes_body sem clk inst r of
        (False, r) \<Rightarrow> r
      | (True, r) \<Rightarrow> dispatchDeletes_loop sem (\<lambda>n. clk (n + 3)) rest r)"

definition dispatchDeletes ::
    "'s sem_lib \<Rightarrow> (nat \<Rightarrow> time) \<Rightarrow> ('s, 'b) vcdInstanceGroup \<Rightarrow> ('s, 'b) vcdInstanceGroup" where
  "dispatchDeletes sem clk r =
     dispatchDeletes_loop sem (clk \<circ> Suc) (GetPendingDeletes (clk 0) (store r)) r"

definition delete_failed :: "'b bo_lib \<Rightarrow> time \<Rightarrow> string \<Rightarrow> Instance \<Rightarrow> Instance" where
  "delete_failed lib now msg inst =
     (let inst = inst\<lparr>Phase := PhasePendingDelete, DeleteStartedAt := None,
                      RetryCount := RetryCount inst + 1, LastError := msg\<rparr>
      in inst\<lparr>NextRetryAfter := Some (now + retryDelay lib (RetryCount inst))\<rparr>)"

definition delete_succeeded :: "time \<Rightarrow> Instance \<Rightarrow> Instance" where
  "delete_succeeded now inst =
     inst\<lparr>Phase := PhaseDeleted, DeleteCompletedAt := Some now, LastError := [], NextRetryAfter := None\<rparr>"

text \<open>The part of \<^verbatim>\<open>doDelete\<close> after \<^verbatim>\<open>deleteInstance\<close> returned \<open>err\<close>.\<close>

definition doDelete ::
    "'b bo_lib \<Rightarrow> (nat \<Rightarrow> time) \<Rightarrow> goerror option \<Rightarrow> string \<Rightarrow> ('s, 'b) vcdInstanceGroup \<Rightarrow> ('s, 'b) vcdInstanceGroup" where
  "doDelete lib clk err intentID r =
     (case err of
        Some e \<Rightarrow>
          r\<lparr>store := UpdateInstance (clk 1) intentID (delete_failed lib (clk 0) (Error e)) (store r)\<rparr>
      | None \<Rightarrow>
          (let r = r\<lparr>throttle := the (succeeded lib (Some (throttle r)))\<rparr>
           in r\<lparr>store := UpdateInstance (clk 1) intentID (delete_succeeded (clk 0)) (store r)\<rparr>))"

section \<open>Cleaning up failed creates\<close>

definition cleanupKey :: "string \<Rightarrow> string" where
  "cleanupKey name = ''create:'' @ name"

text \<open>One entry of \<^verbatim>\<open>failedCreateCleanups\<close>: \<open>False\<close> ends the range.\<close>

definition dispatchCreateCleanups_body ::
    "'s sem_lib \<Rightarrow> time \<Rightarrow> string \<times> time \<Rightarrow> ('s, 'b) vcdInstanceGroup \<Rightarrow> bool \<times> ('s, 'b) vcdInstanceGroup" where
  "dispatchCreateCleanups_body sem now entry r =
     (let name = fst entry; requestedAt = snd entry; key = cleanupKey name in
      if key \<in> set (backgroundDeletes r) then (True, r)
      else
        (let r = r\<lparr>backgroundDeletes := key # backgroundDeletes r\<rparr> in
         case tryAcquire sem now (Some (throttle r)) opDelete (limiter r) of
           (False, l) \<Rightarrow> (False, r\<lparr>limiter := l, backgroundDeletes := removeAll key (backgroundDeletes r)\<rparr>)
         | (True, l) \<Rightarrow> (True, r\<lparr>limiter := l, goroutines := goroutines r @ [GoCleanup name requestedAt]\<rparr>)))"

fun dispatchCreateCleanups_loop ::
    "'s sem_lib \<Rightarrow> (nat \<Rightarrow> time) \<Rightarrow> (string \<times> time) list \<Rightarrow> ('s, 'b) vcdInstanceGroup \<Rightarrow> ('s, 'b) vcdInstanceGroup" where
  "dispatchCreateCleanups_loop sem clk [] r = r"
| "dispatchCreateCleanups_loop sem clk (e # rest) r =
     (case dispatchCreateCleanups_body sem (clk 0) e r of
        (False, r) \<Rightarrow> r
      | (True, r) \<Rightarrow> dispatchCreateCleanups_loop sem (clk \<circ> Suc) rest r)"

definition dispatchCreateCleanups ::
    "'s sem_lib \<Rightarrow> (nat \<Rightarrow> time) \<Rightarrow> ('s, 'b) vcdInstanceGroup \<Rightarrow> ('s, 'b) vcdInstanceGroup" where
  "dispatchCreateCleanups sem clk r = dispatchCreateCleanups_loop sem clk (failedCreateCleanups r) r"

text \<open>
  The cleanup goroutine after \<^verbatim>\<open>cleanUpInstanceByName\<close> returned \<open>err\<close> (or panicked, which is
  recovered and leaves the name queued): the deferred calls run last.
\<close>

datatype cleanup_outcome = CleanupReturned "goerror option" | CleanupPanicked

definition cleanup_done :: "time \<Rightarrow> time \<Rightarrow> goerror option \<Rightarrow> bool" where
  "cleanup_done now requestedAt err =
     (case err of
        None \<Rightarrow> True
      | Some e \<Rightarrow> errors_Is e ErrorEntityNotFound \<and> safeCallMaxElapsedTime \<le> time_sub now requestedAt)"

definition finishCleanup ::
    "'b bo_lib \<Rightarrow> time \<Rightarrow> cleanup_outcome \<Rightarrow> string \<Rightarrow> time \<Rightarrow> ('s, 'b) vcdInstanceGroup \<Rightarrow> ('s, 'b) vcdInstanceGroup" where
  "finishCleanup lib now out name requestedAt r =
     (let r = (case out of
                 CleanupPanicked \<Rightarrow> r
               | CleanupReturned err \<Rightarrow>
                   (let r = (if err = None then r\<lparr>throttle := the (succeeded lib (Some (throttle r)))\<rparr> else r)
                    in if cleanup_done now requestedAt err
                       then r\<lparr>failedCreateCleanups := AList.delete name (failedCreateCleanups r)\<rparr> else r))
      in r\<lparr>backgroundDeletes := removeAll (cleanupKey name) (backgroundDeletes r)\<rparr>)"

section \<open>Garbage collection and the cycle\<close>

fun gcCheck_loop :: "(nat \<Rightarrow> time) \<Rightarrow> Instance list \<Rightarrow> desiredStateStore \<Rightarrow> desiredStateStore" where
  "gcCheck_loop clk [] s = s"
| "gcCheck_loop clk (inst # rest) s = gcCheck_loop (clk \<circ> Suc) rest (MarkGC (clk 0) (IntentID inst) s)"

definition gcCheck :: "(nat \<Rightarrow> time) \<Rightarrow> ('s, 'b) vcdInstanceGroup \<Rightarrow> ('s, 'b) vcdInstanceGroup" where
  "gcCheck clk r =
     r\<lparr>store := gcCheck_loop (clk \<circ> Suc) (GetRunningForGC (clk 0) (MaxInstanceAge (config r)) (store r)) (store r)\<rparr>"

definition seconds_of :: "duration \<Rightarrow> rat" where
  "seconds_of d = of_int d / 1000000000"

definition publishStatus ::
    "(nat \<Rightarrow> time) \<Rightarrow> time \<Rightarrow> goerror option \<Rightarrow> ('s, 'b) vcdInstanceGroup \<Rightarrow> ('s, 'b) vcdInstanceGroup" where
  "publishStatus clk started pollErr r =
     (let st = DebugStatus0\<lparr>LastReconcileAt := clk 0,
                 LastReconcileDurationSeconds := seconds_of (time_sub (clk 1) started),
                 st_StartupHold := startupHold r, st_StartupPolled := startupPolled r,
                 HoldTimeoutSeconds := seconds_of (StartupCleanupTimeout (config r)),
                 ThrottlePausedUntil := until (clk 2) (Some (throttle r)),
                 OpsLimit := opl_size (limiter r), CreatesInFlight := createsInUse (limiter r),
                 DeletesInFlight := deletesInUse (limiter r)\<rparr>;
          st = (case pollErr of None \<Rightarrow> st | Some e \<Rightarrow> st\<lparr>LastPollError := Error e\<rparr>);
          st = (if startupHold r
                then (let (remaining, deleting) = leftoverProgress (store r);
                          st = st\<lparr>LeftoversRemaining := remaining, LeftoversDeleting := deleting\<rparr>
                      in if startupPolled r then st\<lparr>HoldStartedAt := startedAt r\<rparr> else st)
                else st);
          st = st\<lparr>BreakerFailures := consecutiveCreateFailures r\<rparr>;
          st = (if clk 3 < circuitBreakerUntil r then st\<lparr>BreakerOpenUntil := circuitBreakerUntil r\<rparr> else st)
      in r\<lparr>status := st\<rparr>)"

text \<open>
  A cycle run without interference from other goroutines. \<open>clk i n\<close> are the readings of the \<open>i\<close>-th
  call the cycle makes.
\<close>

definition reconcileOnce ::
    "'s sem_lib \<Rightarrow> (nat \<Rightarrow> nat \<Rightarrow> time) \<Rightarrow> vcd_answers \<Rightarrow> bool \<Rightarrow> ('s, 'b) vcdInstanceGroup \<Rightarrow> ('s, 'b) vcdInstanceGroup" where
  "reconcileOnce sem clk ans doGC r =
     (let startTime = clk 0 0;
          (pollErr, r) = pollVCD (clk 1) ans r;
          r = updateStartupHold (clk 2) (pollErr = None) r;
          r = dispatchCreates sem (clk 3) r;
          r = dispatchDeletes sem (clk 4) r;
          r = dispatchCreateCleanups sem (clk 5) r;
          r = (if doGC then gcCheck (clk 6) r else r);
          r = r\<lparr>store := Prune (clk 7 0) (store r)\<rparr>
      in publishStatus (clk 8) startTime pollErr r)"

section \<open>The operations fleeting calls\<close>

text \<open>\<open>ids\<close> are the results of \<^verbatim>\<open>GenerateRandomStringVMNameSafe(16)\<close>; a failed one leaves an empty string.\<close>

fun Increase_loop ::
    "(nat \<Rightarrow> time) \<Rightarrow> (goerror + string) list \<Rightarrow> desiredStateStore \<Rightarrow> string list \<times> desiredStateStore" where
  "Increase_loop clk [] s = ([], s)"
| "Increase_loop clk (Inl err # rest) s =
     (let (ids, s) = Increase_loop (clk \<circ> Suc) rest s in ([] # ids, s))"
| "Increase_loop clk (Inr intentID # rest) s =
     (let (ids, s) = Increase_loop (clk \<circ> Suc) rest (AddCreateIntent (clk 0) intentID s) in (intentID # ids, s))"

definition Increase ::
    "(nat \<Rightarrow> time) \<Rightarrow> (goerror + string) list \<Rightarrow> ('s, 'b) vcdInstanceGroup \<Rightarrow> string list \<times> ('s, 'b) vcdInstanceGroup" where
  "Increase clk gen r =
     (let (ids, s) = Increase_loop clk gen (store r) in (ids, trigger (r\<lparr>store := s\<rparr>)))"

fun Decrease_loop :: "(nat \<Rightarrow> time) \<Rightarrow> string list \<Rightarrow> desiredStateStore \<Rightarrow> desiredStateStore" where
  "Decrease_loop clk [] s = s"
| "Decrease_loop clk (k # rest) s = Decrease_loop (clk \<circ> Suc) rest (MarkForDeletion (clk 0) k s)"

definition Decrease ::
    "(nat \<Rightarrow> time) \<Rightarrow> string list \<Rightarrow> ('s, 'b) vcdInstanceGroup \<Rightarrow> ('s, 'b) vcdInstanceGroup" where
  "Decrease clk ids r = trigger (r\<lparr>store := Decrease_loop clk ids (store r)\<rparr>)"

definition Instances :: "('s, 'b) vcdInstanceGroup \<Rightarrow> Instance list" where
  "Instances r = GetAll (store r)"

definition Instance :: "('s, 'b) vcdInstanceGroup \<Rightarrow> string \<Rightarrow> Instance option" where
  "Instance r k =
     (case GetByVAppHREF (store r) k of
        Some inst \<Rightarrow> Some inst
      | None \<Rightarrow> GetByIntentID (store r) k)"

end
