(* ===== verification/System.thy ===== *)
theory System
  imports Reconciler
begin

text \<open>
  The plugin as it runs: the reconcile goroutine, the goroutines it starts, the calls fleeting makes
  and vCD itself, interleaved. Each step is one atomic action of the code: a method of the store
  (which holds the store's mutex), one access of a \<^verbatim>\<open>sync.Map\<close>, one method of the limiter or the gate.
  A cycle of the reconcile goroutine is a sequence of steps; between any two of them every
  other goroutine may run. The bodies of the steps are the operations of the theory \<open>Reconciler\<close>.
\<close>

section \<open>States\<close>

text \<open>
  Where the reconcile goroutine is in \<^verbatim>\<open>reconcileOnce\<close>. In the poll, \<open>PcPoll rest known ok\<close> is the head
  of the loop over the listed vApps, \<open>PcUpd\<close> the branch of a tracked vApp, \<open>PcOwn1\<close> and \<open>PcOwn2\<close> the
  two reads of \<^verbatim>\<open>ownsVApp\<close>, \<open>PcAdd\<close> the call of \<^verbatim>\<open>AddLeftover\<close> and \<open>PcMark\<close> that of
  \<^verbatim>\<open>MarkDisappeared\<close>. The dispatch loops carry the copies of the instances still to visit.
\<close>

datatype pc =
    PcIdle
  | PcPoll "VApp list" "string list" bool
  | PcUpd VApp "VApp list" "string list" bool
  | PcOwn1 VApp "VApp list" "string list" bool
  | PcOwn2 VApp "VApp list" "string list" bool
  | PcAdd VApp "VApp list" "string list" bool
  | PcMark "string list" bool
  | PcHold bool
  | PcCreates
  | PcCreatesLoop "Instance list"
  | PcDeletes
  | PcDeletesLoop "Instance list"
  | PcCleanups
  | PcGC
  | PcGCLoop "Instance list"
  | PcPrune

text \<open>
  \<open>vapps\<close> are the HREF and name of every vApp that ever existed in the group's vDC, \<open>used_ids\<close> the
  intent IDs and \<open>used_names\<close> the vApp names handed out so far. The steps that draw a random ID or name
  draw an unused one: this is the assumption on \<^verbatim>\<open>crypto/rand\<close> under which the plugin works.
\<close>

record ('s, 'b) system =
  rcl :: "('s, 'b) vcdInstanceGroup"
  pc :: pc
  vapps :: "(string \<times> string) list"
  used_ids :: "string list"
  used_names :: "string list"

abbreviation sys_store :: "('s, 'b) system \<Rightarrow> desiredStateStore" where
  "sys_store \<sigma> \<equiv> store (rcl \<sigma>)"

abbreviation hrefs :: "('s, 'b) system \<Rightarrow> string set" where
  "hrefs \<sigma> \<equiv> fst ` set (vapps \<sigma>)"

definition upd_store ::
    "(desiredStateStore \<Rightarrow> desiredStateStore) \<Rightarrow> ('s, 'b) system \<Rightarrow> ('s, 'b) system" where
  "upd_store f \<sigma> = \<sigma>\<lparr>rcl := (rcl \<sigma>)\<lparr>store := f (store (rcl \<sigma>))\<rparr>\<rparr>"

text \<open>One goroutine moves on: it is replaced by what it is next, or ends.\<close>

definition move :: "goroutine \<Rightarrow> goroutine list \<Rightarrow> ('s, 'b) vcdInstanceGroup \<Rightarrow> ('s, 'b) vcdInstanceGroup" where
  "move g gs r = r\<lparr>goroutines := remove1 g (goroutines r) @ gs\<rparr>"

definition sys_init ::
    "'s sem_lib \<Rightarrow> 'b bo_lib \<Rightarrow> time \<Rightarrow> string \<Rightarrow> ReconcilerConfig \<Rightarrow> (string \<times> string) list
     \<Rightarrow> ('s, 'b) system" where
  "sys_init sem lib now grp cfg existing =
     \<lparr>rcl = newVCDInstanceGroup sem lib now (newDesiredStateStore grp) cfg, pc = PcIdle,
      vapps = existing, used_ids = [], used_names = map snd existing\<rparr>"

section \<open>Steps of the reconcile goroutine\<close>

inductive cycle_step :: "'s sem_lib \<Rightarrow> ('s, 'b) system \<Rightarrow> ('s, 'b) system \<Rightarrow> bool"
  for sem :: "'s sem_lib" where
  poll_failed: "pc \<sigma> = PcIdle \<Longrightarrow> cycle_step sem \<sigma> (\<sigma>\<lparr>pc := PcHold False\<rparr>)"
| poll_listed: "pc \<sigma> = PcIdle \<Longrightarrow> (\<forall>v \<in> set vs. (vapp_HREF v, vapp_Name v) \<in> set (vapps \<sigma>)) \<Longrightarrow>
    cycle_step sem \<sigma> (\<sigma>\<lparr>pc := PcPoll vs (unread @ map vapp_HREF vs) (unread = [])\<rparr>)"
| poll_tracked: "pc \<sigma> = PcPoll (v # vs) known ok \<Longrightarrow> GetByVAppHREF (sys_store \<sigma>) (vapp_HREF v) \<noteq> None \<Longrightarrow>
    cycle_step sem \<sigma> (\<sigma>\<lparr>pc := PcUpd v vs known ok\<rparr>)"
| poll_update: "pc \<sigma> = PcUpd v vs known ok \<Longrightarrow>
    cycle_step sem \<sigma>
      (upd_store (\<lambda>s. snd (UpdateFromVCD now (vapp_HREF v) (vapp_Name v) vm ip vas vms os s)) (\<sigma>\<lparr>pc := PcPoll vs known ok\<rparr>))"
| poll_keep: "pc \<sigma> = PcUpd v vs known ok \<Longrightarrow> cycle_step sem \<sigma> (\<sigma>\<lparr>pc := PcPoll vs known ok\<rparr>)"
| poll_untracked: "pc \<sigma> = PcPoll (v # vs) known ok \<Longrightarrow> GetByVAppHREF (sys_store \<sigma>) (vapp_HREF v) = None \<Longrightarrow>
    cycle_step sem \<sigma> (\<sigma>\<lparr>pc := PcOwn1 v vs known ok\<rparr>)"
| own_inflight: "pc \<sigma> = PcOwn1 v vs known ok \<Longrightarrow> vapp_Name v \<in> set (inflightCreates (rcl \<sigma>)) \<Longrightarrow>
    cycle_step sem \<sigma> (\<sigma>\<lparr>pc := PcPoll vs known ok\<rparr>)"
| own_second: "pc \<sigma> = PcOwn1 v vs known ok \<Longrightarrow> vapp_Name v \<notin> set (inflightCreates (rcl \<sigma>)) \<Longrightarrow>
    cycle_step sem \<sigma> (\<sigma>\<lparr>pc := PcOwn2 v vs known ok\<rparr>)"
| own_failed: "pc \<sigma> = PcOwn2 v vs known ok \<Longrightarrow> map_of (failedCreateCleanups (rcl \<sigma>)) (vapp_Name v) \<noteq> None \<Longrightarrow>
    cycle_step sem \<sigma> (\<sigma>\<lparr>pc := PcPoll vs known ok\<rparr>)"
| own_not: "pc \<sigma> = PcOwn2 v vs known ok \<Longrightarrow> map_of (failedCreateCleanups (rcl \<sigma>)) (vapp_Name v) = None \<Longrightarrow>
    cycle_step sem \<sigma> (\<sigma>\<lparr>pc := PcAdd v vs known ok\<rparr>)"
| poll_add: "pc \<sigma> = PcAdd v vs known ok \<Longrightarrow>
    cycle_step sem \<sigma>
      (upd_store (\<lambda>s. snd (AddLeftover now (vapp_HREF v) (vapp_Name v) s)) (\<sigma>\<lparr>pc := PcPoll vs known ok\<rparr>))"
| poll_counts: "pc \<sigma> = PcPoll [] known ok \<Longrightarrow> known \<noteq> [] \<or> Size (sys_store \<sigma>) = 0 \<Longrightarrow>
    cycle_step sem \<sigma> (\<sigma>\<lparr>pc := PcMark known ok\<rparr>)"
| poll_empty: "pc \<sigma> = PcPoll [] known ok \<Longrightarrow> \<not> (known \<noteq> [] \<or> Size (sys_store \<sigma>) = 0) \<Longrightarrow>
    cycle_step sem \<sigma> (\<sigma>\<lparr>pc := PcHold ok\<rparr>)"
| poll_mark: "pc \<sigma> = PcMark known ok \<Longrightarrow>
    cycle_step sem \<sigma> (upd_store (MarkDisappeared now known) (\<sigma>\<lparr>pc := PcHold ok\<rparr>))"
| hold: "pc \<sigma> = PcHold ok \<Longrightarrow>
    cycle_step sem \<sigma> (\<sigma>\<lparr>rcl := updateStartupHold clk ok (rcl \<sigma>), pc := PcCreates\<rparr>)"
| creates_held: "pc \<sigma> = PcCreates \<Longrightarrow> startupHold (rcl \<sigma>) \<Longrightarrow> cycle_step sem \<sigma> (\<sigma>\<lparr>pc := PcDeletes\<rparr>)"
| creates_breaker: "pc \<sigma> = PcCreates \<Longrightarrow> \<not> startupHold (rcl \<sigma>) \<Longrightarrow> breaker_open now (rcl \<sigma>) \<Longrightarrow>
    cycle_step sem \<sigma> (\<sigma>\<lparr>rcl := (rcl \<sigma>)\<lparr>cbLoggedActive := True\<rparr>, pc := PcDeletes\<rparr>)"
| creates_list: "pc \<sigma> = PcCreates \<Longrightarrow> \<not> startupHold (rcl \<sigma>) \<Longrightarrow> \<not> breaker_open now (rcl \<sigma>) \<Longrightarrow>
    cycle_step sem \<sigma> (\<sigma>\<lparr>pc := PcCreatesLoop (GetPendingCreates now' (sys_store \<sigma>))\<rparr>)"
| creates_go: "pc \<sigma> = PcCreatesLoop (i # is) \<Longrightarrow> dispatchCreates_body sem clk i (rcl \<sigma>) = (True, r') \<Longrightarrow>
    cycle_step sem \<sigma> (\<sigma>\<lparr>rcl := r', pc := PcCreatesLoop is\<rparr>)"
| creates_stop: "pc \<sigma> = PcCreatesLoop (i # is) \<Longrightarrow> dispatchCreates_body sem clk i (rcl \<sigma>) = (False, r') \<Longrightarrow>
    cycle_step sem \<sigma> (\<sigma>\<lparr>rcl := r', pc := PcDeletes\<rparr>)"
| creates_end: "pc \<sigma> = PcCreatesLoop [] \<Longrightarrow> cycle_step sem \<sigma> (\<sigma>\<lparr>pc := PcDeletes\<rparr>)"
| deletes_list: "pc \<sigma> = PcDeletes \<Longrightarrow>
    cycle_step sem \<sigma> (\<sigma>\<lparr>pc := PcDeletesLoop (GetPendingDeletes now (sys_store \<sigma>))\<rparr>)"
| deletes_go: "pc \<sigma> = PcDeletesLoop (i # is) \<Longrightarrow> dispatchDeletes_body sem clk i (rcl \<sigma>) = (True, r') \<Longrightarrow>
    cycle_step sem \<sigma> (\<sigma>\<lparr>rcl := r', pc := PcDeletesLoop is\<rparr>)"
| deletes_stop: "pc \<sigma> = PcDeletesLoop (i # is) \<Longrightarrow> dispatchDeletes_body sem clk i (rcl \<sigma>) = (False, r') \<Longrightarrow>
    cycle_step sem \<sigma> (\<sigma>\<lparr>rcl := r', pc := PcCleanups\<rparr>)"
| deletes_end: "pc \<sigma> = PcDeletesLoop [] \<Longrightarrow> cycle_step sem \<sigma> (\<sigma>\<lparr>pc := PcCleanups\<rparr>)"
| cleanups_go: "pc \<sigma> = PcCleanups \<Longrightarrow> e \<in> set (failedCreateCleanups (rcl \<sigma>)) \<Longrightarrow>
    dispatchCreateCleanups_body sem now e (rcl \<sigma>) = (True, r') \<Longrightarrow> cycle_step sem \<sigma> (\<sigma>\<lparr>rcl := r'\<rparr>)"
| cleanups_stop: "pc \<sigma> = PcCleanups \<Longrightarrow> e \<in> set (failedCreateCleanups (rcl \<sigma>)) \<Longrightarrow>
    dispatchCreateCleanups_body sem now e (rcl \<sigma>) = (False, r') \<Longrightarrow> cycle_step sem \<sigma> (\<sigma>\<lparr>rcl := r', pc := PcGC\<rparr>)"
| cleanups_end: "pc \<sigma> = PcCleanups \<Longrightarrow> cycle_step sem \<sigma> (\<sigma>\<lparr>pc := PcGC\<rparr>)"
| gc_skip: "pc \<sigma> = PcGC \<Longrightarrow> cycle_step sem \<sigma> (\<sigma>\<lparr>pc := PcPrune\<rparr>)"
| gc_list: "pc \<sigma> = PcGC \<Longrightarrow>
    cycle_step sem \<sigma> (\<sigma>\<lparr>pc := PcGCLoop (GetRunningForGC now (MaxInstanceAge (config (rcl \<sigma>))) (sys_store \<sigma>))\<rparr>)"
| gc_mark: "pc \<sigma> = PcGCLoop (i # is) \<Longrightarrow>
    cycle_step sem \<sigma> (upd_store (MarkGC now (IntentID i)) (\<sigma>\<lparr>pc := PcGCLoop is\<rparr>))"
| gc_end: "pc \<sigma> = PcGCLoop [] \<Longrightarrow> cycle_step sem \<sigma> (\<sigma>\<lparr>pc := PcPrune\<rparr>)"
| cycle_end: "pc \<sigma> = PcPrune \<Longrightarrow>
    cycle_step sem \<sigma>
      (\<sigma>\<lparr>rcl := publishStatus clk started pollErr ((rcl \<sigma>)\<lparr>store := Prune now (sys_store \<sigma>)\<rparr>), pc := PcIdle\<rparr>)"

section \<open>Steps of the other goroutines, of fleeting and of vCD\<close>

inductive worker_step :: "'s sem_lib \<Rightarrow> 'b bo_lib \<Rightarrow> ('s, 'b) system \<Rightarrow> ('s, 'b) system \<Rightarrow> bool"
  for sem :: "'s sem_lib" and lib :: "'b bo_lib" where
  create_name: "GoCreate k \<in> set (goroutines (rcl \<sigma>)) \<Longrightarrow> n \<notin> set (used_names \<sigma>) \<Longrightarrow>
    worker_step sem lib \<sigma>
      (\<sigma>\<lparr>rcl := (move (GoCreate k) [GoCreateNamed k n] (rcl \<sigma>))\<lparr>inflightCreates := n # inflightCreates (rcl \<sigma>)\<rparr>,
         used_names := n # used_names \<sigma>\<rparr>)"
| create_unnamed_failed: "GoCreate k \<in> set (goroutines (rcl \<sigma>)) \<Longrightarrow>
    worker_step sem lib \<sigma> (\<sigma>\<lparr>rcl := move (GoCreate k) [GoCreateFailed k] (rcl \<sigma>)\<rparr>)"
| create_queue: "GoCreateNamed k n \<in> set (goroutines (rcl \<sigma>)) \<Longrightarrow>
    worker_step sem lib \<sigma>
      (\<sigma>\<lparr>rcl := (move (GoCreateNamed k n) [GoCreateFailing k n] (rcl \<sigma>))
           \<lparr>failedCreateCleanups := (case map_of (failedCreateCleanups (rcl \<sigma>)) n of
              None \<Rightarrow> AList.update n now (failedCreateCleanups (rcl \<sigma>)) | Some _ \<Rightarrow> failedCreateCleanups (rcl \<sigma>))\<rparr>\<rparr>)"
| create_disown: "GoCreateFailing k n \<in> set (goroutines (rcl \<sigma>)) \<Longrightarrow>
    worker_step sem lib \<sigma>
      (\<sigma>\<lparr>rcl := createRecorded n (move (GoCreateFailing k n) [GoCreateFailed k] (rcl \<sigma>))\<rparr>)"
| create_failed: "GoCreateFailed k \<in> set (goroutines (rcl \<sigma>)) \<Longrightarrow>
    worker_step sem lib \<sigma>
      (\<sigma>\<lparr>rcl := doCreate_update lib clk (Inl err) k (move (GoCreateFailed k) [GoRelease opCreate] (rcl \<sigma>))\<rparr>)"
| create_stored: "GoCreateNamed k n \<in> set (goroutines (rcl \<sigma>)) \<Longrightarrow> VAppName res = n \<Longrightarrow>
    (VAppHREF res, n) \<in> set (vapps \<sigma>) \<Longrightarrow>
    worker_step sem lib \<sigma>
      (\<sigma>\<lparr>rcl := doCreate_update lib clk (Inr res) k (move (GoCreateNamed k n) [GoCreateRecord n] (rcl \<sigma>))\<rparr>)"
| create_recorded: "GoCreateRecord n \<in> set (goroutines (rcl \<sigma>)) \<Longrightarrow>
    worker_step sem lib \<sigma>
      (\<sigma>\<lparr>rcl := createRecorded n (move (GoCreateRecord n) [GoRelease opCreate] (rcl \<sigma>))\<rparr>)"
| delete_done: "GoDelete k h \<in> set (goroutines (rcl \<sigma>)) \<Longrightarrow>
    worker_step sem lib \<sigma> (\<sigma>\<lparr>rcl := doDelete lib clk derr k (move (GoDelete k h) [GoRelease opDelete] (rcl \<sigma>))\<rparr>)"
| cleanup_done: "GoCleanup n t \<in> set (goroutines (rcl \<sigma>)) \<Longrightarrow>
    worker_step sem lib \<sigma> (\<sigma>\<lparr>rcl := finishCleanup lib now out n t (move (GoCleanup n t) [GoRelease opDelete] (rcl \<sigma>))\<rparr>)"
| slot_released: "GoRelease kind \<in> set (goroutines (rcl \<sigma>)) \<Longrightarrow>
    worker_step sem lib \<sigma>
      (\<sigma>\<lparr>rcl := (move (GoRelease kind) [] (rcl \<sigma>))\<lparr>limiter := release sem kind (limiter (rcl \<sigma>))\<rparr>\<rparr>)"
| rejected: "worker_step sem lib \<sigma>
    (\<sigma>\<lparr>rcl := (rcl \<sigma>)\<lparr>throttle := the (throttled lib now (Some (throttle (rcl \<sigma>))))\<rparr>\<rparr>)"
| increase: "k \<notin> set (used_ids \<sigma>) \<Longrightarrow> k \<notin> hrefs \<sigma> \<Longrightarrow>
    worker_step sem lib \<sigma> (upd_store (AddCreateIntent now k) (\<sigma>\<lparr>used_ids := k # used_ids \<sigma>\<rparr>))"
| decrease: "worker_step sem lib \<sigma> (upd_store (MarkForDeletion now k) \<sigma>)"
| triggered: "worker_step sem lib \<sigma> (\<sigma>\<lparr>rcl := trigger (rcl \<sigma>)\<rparr>)"
| vapp_appears: "h \<noteq> [] \<Longrightarrow> h \<notin> hrefs \<sigma> \<Longrightarrow> h \<notin> set (used_ids \<sigma>) \<Longrightarrow>
    worker_step sem lib \<sigma> (\<sigma>\<lparr>vapps := (h, n) # vapps \<sigma>, used_names := n # used_names \<sigma>\<rparr>)"
| map_order: "mset xs = mset (instances (sys_store \<sigma>)) \<Longrightarrow> mset ys = mset (byVAppHREF (sys_store \<sigma>)) \<Longrightarrow>
    worker_step sem lib \<sigma> (upd_store (\<lambda>s. s\<lparr>instances := xs, byVAppHREF := ys\<rparr>) \<sigma>)"

definition sys_step :: "'s sem_lib \<Rightarrow> 'b bo_lib \<Rightarrow> ('s, 'b) system \<Rightarrow> ('s, 'b) system \<Rightarrow> bool" where
  "sys_step sem lib \<sigma> \<sigma>' \<longleftrightarrow> cycle_step sem \<sigma> \<sigma>' \<or> worker_step sem lib \<sigma> \<sigma>'"

lemma upd_store_pc:
  "upd_store f (\<sigma>\<lparr>pc := p\<rparr>) = \<sigma>\<lparr>rcl := (rcl \<sigma>)\<lparr>store := f (sys_store \<sigma>)\<rparr>, pc := p\<rparr>"
  by (cases \<sigma>) (simp add: upd_store_def)

end
