(* ===== verification/System_Inv.thy ===== *)
theory System_Inv
  imports System
begin

text \<open>
  The invariant of the running plugin and its preservation by every step. It is a conjunction of
  parts, each over the components of the state it constrains: the tracked instances and the
  goroutines that work on them, the names of vApps, the position of the reconcile goroutine, the
  slots, and the cleanups.
\<close>

section \<open>What the goroutines hold\<close>

definition gather :: "(goroutine \<Rightarrow> 'a list) \<Rightarrow> goroutine multiset \<Rightarrow> 'a multiset" where
  "gather f M = (\<Sum>g\<in>#M. mset (f g))"

lemma gather_simps [simp]:
  "gather f {#} = {#}" "gather f (add_mset g M) = mset (f g) + gather f M"
  "gather f (M + N) = gather f M + gather f N"
  by (simp_all add: gather_def)

fun g_creating :: "goroutine \<Rightarrow> string list" where
  "g_creating (GoCreate k) = [k]"
| "g_creating (GoCreateNamed k n) = [k]"
| "g_creating (GoCreateFailing k n) = [k]"
| "g_creating (GoCreateFailed k) = [k]"
| "g_creating _ = []"

text \<open>Names under which a running create may still store an HREF, and names registered in flight.\<close>

fun g_active :: "goroutine \<Rightarrow> string list" where
  "g_active (GoCreateNamed k n) = [n]"
| "g_active _ = []"

fun g_holds :: "goroutine \<Rightarrow> string list" where
  "g_holds (GoCreateNamed k n) = [n]"
| "g_holds (GoCreateFailing k n) = [n]"
| "g_holds (GoCreateRecord n) = [n]"
| "g_holds _ = []"

fun g_deleting :: "goroutine \<Rightarrow> (string \<times> string) list" where
  "g_deleting (GoDelete k h) = [(k, h)]"
| "g_deleting _ = []"

fun g_cleaning :: "goroutine \<Rightarrow> string list" where
  "g_cleaning (GoCleanup n t) = [n]"
| "g_cleaning _ = []"

fun g_kind :: "goroutine \<Rightarrow> opKind" where
  "g_kind (GoDelete k h) = opDelete"
| "g_kind (GoCleanup n t) = opDelete"
| "g_kind (GoRelease kind) = kind"
| "g_kind _ = opCreate"

abbreviation creating :: "goroutine multiset \<Rightarrow> string multiset" where
  "creating \<equiv> gather g_creating"

abbreviation active :: "goroutine multiset \<Rightarrow> string multiset" where
  "active \<equiv> gather g_active"

abbreviation holds :: "goroutine multiset \<Rightarrow> string multiset" where
  "holds \<equiv> gather g_holds"

abbreviation deleting :: "goroutine multiset \<Rightarrow> (string \<times> string) multiset" where
  "deleting \<equiv> gather g_deleting"

abbreviation cleaning :: "goroutine multiset \<Rightarrow> string multiset" where
  "cleaning \<equiv> gather g_cleaning"

definition running :: "opKind \<Rightarrow> goroutine multiset \<Rightarrow> nat" where
  "running kind M = size (filter_mset (\<lambda>g. g_kind g = kind) M)"

lemma running_simps [simp]:
  "running kind {#} = 0"
  "running kind (add_mset g M) = running kind M + (if g_kind g = kind then 1 else 0)"
  by (simp_all add: running_def)

lemma active_holds: "n \<in># active M \<Longrightarrow> n \<in># holds M"
proof (induction M)
  case (add g M)
  then show ?case by (cases g) auto
qed simp

lemma creating_running: "running opCreate M = 0 \<Longrightarrow> creating M = {#}"
proof (induction M)
  case (add g M)
  then show ?case by (cases g) (auto split: if_splits)
qed simp

section \<open>The parts of the invariant\<close>

definition iok ::
    "(string \<times> string) set \<Rightarrow> string set \<Rightarrow> goroutine multiset \<Rightarrow> string \<Rightarrow> Instance \<Rightarrow> bool" where
  "iok V ids M k i \<longleftrightarrow>
     inst_ok i \<and> (\<not> Leftover i \<longrightarrow> k \<in> ids) \<and>
     (ID i \<noteq> [] \<longrightarrow> (\<exists>n. (ID i, n) \<in> V \<and> n \<notin># active M)) \<and>
     (Phase i = PhaseCreating \<longleftrightarrow> k \<in># creating M) \<and>
     (Phase i = PhaseDeleting \<longrightarrow> (\<exists>h. (k, h) \<in># deleting M)) \<and>
     (\<forall>h. (k, h) \<in># deleting M \<longrightarrow> doomed i \<and> ID i = h)"

definition insts_inv ::
    "(string \<Rightarrow> Instance option) \<Rightarrow> goroutine multiset \<Rightarrow> (string \<times> string) set \<Rightarrow> string set \<Rightarrow> bool" where
  "insts_inv G M V ids \<longleftrightarrow>
     (\<forall>k i. G k = Some i \<longrightarrow> iok V ids M k i) \<and>
     (\<forall>k. k \<in># creating M \<longrightarrow> G k \<noteq> None) \<and> (\<forall>k. count (creating M) k \<le> 1) \<and>
     (\<forall>k h. (k, h) \<in># deleting M \<longrightarrow> h \<in> fst ` V \<and> (k \<in> ids \<or> k = h))"

definition names_inv ::
    "goroutine multiset \<Rightarrow> string set \<Rightarrow> (string \<times> string) list \<Rightarrow> string set \<Rightarrow> string set \<Rightarrow> bool" where
  "names_inv M infl V ids names \<longleftrightarrow>
     distinct (map fst V) \<and> [] \<notin> fst ` set V \<and> fst ` set V \<inter> ids = {} \<and> snd ` set V \<subseteq> names \<and>
     infl \<subseteq> names \<and> set_mset (holds M) \<subseteq> infl \<and> (\<forall>n. count (holds M) n \<le> 1)"

fun pc_ok ::
    "(string \<Rightarrow> Instance option) \<Rightarrow> string set \<Rightarrow> string set \<Rightarrow> (string \<times> string) set \<Rightarrow> string set \<Rightarrow> pc \<Rightarrow> bool" where
  "pc_ok G infl fails V ids (PcPoll vs known ok) \<longleftrightarrow> (\<forall>v \<in> set vs. (vapp_HREF v, vapp_Name v) \<in> V)"
| "pc_ok G infl fails V ids (PcUpd v vs known ok) \<longleftrightarrow> (\<forall>v \<in> set (v # vs). (vapp_HREF v, vapp_Name v) \<in> V)"
| "pc_ok G infl fails V ids (PcOwn1 v vs known ok) \<longleftrightarrow> (\<forall>v \<in> set (v # vs). (vapp_HREF v, vapp_Name v) \<in> V)"
| "pc_ok G infl fails V ids (PcOwn2 v vs known ok) \<longleftrightarrow>
     (\<forall>v \<in> set (v # vs). (vapp_HREF v, vapp_Name v) \<in> V) \<and> vapp_Name v \<notin> infl"
| "pc_ok G infl fails V ids (PcAdd v vs known ok) \<longleftrightarrow>
     (\<forall>v \<in> set (v # vs). (vapp_HREF v, vapp_Name v) \<in> V) \<and> vapp_Name v \<notin> infl \<and> vapp_Name v \<notin> fails"
| "pc_ok G infl fails V ids (PcCreatesLoop is) \<longleftrightarrow>
     distinct (map IntentID is) \<and>
     (\<forall>i \<in> set is. \<exists>j. G (IntentID i) = Some j \<and> Phase j = PhasePendingCreate)"
| "pc_ok G infl fails V ids (PcDeletesLoop is) \<longleftrightarrow>
     (\<forall>i \<in> set is. ID i \<in> fst ` V \<and> (IntentID i \<in> ids \<or> IntentID i = ID i) \<and>
        (\<forall>j. G (IntentID i) = Some j \<longrightarrow> doomed j \<and> ID j = ID i))"
| "pc_ok G infl fails V ids _ \<longleftrightarrow> True"

definition slots_inv :: "'s sem_lib \<Rightarrow> ('s \<Rightarrow> int) \<Rightarrow> ('s \<Rightarrow> int) \<Rightarrow> ReconcilerConfig \<Rightarrow> 's opLimiter \<Rightarrow> goroutine multiset \<Rightarrow> bool"
    where
  "slots_inv sem cur cap cfg l M \<longleftrightarrow>
     limiter_ok sem cur cap (MaxConcurrentCreates cfg) (MaxConcurrentDeletes cfg) l \<and>
     opl_size l = MaxConcurrentOperations cfg \<and> (\<forall>k. inUse k l = int (running k M))"

definition cleanups_inv :: "string set \<Rightarrow> goroutine multiset \<Rightarrow> bool" where
  "cleanups_inv bg M \<longleftrightarrow> bg = cleanupKey ` set_mset (cleaning M) \<and> (\<forall>n. count (cleaning M) n \<le> 1)"

fun in_creates :: "pc \<Rightarrow> bool" where
  "in_creates (PcCreatesLoop is) = True"
| "in_creates _ = False"

definition hold_inv :: "bool \<Rightarrow> pc \<Rightarrow> goroutine multiset \<Rightarrow> bool" where
  "hold_inv held p M \<longleftrightarrow> (held \<longrightarrow> running opCreate M = 0 \<and> \<not> in_creates p)"

text \<open>The set of names that wait for the cleanup of a failed create.\<close>

abbreviation fail_names :: "('s, 'b) vcdInstanceGroup \<Rightarrow> string set" where
  "fail_names r \<equiv> dom (map_of (failedCreateCleanups r))"

abbreviation gos :: "('s, 'b) vcdInstanceGroup \<Rightarrow> goroutine multiset" where
  "gos r \<equiv> mset (goroutines r)"

definition sys_inv :: "'s sem_lib \<Rightarrow> ('s \<Rightarrow> int) \<Rightarrow> ('s \<Rightarrow> int) \<Rightarrow> ReconcilerConfig \<Rightarrow> ('s, 'b) system \<Rightarrow> bool" where
  "sys_inv sem cur cap cfg \<sigma> \<longleftrightarrow>
     (let r = rcl \<sigma>; G = GetByIntentID (store r); M = gos r; V = set (vapps \<sigma>); ids = set (used_ids \<sigma>) in
      index_inv (store r) \<and> insts_inv G M V ids \<and>
      names_inv M (set (inflightCreates r)) (vapps \<sigma>) ids (set (used_names \<sigma>)) \<and>
      pc_ok G (set (inflightCreates r)) (fail_names r) V ids (pc \<sigma>) \<and>
      slots_inv sem cur cap cfg (limiter r) M \<and> config r = cfg \<and>
      cleanups_inv (set (backgroundDeletes r)) M \<and> hold_inv (startupHold r) (pc \<sigma>) M)"

lemma sys_invI:
  assumes "index_inv (store r)" and "insts_inv (GetByIntentID (store r)) (gos r) (set V) (set ids)"
    and "names_inv (gos r) (set (inflightCreates r)) V (set ids) (set names)"
    and "pc_ok (GetByIntentID (store r)) (set (inflightCreates r)) (fail_names r) (set V) (set ids) p"
    and "slots_inv sem cur cap cfg (limiter r) (gos r)" and "config r = cfg"
    and "cleanups_inv (set (backgroundDeletes r)) (gos r)" and "hold_inv (startupHold r) p (gos r)"
  shows "sys_inv sem cur cap cfg \<lparr>rcl = r, pc = p, vapps = V, used_ids = ids, used_names = names\<rparr>"
  using assms by (simp add: sys_inv_def)

lemma sys_invD:
  assumes "sys_inv sem cur cap cfg \<sigma>"
  shows "index_inv (sys_store \<sigma>)"
    and "insts_inv (GetByIntentID (sys_store \<sigma>)) (gos (rcl \<sigma>)) (set (vapps \<sigma>)) (set (used_ids \<sigma>))"
    and "names_inv (gos (rcl \<sigma>)) (set (inflightCreates (rcl \<sigma>))) (vapps \<sigma>) (set (used_ids \<sigma>)) (set (used_names \<sigma>))"
    and "pc_ok (GetByIntentID (sys_store \<sigma>)) (set (inflightCreates (rcl \<sigma>))) (fail_names (rcl \<sigma>)) (set (vapps \<sigma>)) (set (used_ids \<sigma>)) (pc \<sigma>)"
    and "slots_inv sem cur cap cfg (limiter (rcl \<sigma>)) (gos (rcl \<sigma>))" and "config (rcl \<sigma>) = cfg"
    and "cleanups_inv (set (backgroundDeletes (rcl \<sigma>))) (gos (rcl \<sigma>))"
    and "hold_inv (startupHold (rcl \<sigma>)) (pc \<sigma>) (gos (rcl \<sigma>))"
  using assms by (simp_all add: sys_inv_def Let_def)

section \<open>Store operations that disturb no other part\<close>

text \<open>
  Most store operations keep what the invariant says of an instance whichever goroutines run: they
  neither begin nor end a create, begin no deletion and undo none.
\<close>

definition calm :: "(Instance \<Rightarrow> Instance) \<Rightarrow> bool" where
  "calm f \<longleftrightarrow> (\<forall>i.
     ID (f i) = ID i \<and> Leftover (f i) = Leftover i \<and> (inst_ok i \<longrightarrow> inst_ok (f i)) \<and>
     (Phase i = PhasePendingCreate \<longrightarrow> Phase (f i) = PhasePendingCreate) \<and> (doomed i \<longrightarrow> doomed (f i)) \<and>
     (Phase (f i) = PhaseCreating \<longleftrightarrow> Phase i = PhaseCreating) \<and>
     (Phase (f i) = PhaseDeleting \<longrightarrow> Phase i = PhaseDeleting))"

lemma calmD:
  assumes "calm f"
  shows "ID (f i) = ID i" and "Leftover (f i) = Leftover i" and "inst_ok i \<Longrightarrow> inst_ok (f i)"
    and "Phase i = PhasePendingCreate \<Longrightarrow> Phase (f i) = PhasePendingCreate" and "doomed i \<Longrightarrow> doomed (f i)"
    and "Phase (f i) = PhaseCreating \<longleftrightarrow> Phase i = PhaseCreating"
    and "Phase (f i) = PhaseDeleting \<Longrightarrow> Phase i = PhaseDeleting"
  using assms unfolding calm_def by blast+

lemma calmI:
  assumes "\<And>i. inst_ok i \<Longrightarrow> inst_ok (f i)"
    and "\<And>i. ID (f i) = ID i \<and> Leftover (f i) = Leftover i \<and>
       (Phase i = PhasePendingCreate \<longrightarrow> Phase (f i) = PhasePendingCreate) \<and> (doomed i \<longrightarrow> doomed (f i)) \<and>
       (Phase (f i) = PhaseCreating \<longleftrightarrow> Phase i = PhaseCreating) \<and>
       (Phase (f i) = PhaseDeleting \<longrightarrow> Phase i = PhaseDeleting)"
  shows "calm f"
  using assms unfolding calm_def by blast

lemma iok_calm:
  assumes "calm f" and "iok V ids M k i"
  shows "iok V ids M k (f i)"
  using assms(2) calmD [OF assms(1), of i] unfolding iok_def by auto

locale calm_op = pointwise_op get pre op touched f
  for get :: "'s \<Rightarrow> string \<Rightarrow> Instance option" and pre op touched f +
  assumes calm: "calm f"
begin

lemma calm_insts:
  assumes "pre s" and "insts_inv (get s) M V ids"
  shows "insts_inv (get (op s)) M V ids"
proof -
  have "iok V ids M k i" if "get (op s) k = Some i" for k i
  proof (rule op_Some [OF assms(1) that])
    fix i0 assume "get s k = Some i0" "i = i0 \<or> i = f i0"
    then show ?thesis using assms(2) iok_calm [OF calm, of V ids M k i0] by (auto simp: insts_inv_def)
  qed
  then show ?thesis using assms(2) op_None [OF assms(1)] unfolding insts_inv_def by blast
qed

lemma calm_pc:
  assumes "pre s" and "pc_ok (get s) infl fails V ids p"
  shows "pc_ok (get (op s)) infl fails V ids p"
proof (cases p)
  case (PcCreatesLoop "is")
  have "\<exists>j. get (op s) k = Some j \<and> Phase j = PhasePendingCreate"
    if "get s k = Some j" "Phase j = PhasePendingCreate" for k j
    using that calmD(4) [OF calm, of j] by (simp add: get_op [OF assms(1)])
  then show ?thesis using assms(2) PcCreatesLoop by force
next
  case (PcDeletesLoop "is")
  have "doomed j \<and> ID j = h"
    if "get (op s) k = Some j" "\<forall>j. get s k = Some j \<longrightarrow> doomed j \<and> ID j = h" for k j h
  proof (rule op_Some [OF assms(1) that(1)])
    fix i0 assume "get s k = Some i0" "j = i0 \<or> j = f i0"
    then show ?thesis using that(2) calmD(1,5) [OF calm, of i0] by auto
  qed
  then show ?thesis using assms(2) unfolding PcDeletesLoop pc_ok.simps by metis
qed (use assms(2) in simp_all)

end

lemma calm_pending_delete: "calm (pending_delete now)"
  by (rule calmI, erule inst_ok_pending_delete) (auto simp: pending_delete_def doomed_def)

lemma calm_gc_delete: "calm (gc_delete now)"
  by (rule calmI, erule inst_ok_gc_delete) (auto simp: gc_delete_def doomed_def)

lemma calm_observed: "calm (observed now n v ip vas vs os)"
  by (rule calmI, erule inst_ok_observed) (auto simp: observed_def doomed_def)

lemma calm_disappear: "calm (MarkDisappeared_body now known)"
  by (rule calmI, erule inst_ok_disappear) (auto simp: MarkDisappeared_body_def Let_def doomed_def)

interpretation mark_deletion: calm_op GetByIntentID index_inv "MarkForDeletion now target"
    "\<lambda>s k. a_find (abs_store s) target = Some k" "pending_delete now"
  for now target
  by unfold_locales (rule calm_pending_delete)

interpretation mark_gc: calm_op GetByIntentID index_inv "MarkGC now target" "\<lambda>s k. k = target" "gc_delete now"
  for now target
  by unfold_locales (rule calm_gc_delete)

interpretation observe: calm_op GetByIntentID index_inv
    "\<lambda>s. snd (UpdateFromVCD now h n v ip vas vs os s)"
    "\<lambda>s k. ahref (abs_store s) h = Some k" "observed now n v ip vas vs os"
  for now h n v ip vas vs os
  by unfold_locales (rule calm_observed)

interpretation disappear: calm_op GetByIntentID index_inv "MarkDisappeared now known"
    "\<lambda>s k. True" "MarkDisappeared_body now known"
  for now known
  by unfold_locales (rule calm_disappear)

section \<open>Steps that add or forget an instance\<close>

lemma insts_invD:
  assumes "insts_inv G M V ids"
  shows "G k = Some i \<Longrightarrow> iok V ids M k i" and "k \<in># creating M \<Longrightarrow> G k \<noteq> None"
    and "count (creating M) k \<le> 1" and "(k, h) \<in># deleting M \<Longrightarrow> h \<in> fst ` V"
    and "(k, h) \<in># deleting M \<Longrightarrow> k \<in> ids \<or> k = h"
  using assms unfolding insts_inv_def by blast+

lemma iokD:
  assumes "iok V ids M k i"
  shows "inst_ok i" and "\<not> Leftover i \<Longrightarrow> k \<in> ids"
    and "ID i \<noteq> [] \<Longrightarrow> \<exists>n. (ID i, n) \<in> V \<and> n \<notin># active M"
    and "Phase i = PhaseCreating \<longleftrightarrow> k \<in># creating M"
    and "Phase i = PhaseDeleting \<Longrightarrow> \<exists>h. (k, h) \<in># deleting M"
    and "(k, h) \<in># deleting M \<Longrightarrow> doomed i" and "(k, h) \<in># deleting M \<Longrightarrow> ID i = h"
  using assms unfolding iok_def by blast+

lemma tracked_key:
  assumes inv: "index_inv s" and I: "insts_inv (GetByIntentID s) M V ids" and i: "GetByIntentID s k = Some i"
  shows "k \<in> ids \<or> Leftover i \<and> ID i = k \<and> k \<in> fst ` V"
proof (cases "Leftover i")
  case True
  note iok = iokD [OF insts_invD(1) [OF I i]]
  have ok: "inst_ok i" and V: "ID i \<noteq> [] \<Longrightarrow> \<exists>n. (ID i, n) \<in> V" using iok(1,3) by blast+
  have "ID i \<noteq> []" "ID i = IntentID i"
    using ok True by (cases "Phase i"; auto simp: inst_ok_def doomed_def)+
  then show ?thesis using True V GetByIntentID_key [OF inv i] by force
next
  case False
  then show ?thesis using iokD(2) [OF insts_invD(1) [OF I i]] by blast
qed

lemma untracked_new:
  assumes "index_inv s" and "insts_inv (GetByIntentID s) M V ids" and "k \<notin> ids" and "k \<notin> fst ` V"
  shows "GetByIntentID s k = None" and "k \<notin># creating M" and "(k, h) \<notin># deleting M"
proof -
  show none: "GetByIntentID s k = None"
    using tracked_key [OF assms(1,2)] assms(3,4) by (cases "GetByIntentID s k") auto
  show "k \<notin># creating M" "(k, h) \<notin># deleting M"
    using none assms(3,4) insts_invD(2,4,5) [OF assms(2)] by blast+
qed

lemma untracked_href:
  assumes inv: "index_inv s" and I: "insts_inv (GetByIntentID s) M V ids"
    and h: "h \<in> fst ` V" "h \<notin> ids" "h \<noteq> []" and none: "GetByVAppHREF s h = None"
  shows "GetByIntentID s h = None" and "h \<notin># creating M" and "(h, h') \<in># deleting M \<Longrightarrow> h' = h"
proof -
  show G: "GetByIntentID s h = None"
  proof (cases "GetByIntentID s h")
    case (Some i)
    then have "ID i = h" "IntentID i = h" using tracked_key [OF inv I Some] h(2) GetByIntentID_key [OF inv Some] by auto
    then have "GetByVAppHREF s h = Some i" using Some h(3) by (simp add: GetByVAppHREF_iff [OF inv])
    then show ?thesis using none by simp
  qed
  show "h \<notin># creating M" "(h, h') \<in># deleting M \<Longrightarrow> h' = h"
    using G h(2) insts_invD(2,5) [OF I] by blast+
qed

lemma iok_ids_mono: "iok V ids M k i \<Longrightarrow> ids \<subseteq> ids' \<Longrightarrow> iok V ids' M k i"
  by (auto simp: iok_def)

lemma iok_V_mono: "iok V ids M k i \<Longrightarrow> V \<subseteq> V' \<Longrightarrow> iok V' ids M k i"
  unfolding iok_def by blast

lemma AddCreateIntent_insts:
  assumes inv: "index_inv s" and I: "insts_inv (GetByIntentID s) M V ids" and k: "k \<notin> ids" "k \<notin> fst ` V"
  shows "insts_inv (GetByIntentID (AddCreateIntent now k s)) M V (insert k ids)"
proof -
  note new = untracked_new [OF inv I k(1) k(2)]
  let ?i = "Instance0\<lparr>IntentID := k, Phase := PhasePendingCreate, CreatedAt := Some now\<rparr>"
  have "iok V (insert k ids) M k ?i"
    using new(2,3) inst_ok_new_intent [where k = k and now = now] by (simp add: iok_def)
  moreover have "iok V (insert k ids) M k' i" if "GetByIntentID s k' = Some i" for k' i
    using I that iok_ids_mono [of V ids M k' i "insert k ids"] by (auto simp: insts_inv_def)
  ultimately show ?thesis
    using I by (auto simp: insts_inv_def GetByIntentID_AddCreateIntent [OF inv new(1)])
qed

lemma AddCreateIntent_pc:
  assumes inv: "index_inv s" and I: "insts_inv (GetByIntentID s) M V ids" and k: "k \<notin> ids" "k \<notin> fst ` V"
    and pc: "pc_ok (GetByIntentID s) infl fails V ids p"
  shows "pc_ok (GetByIntentID (AddCreateIntent now k s)) infl fails V (insert k ids) p"
proof -
  note new = untracked_new(1) [OF inv I k]
  show ?thesis
  proof (cases p)
    case (PcCreatesLoop "is")
    then show ?thesis using pc new by (force simp: GetByIntentID_AddCreateIntent [OF inv new])
  next
    case (PcDeletesLoop "is")
    then have "\<forall>i \<in> set is. IntentID i \<noteq> k" using pc k unfolding PcDeletesLoop pc_ok.simps by metis
    then have "\<forall>i \<in> set is. GetByIntentID (AddCreateIntent now k s) (IntentID i) = GetByIntentID s (IntentID i)"
      by (simp add: GetByIntentID_AddCreateIntent [OF inv new])
    then show ?thesis using pc unfolding PcDeletesLoop pc_ok.simps by (metis insertI2)
  qed (use pc in simp_all)
qed

lemma AddLeftover_insts:
  assumes inv: "index_inv s" and I: "insts_inv (GetByIntentID s) M V ids"
    and h: "(h, n) \<in> V" "h \<notin> ids" "h \<noteq> []" and n: "n \<notin># active M"
  shows "index_inv (snd (AddLeftover now h n s))" and "insts_inv (GetByIntentID (snd (AddLeftover now h n s))) M V ids"
proof -
  have hV: "h \<in> fst ` V" using h(1) by force
  note new = untracked_href [OF inv I hV h(2,3)]
  show "index_inv (snd (AddLeftover now h n s))"
    by (rule AddLeftover_inv [OF inv h(3) new(1)])
  show "insts_inv (GetByIntentID (snd (AddLeftover now h n s))) M V ids"
  proof (cases "GetByVAppHREF s h")
    case None
    have "iok V ids M h (leftover_inst now h n)"
      using new(2,3) [OF None] inst_ok_leftover [OF h(3), of now n] h(1,3) n
      by (auto simp: iok_def leftover_inst_def doomed_def)
    then show ?thesis
      using I by (auto simp: insts_inv_def GetByIntentID_AddLeftover [OF inv h(3) None new(1) [OF None]])
  next
    case (Some i)
    then show ?thesis using I by (simp add: AddLeftover_tracked)
  qed
qed

lemma Prune_insts:
  assumes inv: "index_inv s" and I: "insts_inv (GetByIntentID s) M V ids"
  shows "insts_inv (GetByIntentID (Prune now s)) M V ids"
proof -
  have "GetByIntentID (Prune now s) k \<noteq> None" if k: "k \<in># creating M" for k
  proof -
    obtain i where i: "GetByIntentID s k = Some i" using I k by (auto simp: insts_inv_def)
    then have "Phase i = PhaseCreating" using I k by (auto simp: insts_inv_def iok_def)
    then show ?thesis using i by (simp add: GetByIntentID_Prune [OF inv] prunable_def)
  qed
  moreover have "iok V ids M k i" if "GetByIntentID (Prune now s) k = Some i" for k i
    using I that by (auto simp: insts_inv_def GetByIntentID_Prune [OF inv] split: option.splits if_splits)
  ultimately show ?thesis using I unfolding insts_inv_def by blast
qed

lemma reorder_store:
  assumes inv: "index_inv s" and xs: "mset xs = mset (instances s)" and ys: "mset ys = mset (byVAppHREF s)"
  shows "index_inv (s\<lparr>instances := xs, byVAppHREF := ys\<rparr>)"
    and "GetByIntentID (s\<lparr>instances := xs, byVAppHREF := ys\<rparr>) = GetByIntentID s"
proof -
  have dx: "distinct (keys xs)" and dy: "distinct (keys ys)"
    using index_inv_distinct [OF inv] xs ys by (metis mset_eq_imp_distinct_iff mset_map)+
  have mx: "map_of xs = map_of (instances s)" and my: "map_of ys = map_of (byVAppHREF s)"
    using dx dy index_inv_distinct [OF inv] mset_eq_setD [OF xs] mset_eq_setD [OF ys]
    by (metis map_of_inject_set)+
  show "index_inv (s\<lparr>instances := xs, byVAppHREF := ys\<rparr>)"
    using dx dy index_inv_instances [OF inv] index_inv_href [OF inv] by (intro index_invI) (simp_all add: mx my)
  show "GetByIntentID (s\<lparr>instances := xs, byVAppHREF := ys\<rparr>) = GetByIntentID s"
    by (simp add: GetByIntentID_def fun_eq_iff mx)
qed

section \<open>Steps that change one instance and the goroutine working on it\<close>

lemma GetByIntentID_UpdateInstance:
  assumes "update_pre k fn s"
  shows "GetByIntentID (UpdateInstance now k fn s) = (GetByIntentID s)(k := map_option (stamp now fn) (GetByIntentID s k))"
  by (rule ext) (simp add: update.get_op [OF assms])

lemma update_pre_keep:
  assumes inv: "index_inv s" and keep: "\<And>i. ID (fn i) = ID i" "\<And>i. IntentID (fn i) = IntentID i"
  shows "update_pre k fn s"
proof -
  have "IntentID j = k" if i: "GetByIntentID s k = Some i" and j: "GetByVAppHREF s (ID i) = Some j" for i j
  proof -
    have "ID i \<noteq> []" "ID j = ID i" "GetByIntentID s (IntentID j) = Some j"
      using j by (simp_all add: GetByVAppHREF_iff [OF inv])
    then show ?thesis using ID_unique [OF inv i, of "IntentID j" j] by simp
  qed
  then show ?thesis using inv unfolding update_pre_def mutation_ok_def keep by blast
qed

lemma insts_update:
  assumes I: "insts_inv G M V ids"
    and crt: "\<And>k'. k' \<noteq> k \<Longrightarrow> count (creating M') k' = count (creating M) k'" "count (creating M') k \<le> 1"
    and del: "\<And>k' h. k' \<noteq> k \<Longrightarrow> (k', h) \<in># deleting M' \<longleftrightarrow> (k', h) \<in># deleting M"
      "\<And>h. (k, h) \<in># deleting M' \<Longrightarrow> h \<in> fst ` V \<and> (k \<in> ids \<or> k = h)"
    and act: "set_mset (active M') \<subseteq> set_mset (active M)"
    and here: "\<And>i. G k = Some i \<Longrightarrow> iok V ids M' k (f i)" and tr: "k \<in># creating M' \<Longrightarrow> G k \<noteq> None"
  shows "insts_inv (G(k := map_option f (G k))) M' V ids"
proof -
  have mem: "k' \<in># creating M' \<longleftrightarrow> k' \<in># creating M" if "k' \<noteq> k" for k'
    using crt(1) [OF that] by (simp flip: count_greater_zero_iff)
  have "iok V ids M' k' i" if "k' \<noteq> k" "G k' = Some i" for k' i
    using insts_invD(1) [OF I that(2)] mem [OF that(1)] del(1) [OF that(1)] act unfolding iok_def by blast
  moreover have "count (creating M') k' \<le> 1" for k'
    using crt insts_invD(3) [OF I, of k'] by (cases "k' = k") simp_all
  moreover have "h \<in> fst ` V \<and> (k' \<in> ids \<or> k' = h)" if "(k', h) \<in># deleting M'" for k' h
    using that del insts_invD(4,5) [OF I] by (cases "k' = k") blast+
  ultimately show ?thesis
    using here tr mem insts_invD(2) [OF I] unfolding insts_inv_def by (auto split: if_splits)
qed

lemma pc_update:
  assumes pc: "pc_ok G infl fails V ids p"
    and np: "\<And>j. G k = Some j \<Longrightarrow> Phase j \<noteq> PhasePendingCreate"
    and dm: "\<And>j. G k = Some j \<Longrightarrow> doomed j \<Longrightarrow> doomed (f j) \<and> ID (f j) = ID j"
  shows "pc_ok (G(k := map_option f (G k))) infl fails V ids p"
proof (cases p)
  case (PcCreatesLoop "is")
  then have "\<forall>i \<in> set is. IntentID i \<noteq> k" using pc np unfolding PcCreatesLoop pc_ok.simps by metis
  then show ?thesis using pc PcCreatesLoop by auto
next
  case (PcDeletesLoop "is")
  have "doomed j \<and> ID j = h" if "(G(k := map_option f (G k))) k' = Some j"
    "\<forall>j. G k' = Some j \<longrightarrow> doomed j \<and> ID j = h" for k' j h
    using that dm by (auto split: if_splits)
  note keep = this
  show ?thesis
    unfolding PcDeletesLoop pc_ok.simps
  proof (intro ballI conjI allI impI)
    fix i j assume i: "i \<in> set is" and j: "(G(k := map_option f (G k))) (IntentID i) = Some j"
    have "\<forall>j. G (IntentID i) = Some j \<longrightarrow> doomed j \<and> ID j = ID i"
      using pc i unfolding PcDeletesLoop pc_ok.simps by blast
    then show "doomed j" "ID j = ID i" using keep [OF j] by blast+
  qed (use pc in \<open>simp_all add: PcDeletesLoop\<close>)
qed (use pc in simp_all)

text \<open>The instance after each update, with the goroutine that made it.\<close>

abbreviation mark_creating :: "time \<Rightarrow> Instance \<Rightarrow> Instance" where
  "mark_creating t \<equiv> \<lambda>i. i\<lparr>Phase := PhaseCreating, CreateStartedAt := Some t\<rparr>"

abbreviation mark_deleting :: "time \<Rightarrow> Instance \<Rightarrow> Instance" where
  "mark_deleting t \<equiv> \<lambda>i. i\<lparr>Phase := PhaseDeleting, DeleteStartedAt := Some t\<rparr>"

lemma iok_mark_creating:
  assumes "iok V ids M k i" and "Phase i = PhasePendingCreate"
  shows "iok V ids (add_mset (GoCreate k) M) k (stamp now (mark_creating t) i)"
proof -
  have "(k, h) \<notin># deleting M" for h using iokD(6) [OF assms(1), of h] assms(2) by (auto simp: doomed_def)
  then show ?thesis using assms iokD(1,2) [OF assms(1)] by (simp add: iok_def stamp_def inst_ok_def)
qed

lemma iok_create_failed:
  assumes "iok V ids (add_mset (GoCreateFailed k) M) k i" and "k \<notin># creating M"
  shows "iok V ids (add_mset (GoRelease opCreate) M) k (stamp now (create_failed lib t msg) i)"
proof -
  have ph: "Phase i = PhaseCreating" using iokD(4) [OF assms(1)] by simp
  have "(k, h) \<notin># deleting M" for h using iokD(6) [OF assms(1), of h] ph by (auto simp: doomed_def)
  then show ?thesis
    using ph assms(2) iokD(1,2) [OF assms(1)] by (auto simp: iok_def stamp_def inst_ok_def create_failed_def Let_def)
qed

lemma iok_create_succeeded:
  assumes "iok V ids (add_mset (GoCreateNamed k n) M) k i" and "k \<notin># creating M" and "n \<notin># active M"
    and "(VAppHREF res, n) \<in> V" and "VAppHREF res \<noteq> []"
  shows "iok V ids (add_mset (GoCreateRecord n) M) k (stamp now (create_succeeded t res) i)"
proof -
  have ph: "Phase i = PhaseCreating" using iokD(4) [OF assms(1)] by simp
  then have "\<not> Leftover i" "CreatedAt i \<noteq> None" using iokD(1) [OF assms(1)] by (auto simp: inst_ok_def)
  moreover have "(k, h) \<notin># deleting M" for h using iokD(6) [OF assms(1), of h] ph by (auto simp: doomed_def)
  ultimately show ?thesis
    using ph assms iokD(2) [OF assms(1)] by (auto simp: iok_def stamp_def inst_ok_def create_succeeded_def)
qed

lemma iok_mark_deleting:
  assumes "iok V ids M k i" and "doomed i"
  shows "iok V ids (add_mset (GoDelete k (ID i)) M) k (stamp now (mark_deleting t) i)"
proof -
  have "Phase i \<noteq> PhaseCreating" using assms(2) by (auto simp: doomed_def)
  then show ?thesis
    using assms(2) iokD [OF assms(1)] unfolding iok_def by (auto simp: stamp_def inst_ok_def doomed_def)
qed

lemma iok_deleted:
  assumes i: "iok V ids (add_mset (GoDelete k h) M) k i"
    and f: "\<And>i. ID (f i) = ID i \<and> IntentID (f i) = IntentID i \<and> Leftover (f i) = Leftover i \<and> CreatedAt (f i) = CreatedAt i \<and>
      DeleteRequestedAt (f i) = DeleteRequestedAt i \<and>
      (Phase (f i) = PhasePendingDelete \<or> Phase (f i) = PhaseDeleted \<and> DeleteCompletedAt (f i) \<noteq> None)"
  shows "iok V ids (add_mset (GoRelease opDelete) M) k (stamp now f i)"
proof -
  let ?j = "stamp now f i"
  have dm: "doomed i" using iokD(6) [OF i, of h] by simp
  have j: "ID ?j = ID i" "Leftover ?j = Leftover i" "doomed ?j" "Phase ?j \<in> {PhasePendingDelete, PhaseDeleted}"
    using dm f [of i] by (auto simp: stamp_def doomed_def)
  have "CreatedAt i = None \<longleftrightarrow> Leftover i" "Leftover i \<longrightarrow> ID i = IntentID i"
    using iokD(1) [OF i] unfolding inst_ok_def by blast+
  then have "CreatedAt ?j = None \<longleftrightarrow> Leftover ?j" "Leftover ?j \<longrightarrow> ID ?j = IntentID ?j"
    using f [of i] by (simp_all add: stamp_def)
  moreover have "Phase ?j = PhaseDeleted \<Longrightarrow> DeleteCompletedAt ?j \<noteq> None" using f [of i] by (auto simp: stamp_def)
  moreover have "ID ?j \<noteq> []" using j(3) by (simp add: doomed_def)
  ultimately have ok: "inst_ok ?j" unfolding inst_ok_def using j(3,4) by (elim insertE emptyE) simp_all
  have "k \<notin># creating M" using dm iokD(4) [OF i] by (auto simp: doomed_def)
  then have cr: "Phase ?j = PhaseCreating \<longleftrightarrow> k \<in># creating (add_mset (GoRelease opDelete) M)" using j(4) by auto
  have V: "ID ?j \<noteq> [] \<longrightarrow> (\<exists>n. (ID ?j, n) \<in> V \<and> n \<notin># active (add_mset (GoRelease opDelete) M))"
    using iokD(3) [OF i] by (simp add: j(1))
  have nd: "Phase ?j \<noteq> PhaseDeleting" using j(4) by auto
  have "ID ?j = h'" if "(k, h') \<in># deleting (add_mset (GoRelease opDelete) M)" for h'
    unfolding j(1) by (rule iokD(7) [OF i]) (use that in simp)
  then show ?thesis
    unfolding iok_def using ok V cr nd j(2,3) iokD(2) [OF i] by blast
qed

end
