(* ===== verification/Reconciler_Props.thy ===== *)
theory Reconciler_Props
  imports Throttle_Props Store_Props System_Inv
begin

text \<open>
  Properties of the reconciler's operations one by one: retry delays, the circuit breaker, the poll, the
  startup hold, the dispatch of creates, the cleanup of failed creates.
\<close>

section \<open>Retry delay\<close>

definition retry_level :: "nat \<Rightarrow> rat" where
  "retry_level n = min (of_int retryBaseDelay * 2 ^ n) (of_int retryMaxDelay)"

lemma retry_level_0: "retry_level 0 = of_int retryBaseDelay"
  by (simp add: retry_level_def retryBaseDelay_def retryMaxDelay_def time_consts)

lemma retry_level_Suc: "min (retryMultiplier * retry_level n) (of_int retryMaxDelay) = retry_level (Suc n)"
  by (auto simp: retry_level_def retryMultiplier_def min_def retryMaxDelay_def time_consts)

abbreviation retry_documented :: "'b bo_lib \<Rightarrow> ('b \<Rightarrow> bool) \<Rightarrow> ('b \<Rightarrow> rat) \<Rightarrow> bool" where
  "retry_documented lib made cur \<equiv>
     backoff_documented lib retry_options retryBaseDelay retryMultiplier retryMaxDelay retryJitter made cur"

lemma NextBackOff_retry:
  assumes doc: "retry_documented lib made cur" and b: "made b" "cur b = retry_level n"
    and n: "NextBackOff lib b = (d, b')"
  shows "made b'" and "cur b' = retry_level (Suc n)"
    and "3 / 4 * retry_level n \<le> of_int d" and "of_int d \<le> 5 / 4 * retry_level n"
  using backoff_documentedD(5-8) [OF doc b(1)] b(2) n
  by (simp_all add: retry_level_Suc) (simp_all add: retryJitter_def)

lemma retryDelay_loop_bounds:
  assumes doc: "retry_documented lib made cur" and "made b" "cur b = retry_level (Suc m)"
    and "3 / 4 * retry_level m \<le> of_int d" "of_int d \<le> 5 / 4 * retry_level m"
  shows "3 / 4 * retry_level (m + n) \<le> of_int (retryDelay_loop lib n d b) \<and>
         of_int (retryDelay_loop lib n d b) \<le> 5 / 4 * retry_level (m + n)"
  using assms(2-)
proof (induction n arbitrary: m d b)
  case (Suc n)
  obtain d' b' where nb: "NextBackOff lib b = (d', b')" by fastforce
  note N = NextBackOff_retry [OF doc Suc.prems(1,2) nb]
  show ?case using Suc.IH [OF N(1,2,3,4)] nb by simp
qed simp

lemma retryDelay_level:
  assumes doc: "retry_documented lib made cur" and "1 \<le> c"
  shows "3 / 4 * retry_level (nat (c - 1)) \<le> of_int (retryDelay lib c)"
    and "of_int (retryDelay lib c) \<le> 5 / 4 * retry_level (nat (c - 1))"
proof -
  let ?b = "NewExponentialBackOff lib retry_options"
  have b: "made ?b" "cur ?b = retry_level 0"
    using backoff_documentedD(1,2) [OF doc] by (simp_all add: retry_level_0)
  obtain d b' where nb: "NextBackOff lib ?b = (d, b')" by fastforce
  note N = NextBackOff_retry [OF doc b nb]
  show "3 / 4 * retry_level (nat (c - 1)) \<le> of_int (retryDelay lib c)"
    "of_int (retryDelay lib c) \<le> 5 / 4 * retry_level (nat (c - 1))"
    using retryDelay_loop_bounds [OF doc N(1,2,3,4), of "nat (c - 1)"] nb by (simp_all add: retryDelay_def)
qed

lemma retryDelay_min:
  assumes doc: "retry_documented lib made cur" and "1 \<le> c"
  shows "7500000000 \<le> retryDelay lib c"
proof -
  have "of_int retryBaseDelay * 1 \<le> (of_int retryBaseDelay * 2 ^ nat (c - 1) :: rat)"
    by (intro mult_left_mono one_le_power) (simp_all add: retryBaseDelay_def time_consts)
  then have "(10000000000 :: rat) \<le> retry_level (nat (c - 1))"
    by (simp add: retry_level_def retryBaseDelay_def retryMaxDelay_def time_consts)
  then have "(7500000000 :: rat) \<le> of_int (retryDelay lib c)" using retryDelay_level(1) [OF assms] by linarith
  then show ?thesis by linarith
qed

text \<open>
  The delay before retry number \<open>n\<close> of an instance is 10 s doubled with every earlier retry, at
  most 5 min, up to a quarter more or less.
\<close>

lemma retryDelay_bounds:
  assumes "backoff_documented lib retry_options retryBaseDelay retryMultiplier retryMaxDelay retryJitter made cur"
    and "1 \<le> n"
  shows "3 / 4 * min (10000000000 * 2 ^ nat (n - 1)) 300000000000 \<le> (of_int (retryDelay lib n) :: rat) \<and>
         of_int (retryDelay lib n) \<le> (5 / 4 * min (10000000000 * 2 ^ nat (n - 1)) 300000000000 :: rat)"
  using retryDelay_level [OF assms]
  by (simp add: retry_level_def retryBaseDelay_def retryMaxDelay_def time_consts)

lemma plain_retry_documented:
  "retry_documented (plain_backoff retryBaseDelay retryMaxDelay) (\<lambda>b. retryBaseDelay \<le> b \<and> b \<le> retryMaxDelay) of_int"
  unfolding retryMultiplier_def
  by (rule plain_backoff_documented) (simp_all add: retryBaseDelay_def retryMaxDelay_def retryJitter_def time_consts)

lemma retryDelay_bounds_witness:
  "(of_int (retryDelay (plain_backoff retryBaseDelay retryMaxDelay) 3) :: rat) \<le> 50000000000"
  using retryDelay_bounds [OF plain_retry_documented, of 3] by simp

section \<open>Circuit breaker\<close>

text \<open>A history of create outcomes; each failure carries the two clock readings of the call.\<close>

datatype create_outcome = Failed time time | Created

fun breaker_step :: "'b bo_lib \<Rightarrow> create_outcome \<Rightarrow> ('s, 'b) vcdInstanceGroup \<Rightarrow> ('s, 'b) vcdInstanceGroup" where
  "breaker_step lib (Failed t0 t1) r = recordCreateFailure lib (\<lambda>n. if n = 0 then t0 else t1) r"
| "breaker_step lib Created r = recordCreateSuccess lib r"

text \<open>The length of the run of failures at the end of a history.\<close>

definition failures_since_success :: "create_outcome list \<Rightarrow> nat" where
  "failures_since_success evs = length (takeWhile (\<lambda>e. e \<noteq> Created) (rev evs))"

lemma breaker_counter:
  "consecutiveCreateFailures r = 0 \<Longrightarrow>
     consecutiveCreateFailures (fold (breaker_step lib) evs r) = int (failures_since_success evs)"
proof (induction evs rule: rev_induct)
  case (snoc e evs)
  then show ?case
    by (cases e) (simp_all add: failures_since_success_def recordCreateFailure_def recordCreateSuccess_def Let_def
        split: prod.split)
qed (simp add: failures_since_success_def)


definition demo_group :: "(int \<times> int, duration) vcdInstanceGroup" where
  "demo_group = newVCDInstanceGroup counting_sem (plain_backoff circuitBreakerCooldown circuitBreakerMaxCooldown) 0
     (newDesiredStateStore ''g'')
     \<lparr>MaxConcurrentCreates = 0, MaxConcurrentDeletes = 0, MaxConcurrentOperations = 0, Interval = 0,
      MaxInstanceAge = 0, PollReadTimeout = 0, CreateTimeout = 0, StartupCleanupTimeout = 0\<rparr>"


section \<open>Startup hold\<close>

lemma leftoverProgress_fold:
  "fst (fold (\<lambda>inst (remaining, deleting).
       if \<not> Leftover inst \<or> Phase inst = PhaseDeleted then (remaining, deleting)
       else (remaining + 1, if Phase inst = PhaseDeleting then deleting + 1 else deleting)) xs (a, b)) =
     a + length (filter (\<lambda>i. Leftover i \<and> Phase i \<noteq> PhaseDeleted) xs)"
  by (induction xs arbitrary: a b) auto

lemma leftoverProgress_remaining: "fst (leftoverProgress s) = LeftoverCount s"
  using leftoverProgress_fold [of "GetAll s" 0 0] by (simp add: leftoverProgress_def LeftoverCount_eq)

text \<open>
  A cycle ends the startup hold exactly if the group has been listed completely, now or in an earlier
  cycle, and no leftover remains or the cleanup timeout, counted from that first complete listing, has
  passed. An ended hold never begins again.
\<close>

lemma startup_hold_ends:
  "startupHold (updateStartupHold clk ok r) \<longleftrightarrow>
     startupHold r \<and>
     \<not> ((ok \<or> startupPolled r) \<and>
         (LeftoverCount (store r) = 0 \<or>
          StartupCleanupTimeout (config r) \<le> time_sub (clk 3) (if startupPolled r then startedAt r else clk 0)))"
proof -
  obtain remaining deleting where p: "leftoverProgress (store r) = (remaining, deleting)" by fastforce
  then have "remaining = LeftoverCount (store r)" using leftoverProgress_remaining [of "store r"] by simp
  then show ?thesis
    using p by (auto simp: updateStartupHold_def endStartupHold_def Let_def split: if_splits prod.splits)
qed

section \<open>Dispatching creates\<close>

lemma dispatchCreates_loop_fills:
  assumes "limiter_ok sem cur cap mc md (limiter r)" and av: "semaphore_available sem cur cap"
    and "\<And>n. \<not> paused (clk n) (Some (throttle r))"
  shows "goroutines (dispatchCreates_loop sem clk is r) =
           goroutines r @ map (GoCreate \<circ> IntentID)
             (take (nat (min (min mc (opl_size (limiter r)) - createsInUse (limiter r))
                             (opl_size (limiter r) - createsInUse (limiter r) - deletesInUse (limiter r)))) is)"
  using assms(1,3)
proof (induction "is" arbitrary: r clk)
  case (Cons i "is")
  let ?l = "limiter r"
  obtain b l' where acq: "tryAcquire sem (clk 0) (Some (throttle r)) opCreate ?l = (b, l')" by fastforce
  have b: "b \<longleftrightarrow> createsInUse ?l < min mc (opl_size ?l) \<and> createsInUse ?l + deletesInUse ?l < opl_size ?l"
    using tryAcquire_iff [OF Cons.prems(1) av, of "clk 0" "Some (throttle r)" opCreate] acq Cons.prems(2) [of 0]
    by (simp add: kind_limit_def)
  show ?case
  proof (cases b)
    case True
    note T = tryAcquire_True [OF Cons.prems(1), of "clk 0" "Some (throttle r)" opCreate l']
    have ok': "limiter_ok sem cur cap mc md l'" and sz: "opl_size l' = opl_size ?l"
      and c: "createsInUse l' = createsInUse ?l + 1" and d: "deletesInUse l' = deletesInUse ?l"
      using T(1) T(2) T(3) [of opDelete] T(4) acq True by simp_all
    obtain r' where body: "dispatchCreates_body sem clk i r = (True, r')" and r': "limiter r' = l'"
      "throttle r' = throttle r" "goroutines r' = goroutines r @ [GoCreate (IntentID i)]"
      using acq True by (simp add: dispatchCreates_body_def Let_def)
    let ?n = "min (min mc (opl_size ?l) - createsInUse ?l) (opl_size ?l - createsInUse ?l - deletesInUse ?l)"
    have n: "min (min mc (opl_size l') - createsInUse l') (opl_size l' - createsInUse l' - deletesInUse l') = ?n - 1"
      by (simp add: sz c d min_def)
    have "0 < ?n" using True b by simp
    then have m: "nat ?n = Suc (nat (?n - 1))" by linarith
    have "limiter_ok sem cur cap mc md (limiter r')" "\<And>n. \<not> paused (clk (n + 3)) (Some (throttle r'))"
      unfolding r' by (rule ok', rule Cons.prems(2))
    note IH = Cons.IH [OF this, unfolded r' n]
    have "goroutines (dispatchCreates_loop sem clk (i # is) r) =
        goroutines (dispatchCreates_loop sem (\<lambda>n. clk (n + 3)) is r')" by (simp add: body)
    also have "\<dots> = goroutines r @ map (GoCreate \<circ> IntentID) (take (Suc (nat (?n - 1))) (i # is))"
      unfolding IH by simp
    finally show ?thesis unfolding m .
  next
    case False
    then have "nat (min (min mc (opl_size ?l) - createsInUse ?l) (opl_size ?l - createsInUse ?l - deletesInUse ?l)) = 0"
      using b by linarith
    then show ?thesis using False acq by (simp add: dispatchCreates_body_def Let_def)
  qed
qed simp


definition demo_two :: "(int \<times> int, duration) vcdInstanceGroup" where
  "demo_two = demo_group\<lparr>startupHold := False,
     store := AddCreateIntent 2 ''b'' (AddCreateIntent 1 ''a'' (store demo_group)),
     limiter := newOpLimiter counting_sem 1 3 5\<rparr>"


section \<open>Failed creates\<close>



text \<open>
  The name of a failed create stays queued for cleanup until vCD confirms: it is forgotten only when
  the cleanup deleted the vApp, or found none at least 5 min after the cleanup was first asked for; any
  other error and a panic keep it, and other names are not touched. The cleanup can be dispatched again
  afterwards.
\<close>

lemma cleanup_kept_until_confirmed:
  "map_of (failedCreateCleanups (finishCleanup lib now out n t r)) m =
     (if m = n \<and>
         (out = CleanupReturned None \<or>
          (\<exists>e. out = CleanupReturned (Some e) \<and> errors_Is e ErrorEntityNotFound \<and> t + 300000000000 \<le> now))
      then None else map_of (failedCreateCleanups r) m) \<and>
   cleanupKey n \<notin> set (backgroundDeletes (finishCleanup lib now out n t r))"
proof -
  have "safeCallMaxElapsedTime \<le> time_sub now t \<longleftrightarrow> t + 300000000000 \<le> now"
    using time_sub_ge_iff [of 300000000000 now t]
    by (simp add: safeCallMaxElapsedTime_def time_consts min_duration_def max_duration_def)
  then show ?thesis
    by (auto simp: finishCleanup_def cleanup_done_def Let_def split: cleanup_outcome.splits option.splits)
qed

end
