(* ===== verification/System_Steps.thy ===== *)
theory System_Steps
  imports System_Inv
begin

text \<open>Every step keeps the invariant: the steps of the cycle first, then those of the other goroutines.\<close>

section \<open>The initial state\<close>

lemma sys_init_inv:
  assumes doc: "semaphore_documented sem cur cap" and ex: "distinct (map fst existing)" "[] \<notin> fst ` set existing"
  shows "sys_inv sem cur cap (withDefaults cfg) (sys_init sem lib now grp cfg existing)"
proof -
  have pos: "0 < MaxConcurrentOperations (withDefaults cfg)" "0 < MaxConcurrentCreates (withDefaults cfg)"
    "0 < MaxConcurrentDeletes (withDefaults cfg)"
    by (simp_all add: withDefaults_def Let_def time_consts)
  let ?l = "newOpLimiter sem (MaxConcurrentOperations (withDefaults cfg)) (MaxConcurrentCreates (withDefaults cfg))
     (MaxConcurrentDeletes (withDefaults cfg))"
  have "inUse k ?l = 0" for k by (cases k) (simp_all add: newOpLimiter_def)
  then have "slots_inv sem cur cap (withDefaults cfg) ?l {#}"
    using newOpLimiter_ok [OF doc, of "MaxConcurrentOperations (withDefaults cfg)"] pos
    by (simp add: slots_inv_def) (simp add: newOpLimiter_def)
  moreover have "GetByIntentID (newDesiredStateStore grp) = Map.empty"
    by (simp add: fun_eq_iff GetByIntentID_def newDesiredStateStore_def)
  ultimately show ?thesis
    using ex unfolding sys_init_def newVCDInstanceGroup_def Let_def
    by (intro sys_invI) (simp_all add: insts_inv_def names_inv_def cleanups_inv_def hold_inv_def)
qed

section \<open>Shapes of steps\<close>

lemma inv_pc:
  assumes "sys_inv sem cur cap cfg \<sigma>"
    and "pc_ok (GetByIntentID (sys_store \<sigma>)) (set (inflightCreates (rcl \<sigma>))) (fail_names (rcl \<sigma>))
      (set (vapps \<sigma>)) (set (used_ids \<sigma>)) p"
    and "startupHold (rcl \<sigma>) \<Longrightarrow> \<not> in_creates p"
  shows "sys_inv sem cur cap cfg (\<sigma>\<lparr>pc := p\<rparr>)"
  using sys_invD [OF assms(1)] assms(2,3) by (auto simp: sys_inv_def Let_def hold_inv_def)

lemma inv_store:
  assumes "sys_inv sem cur cap cfg \<sigma>" and "index_inv (f (sys_store \<sigma>))"
    and "insts_inv (GetByIntentID (f (sys_store \<sigma>))) (gos (rcl \<sigma>)) (set (vapps \<sigma>)) (set (used_ids \<sigma>))"
    and "pc_ok (GetByIntentID (f (sys_store \<sigma>))) (set (inflightCreates (rcl \<sigma>))) (fail_names (rcl \<sigma>))
      (set (vapps \<sigma>)) (set (used_ids \<sigma>)) p"
    and "startupHold (rcl \<sigma>) \<Longrightarrow> \<not> in_creates p"
  shows "sys_inv sem cur cap cfg (upd_store f (\<sigma>\<lparr>pc := p\<rparr>))"
  using sys_invD [OF assms(1)] assms(2-5) by (auto simp: sys_inv_def Let_def hold_inv_def upd_store_def)

text \<open>A step given by the new state of the reconciler, each part shown on its own.\<close>

lemma inv_step_parts:
  assumes "index_inv (store r)" and "insts_inv (GetByIntentID (store r)) (gos r) (set (vapps \<sigma>)) (set (used_ids \<sigma>))"
    and "names_inv (gos r) (set (inflightCreates r)) (vapps \<sigma>) (set (used_ids \<sigma>)) (set (used_names \<sigma>))"
    and "pc_ok (GetByIntentID (store r)) (set (inflightCreates r)) (fail_names r) (set (vapps \<sigma>)) (set (used_ids \<sigma>)) p"
    and "slots_inv sem cur cap cfg (limiter r) (gos r)" and "config r = cfg"
    and "cleanups_inv (set (backgroundDeletes r)) (gos r)" and "hold_inv (startupHold r) p (gos r)"
  shows "sys_inv sem cur cap cfg (\<sigma>\<lparr>rcl := r, pc := p\<rparr>)"
  using assms by (simp add: sys_inv_def)

text \<open>Fields of the reconciler that the invariant does not mention.\<close>

lemma inv_rcl:
  assumes "sys_inv sem cur cap cfg \<sigma>"
    and "store r = sys_store \<sigma>" "goroutines r = goroutines (rcl \<sigma>)" "inflightCreates r = inflightCreates (rcl \<sigma>)"
      "failedCreateCleanups r = failedCreateCleanups (rcl \<sigma>)" "limiter r = limiter (rcl \<sigma>)"
      "config r = config (rcl \<sigma>)" "backgroundDeletes r = backgroundDeletes (rcl \<sigma>)"
      "startupHold r \<longrightarrow> startupHold (rcl \<sigma>)"
  shows "sys_inv sem cur cap cfg (\<sigma>\<lparr>rcl := r\<rparr>)"
  using sys_invD [OF assms(1)] assms(2-) by (auto simp: sys_inv_def Let_def hold_inv_def)

lemma gos_move:
  assumes "g \<in> set (goroutines r)"
  obtains M0 where "gos r = add_mset g M0" "gos (move g gs r) = mset gs + M0"
proof
  show "gos r = add_mset g (gos r - {#g#})" using assms by simp
  show "gos (move g gs r) = mset gs + (gos r - {#g#})" using assms by (simp add: move_def add.commute)
qed

section \<open>The poll\<close>

lemma GetPendingCreates_pc:
  assumes "index_inv s"
  shows "pc_ok (GetByIntentID s) infl fails V ids (PcCreatesLoop (GetPendingCreates now s))"
proof -
  have "distinct (map IntentID (GetPendingCreates now s))"
    using GetAll_distinct [OF assms] by (simp add: GetPendingCreates_def distinct_map_filter)
  moreover have "GetByIntentID s (IntentID i) = Some i \<and> Phase i = PhasePendingCreate"
    if "i \<in> set (GetPendingCreates now s)" for i
    using that GetAll_iff [OF assms] by (auto simp: GetPendingCreates_def)
  ultimately show ?thesis by auto
qed

lemma GetPendingDeletes_pc:
  assumes inv: "index_inv s" and I: "insts_inv (GetByIntentID s) M V ids"
  shows "pc_ok (GetByIntentID s) infl fails V ids (PcDeletesLoop (GetPendingDeletes now s))"
proof -
  have "ID i \<in> fst ` V \<and> (IntentID i \<in> ids \<or> IntentID i = ID i) \<and>
      (\<forall>j. GetByIntentID s (IntentID i) = Some j \<longrightarrow> doomed j \<and> ID j = ID i)"
    if "i \<in> set (GetPendingDeletes now s)" for i
  proof -
    have i: "GetByIntentID s (IntentID i) = Some i" and ph: "Phase i = PhasePendingDelete"
      using that GetAll_iff [OF inv] by (auto simp: GetPendingDeletes_def)
    note iok = insts_invD(1) [OF I i]
    have dm: "doomed i" using iokD(1) [OF iok] ph by (simp add: inst_ok_def)
    then have "ID i \<in> fst ` V" using iokD(3) [OF iok] by (force simp: doomed_def)
    moreover have "IntentID i \<in> ids \<or> IntentID i = ID i" using tracked_key [OF inv I i] by metis
    ultimately show ?thesis using dm unfolding i by blast
  qed
  then show ?thesis unfolding pc_ok.simps by blast
qed

lemma poll_add_inv:
  assumes inv: "sys_inv sem cur cap cfg \<sigma>" and pc: "pc \<sigma> = PcAdd v vs known ok"
  shows "sys_inv sem cur cap cfg
      (upd_store (\<lambda>s. snd (AddLeftover now (vapp_HREF v) (vapp_Name v) s)) (\<sigma>\<lparr>pc := PcPoll vs known ok\<rparr>))"
proof -
  note I = sys_invD [OF inv]
  have v: "(vapp_HREF v, vapp_Name v) \<in> set (vapps \<sigma>)" "vapp_Name v \<notin> set (inflightCreates (rcl \<sigma>))"
    using I(4) by (auto simp: pc)
  have "vapp_HREF v \<in> hrefs \<sigma>" using v(1) by force
  then have h: "vapp_HREF v \<notin> set (used_ids \<sigma>)" "vapp_HREF v \<noteq> []"
    using I(3) unfolding names_inv_def by (blast, metis)
  have "vapp_Name v \<notin># active (gos (rcl \<sigma>))"
    using active_holds [of "vapp_Name v" "gos (rcl \<sigma>)"] I(3) v(2) unfolding names_inv_def by blast
  note add = AddLeftover_insts [OF I(1,2) v(1) h this]
  show ?thesis using inv add I(4) by (intro inv_store) (simp_all add: pc)
qed

section \<open>Dispatching\<close>

lemma slots_acquired:
  assumes S: "slots_inv sem cur cap cfg l M" and acq: "tryAcquire sem now gate kind l = (True, l')"
    and g: "g_kind g = kind"
  shows "slots_inv sem cur cap cfg l' (add_mset g M)"
proof -
  have ok: "limiter_ok sem cur cap (MaxConcurrentCreates cfg) (MaxConcurrentDeletes cfg) l"
    using S by (simp add: slots_inv_def)
  note T = tryAcquire_True [OF ok acq]
  have "inUse k l' = int (running k (add_mset g M))" for k
    using S T(2) T(3) [of k] g by (cases "k = kind") (auto simp: slots_inv_def)
  then show ?thesis using S T(1,4) by (simp add: slots_inv_def)
qed

lemma slots_refused:
  assumes S: "slots_inv sem cur cap cfg l M" and acq: "tryAcquire sem now gate kind l = (False, l')"
  shows "slots_inv sem cur cap cfg l' M"
proof -
  have ok: "limiter_ok sem cur cap (MaxConcurrentCreates cfg) (MaxConcurrentDeletes cfg) l"
    using S by (simp add: slots_inv_def)
  show ?thesis using S tryAcquire_False [OF ok acq] by (simp add: slots_inv_def)
qed

lemma slots_released:
  assumes S: "slots_inv sem cur cap cfg l (add_mset (GoRelease kind) M)"
  shows "slots_inv sem cur cap cfg (release sem kind l) M"
proof -
  have ok: "limiter_ok sem cur cap (MaxConcurrentCreates cfg) (MaxConcurrentDeletes cfg) l"
    and held: "0 < inUse kind l"
    using S by (simp_all add: slots_inv_def)
  have "inUse k (release sem kind l) = int (running k M)" for k
    using S release_ok(2,3) [OF ok held] by (cases "k = kind") (auto simp: slots_inv_def)
  then show ?thesis using S release_ok(1,4) [OF ok held] by (simp add: slots_inv_def)
qed

lemma slots_same: "slots_inv sem cur cap cfg l (add_mset g M) \<Longrightarrow> g_kind g' = g_kind g \<Longrightarrow>
    slots_inv sem cur cap cfg l (add_mset g' M)"
  by (simp add: slots_inv_def)

text \<open>Parts of the invariant that a goroutine's move leaves alone when what it holds stays the same.\<close>

lemma names_same: "names_inv M infl V ids names \<Longrightarrow> holds M' = holds M \<Longrightarrow> names_inv M' infl V ids names"
  by (simp add: names_inv_def)

lemma cleanups_same: "cleanups_inv bg M \<Longrightarrow> cleaning M' = cleaning M \<Longrightarrow> cleanups_inv bg M'"
  by (simp add: cleanups_inv_def)

lemma hold_same: "hold_inv held p M \<Longrightarrow> running opCreate M' = running opCreate M \<Longrightarrow> hold_inv held p M'"
  by (simp add: hold_inv_def)

lemmas keep_parts = names_same cleanups_same hold_same slots_same

lemma creates_go_inv:
  assumes inv: "sys_inv sem cur cap cfg \<sigma>" and pc: "pc \<sigma> = PcCreatesLoop (i # is)"
    and body: "dispatchCreates_body sem clk i (rcl \<sigma>) = (True, r')"
  shows "sys_inv sem cur cap cfg (\<sigma>\<lparr>rcl := r', pc := PcCreatesLoop is\<rparr>)"
proof -
  note I = sys_invD [OF inv]
  let ?k = "IntentID i" and ?r = "rcl \<sigma>" and ?s = "sys_store \<sigma>"
  let ?fn = "mark_creating (clk 1)"
  obtain l' where acq: "tryAcquire sem (clk 0) (Some (throttle ?r)) opCreate (limiter ?r) = (True, l')"
    and r': "r' = ?r\<lparr>limiter := l', store := UpdateInstance (clk 2) ?k ?fn ?s, goroutines := goroutines ?r @ [GoCreate ?k]\<rparr>"
    using body by (auto simp: dispatchCreates_body_def Let_def split: prod.splits bool.splits)
  obtain j where j: "GetByIntentID ?s ?k = Some j" "Phase j = PhasePendingCreate"
    using I(4) by (auto simp: pc)
  have pre: "update_pre ?k ?fn ?s" by (rule update_pre_keep [OF I(1)]) simp_all
  have st: "store r' = UpdateInstance (clk 2) ?k ?fn ?s" by (simp add: r')
  have G': "GetByIntentID (store r') = (GetByIntentID ?s)(?k := map_option (stamp (clk 2) ?fn) (GetByIntentID ?s ?k))"
    unfolding st by (rule GetByIntentID_UpdateInstance [OF pre])
  have ix: "index_inv (store r')" unfolding st by (rule UpdateInstance_inv [OF pre])
  have M': "gos r' = add_mset (GoCreate ?k) (gos ?r)" by (simp add: r')
  have fld: "inflightCreates r' = inflightCreates ?r" "config r' = config ?r" "startupHold r' = startupHold ?r"
    "backgroundDeletes r' = backgroundDeletes ?r"
    by (simp_all add: r')
  have new: "?k \<notin># creating (gos ?r)" using iokD(4) [OF insts_invD(1) [OF I(2) j(1)]] j(2) by simp
  have insts: "insts_inv (GetByIntentID (store r')) (gos r') (set (vapps \<sigma>)) (set (used_ids \<sigma>))"
    unfolding G' M'
  proof (rule insts_update [OF I(2)])
    show "\<And>h. (?k, h) \<in># deleting (add_mset (GoCreate ?k) (gos ?r)) \<Longrightarrow>
        h \<in> hrefs \<sigma> \<and> (?k \<in> set (used_ids \<sigma>) \<or> ?k = h)"
      using insts_invD(4,5) [OF I(2), of ?k] by simp
    show "iok (set (vapps \<sigma>)) (set (used_ids \<sigma>)) (add_mset (GoCreate ?k) (gos ?r)) ?k (stamp (clk 2) ?fn x)"
      if "GetByIntentID ?s ?k = Some x" for x
      using iok_mark_creating [OF insts_invD(1) [OF I(2) that]] that j by simp
  qed (use new j(1) in \<open>simp_all add: not_in_iff\<close>)
  have pc': "pc_ok (GetByIntentID (store r')) infl fails V ids (PcCreatesLoop is)" for infl fails V ids
  proof -
    have "?k \<notin> IntentID ` set is" using I(4) by (simp add: pc)
    then have "\<forall>i' \<in> set is. IntentID i' \<noteq> ?k" by (metis imageI)
    then show ?thesis using I(4) unfolding G' by (simp add: pc)
  qed
  show ?thesis
  proof (rule inv_step_parts [OF ix insts _ pc'])
    show "slots_inv sem cur cap cfg (limiter r') (gos r')"
      unfolding M' using slots_acquired [OF I(5) acq, of "GoCreate ?k"] by (simp add: r')
  qed (use I(3,6,7,8) in \<open>simp_all add: M' fld names_inv_def cleanups_inv_def hold_inv_def pc\<close>)
qed

lemma deletes_go_inv:
  assumes inv: "sys_inv sem cur cap cfg \<sigma>" and pc: "pc \<sigma> = PcDeletesLoop (i # is)"
    and body: "dispatchDeletes_body sem clk i (rcl \<sigma>) = (True, r')"
  shows "sys_inv sem cur cap cfg (\<sigma>\<lparr>rcl := r', pc := PcDeletesLoop is\<rparr>)"
proof -
  note I = sys_invD [OF inv]
  let ?k = "IntentID i" and ?r = "rcl \<sigma>" and ?s = "sys_store \<sigma>" and ?h = "ID i"
  let ?fn = "mark_deleting (clk 1)"
  have h: "?h \<in> hrefs \<sigma>" "?k \<in> set (used_ids \<sigma>) \<or> ?k = ?h"
    and dm: "GetByIntentID ?s ?k = Some j \<Longrightarrow> doomed j \<and> ID j = ?h" for j
    using I(4) unfolding pc by auto
  have "?h \<noteq> []" using h(1) I(3) unfolding names_inv_def by metis
  then obtain l' where acq: "tryAcquire sem (clk 0) (Some (throttle ?r)) opDelete (limiter ?r) = (True, l')"
    and r': "r' = ?r\<lparr>limiter := l', store := UpdateInstance (clk 2) ?k ?fn ?s, goroutines := goroutines ?r @ [GoDelete ?k ?h]\<rparr>"
    using body by (auto simp: dispatchDeletes_body_def Let_def split: prod.splits bool.splits)
  have pre: "update_pre ?k ?fn ?s" by (rule update_pre_keep [OF I(1)]) simp_all
  have st: "store r' = UpdateInstance (clk 2) ?k ?fn ?s" by (simp add: r')
  have G': "GetByIntentID (store r') = (GetByIntentID ?s)(?k := map_option (stamp (clk 2) ?fn) (GetByIntentID ?s ?k))"
    unfolding st by (rule GetByIntentID_UpdateInstance [OF pre])
  have ix: "index_inv (store r')" unfolding st by (rule UpdateInstance_inv [OF pre])
  have M': "gos r' = add_mset (GoDelete ?k ?h) (gos ?r)" by (simp add: r')
  have fld: "inflightCreates r' = inflightCreates ?r" "config r' = config ?r" "startupHold r' = startupHold ?r"
    "backgroundDeletes r' = backgroundDeletes ?r"
    by (simp_all add: r')
  have insts: "insts_inv (GetByIntentID (store r')) (gos r') (set (vapps \<sigma>)) (set (used_ids \<sigma>))"
    unfolding G' M'
  proof (rule insts_update [OF I(2)])
    show "\<And>h'. (?k, h') \<in># deleting (add_mset (GoDelete ?k ?h) (gos ?r)) \<Longrightarrow>
        h' \<in> hrefs \<sigma> \<and> (?k \<in> set (used_ids \<sigma>) \<or> ?k = h')"
      using h insts_invD(4,5) [OF I(2), of ?k] by auto
    show "iok (set (vapps \<sigma>)) (set (used_ids \<sigma>)) (add_mset (GoDelete ?k ?h) (gos ?r)) ?k (stamp (clk 2) ?fn x)"
      if "GetByIntentID ?s ?k = Some x" for x
      using iok_mark_deleting [OF insts_invD(1) [OF I(2) that]] dm [OF that] by metis
  qed (use insts_invD(2,3) [OF I(2)] in simp_all)
  have pc': "pc_ok (GetByIntentID (store r')) infl fails (set (vapps \<sigma>)) (set (used_ids \<sigma>)) (PcDeletesLoop is)" for infl fails
    unfolding G'
  proof (rule pc_update)
    show "pc_ok (GetByIntentID ?s) infl fails (set (vapps \<sigma>)) (set (used_ids \<sigma>)) (PcDeletesLoop is)"
      using I(4) unfolding pc pc_ok.simps list.set by blast
    show "Phase j \<noteq> PhasePendingCreate" if "GetByIntentID ?s ?k = Some j" for j
      using dm [OF that] by (auto simp: doomed_def)
    show "doomed (stamp (clk 2) ?fn j) \<and> ID (stamp (clk 2) ?fn j) = ID j" if "doomed j" for j
      using that by (auto simp: stamp_def doomed_def)
  qed
  show ?thesis
  proof (rule inv_step_parts [OF ix insts _ pc'])
    show "slots_inv sem cur cap cfg (limiter r') (gos r')"
      unfolding M' using slots_acquired [OF I(5) acq, of "GoDelete ?k ?h"] by (simp add: r')
  qed (use I(3,6,7,8) in \<open>simp_all add: M' fld names_inv_def cleanups_inv_def hold_inv_def pc\<close>)
qed

lemma inv_limiter:
  assumes "sys_inv sem cur cap cfg \<sigma>" and "tryAcquire sem now gate kind (limiter (rcl \<sigma>)) = (False, l')"
  shows "sys_inv sem cur cap cfg (\<sigma>\<lparr>rcl := (rcl \<sigma>)\<lparr>limiter := l'\<rparr>\<rparr>)"
  using assms slots_refused [OF sys_invD(5) [OF assms(1)] assms(2)] by (simp add: sys_inv_def Let_def)

lemma creates_stop_inv:
  assumes inv: "sys_inv sem cur cap cfg \<sigma>" and body: "dispatchCreates_body sem clk i (rcl \<sigma>) = (False, r')"
  shows "sys_inv sem cur cap cfg (\<sigma>\<lparr>rcl := r', pc := PcDeletes\<rparr>)"
proof -
  obtain l' where "tryAcquire sem (clk 0) (Some (throttle (rcl \<sigma>))) opCreate (limiter (rcl \<sigma>)) = (False, l')"
    "r' = (rcl \<sigma>)\<lparr>limiter := l'\<rparr>"
    using body by (auto simp: dispatchCreates_body_def Let_def split: prod.splits bool.splits)
  then show ?thesis using inv_limiter [OF inv] by (intro inv_pc) simp_all
qed

lemma deletes_stop_inv:
  assumes inv: "sys_inv sem cur cap cfg \<sigma>" and body: "dispatchDeletes_body sem clk i (rcl \<sigma>) = (False, r')"
  shows "sys_inv sem cur cap cfg (\<sigma>\<lparr>rcl := r', pc := PcCleanups\<rparr>)"
proof -
  obtain l' where "tryAcquire sem (clk 0) (Some (throttle (rcl \<sigma>))) opDelete (limiter (rcl \<sigma>)) = (False, l')"
    "r' = (rcl \<sigma>)\<lparr>limiter := l'\<rparr>"
    using body by (auto simp: dispatchDeletes_body_def Let_def split: prod.splits bool.splits if_splits)
  then show ?thesis using inv_limiter [OF inv] by (intro inv_pc) simp_all
qed

lemma cleanupKey_inject [simp]: "cleanupKey n = cleanupKey m \<longleftrightarrow> n = m"
  by (simp add: cleanupKey_def)

lemma cleanups_inv_add:
  assumes "cleanups_inv bg M" and "cleanupKey n \<notin> bg"
  shows "cleanups_inv (insert (cleanupKey n) bg) (add_mset (GoCleanup n t) M)"
proof -
  have "n \<notin># cleaning M" using assms by (auto simp: cleanups_inv_def)
  then show ?thesis using assms by (auto simp: cleanups_inv_def not_in_iff)
qed

lemma cleanups_inv_remove:
  assumes "cleanups_inv bg (add_mset (GoCleanup n t) M)" and "g_cleaning g = []"
  shows "cleanups_inv (bg - {cleanupKey n}) (add_mset g M)"
proof -
  have "count (cleaning (add_mset (GoCleanup n t) M)) n \<le> 1" using assms(1) unfolding cleanups_inv_def by blast
  then have n: "n \<notin># cleaning M" by (simp add: not_in_iff)
  have "count (cleaning M) m \<le> 1" for m
  proof -
    have "count (cleaning (add_mset (GoCleanup n t) M)) m \<le> 1" using assms(1) unfolding cleanups_inv_def by blast
    then show ?thesis by (simp split: if_splits)
  qed
  moreover have "bg = insert (cleanupKey n) (cleanupKey ` set_mset (cleaning M))"
    using assms(1) by (simp add: cleanups_inv_def)
  then have "bg - {cleanupKey n} = cleanupKey ` set_mset (cleaning M)" using n by auto
  ultimately show ?thesis using assms(2) by (simp add: cleanups_inv_def)
qed

lemma cleanups_body_inv:
  assumes inv: "sys_inv sem cur cap cfg \<sigma>" and pc: "pc \<sigma> = PcCleanups"
    and body: "dispatchCreateCleanups_body sem now e (rcl \<sigma>) = (b, r')"
  shows "sys_inv sem cur cap cfg (\<sigma>\<lparr>rcl := r'\<rparr>)"
proof -
  note I = sys_invD [OF inv]
  let ?r = "rcl \<sigma>" and ?n = "fst e"
  obtain c l' where acq: "tryAcquire sem now (Some (throttle ?r)) opDelete (limiter ?r) = (c, l')" by fastforce
  consider (busy) "r' = ?r"
    | (refused) "cleanupKey ?n \<notin> set (backgroundDeletes ?r)" "c = False" "r' = ?r\<lparr>limiter := l'\<rparr>"
    | (started) "cleanupKey ?n \<notin> set (backgroundDeletes ?r)" "c = True"
        "r' = ?r\<lparr>limiter := l', backgroundDeletes := cleanupKey ?n # backgroundDeletes ?r,
                goroutines := goroutines ?r @ [GoCleanup ?n (snd e)]\<rparr>"
    using body acq
    by (cases c; cases "cleanupKey ?n \<in> set (backgroundDeletes ?r)")
      (auto simp: dispatchCreateCleanups_body_def Let_def removeAll_id)
  then show ?thesis
  proof cases
    case busy
    then show ?thesis using inv by simp
  next
    case refused
    then show ?thesis using inv_limiter [OF inv] acq by simp
  next
    case started
    have M': "gos r' = add_mset (GoCleanup ?n (snd e)) (gos ?r)" by (simp add: started)
    have slots: "slots_inv sem cur cap cfg (limiter r') (gos r')"
      unfolding M' using slots_acquired [OF I(5), of now _ opDelete l' "GoCleanup ?n (snd e)"] acq started by simp
    have "sys_inv sem cur cap cfg (\<sigma>\<lparr>rcl := r', pc := pc \<sigma>\<rparr>)"
    proof (rule inv_step_parts [OF _ _ _ _ slots])
      show "cleanups_inv (set (backgroundDeletes r')) (gos r')"
        unfolding M' using cleanups_inv_add [OF I(7) started(1)] by (simp add: started(3))
      show "insts_inv (GetByIntentID (store r')) (gos r') (set (vapps \<sigma>)) (set (used_ids \<sigma>))"
        unfolding M' using I(2) by (simp add: insts_inv_def iok_def started(3))
    qed (use I in \<open>simp_all add: started(3) names_inv_def hold_inv_def pc\<close>)
    then show ?thesis by simp
  qed
qed

section \<open>Every step of the cycle keeps the invariant\<close>

lemma updateStartupHold_fields:
  "store (updateStartupHold clk ok r) = store r" "goroutines (updateStartupHold clk ok r) = goroutines r"
  "inflightCreates (updateStartupHold clk ok r) = inflightCreates r"
  "failedCreateCleanups (updateStartupHold clk ok r) = failedCreateCleanups r"
  "limiter (updateStartupHold clk ok r) = limiter r" "config (updateStartupHold clk ok r) = config r"
  "backgroundDeletes (updateStartupHold clk ok r) = backgroundDeletes r"
  "startupHold (updateStartupHold clk ok r) \<longrightarrow> startupHold r"
  by (simp_all add: updateStartupHold_def endStartupHold_def Let_def split: prod.split)

lemma publishStatus_fields:
  "store (publishStatus clk t e r) = store r" "goroutines (publishStatus clk t e r) = goroutines r"
  "inflightCreates (publishStatus clk t e r) = inflightCreates r"
  "failedCreateCleanups (publishStatus clk t e r) = failedCreateCleanups r"
  "limiter (publishStatus clk t e r) = limiter r" "config (publishStatus clk t e r) = config r"
  "backgroundDeletes (publishStatus clk t e r) = backgroundDeletes r"
  "startupHold (publishStatus clk t e r) \<longrightarrow> startupHold r"
  by (simp_all add: publishStatus_def Let_def split: prod.split)

lemma hold_step_inv:
  assumes "sys_inv sem cur cap cfg \<sigma>"
  shows "sys_inv sem cur cap cfg (\<sigma>\<lparr>rcl := updateStartupHold clk ok (rcl \<sigma>), pc := PcCreates\<rparr>)"
  by (rule inv_pc, rule inv_rcl [OF assms]) (simp_all add: updateStartupHold_fields)

lemma cycle_end_inv:
  assumes inv: "sys_inv sem cur cap cfg \<sigma>"
  shows "sys_inv sem cur cap cfg
     (\<sigma>\<lparr>rcl := publishStatus clk t e ((rcl \<sigma>)\<lparr>store := Prune now (sys_store \<sigma>)\<rparr>), pc := PcIdle\<rparr>)"
proof -
  have "sys_inv sem cur cap cfg (upd_store (Prune now) (\<sigma>\<lparr>pc := PcIdle\<rparr>))"
    using sys_invD(1,2) [OF inv] by (intro inv_store inv) (simp_all add: Prune_refines(1) Prune_insts)
  then have "sys_inv sem cur cap cfg ((upd_store (Prune now) (\<sigma>\<lparr>pc := PcIdle\<rparr>))
      \<lparr>rcl := publishStatus clk t e (rcl (upd_store (Prune now) (\<sigma>\<lparr>pc := PcIdle\<rparr>)))\<rparr>)"
    by (rule inv_rcl) (simp_all add: publishStatus_fields)
  then show ?thesis by (cases \<sigma>) (simp add: upd_store_def)
qed

lemma poll_update_inv:
  assumes inv: "sys_inv sem cur cap cfg \<sigma>" and pc: "pc \<sigma> = PcUpd v vs known ok"
  shows "sys_inv sem cur cap cfg (upd_store (\<lambda>s. snd (UpdateFromVCD now (vapp_HREF v) (vapp_Name v) vm ip vas vms os s))
     (\<sigma>\<lparr>pc := PcPoll vs known ok\<rparr>))"
proof -
  note I = sys_invD [OF inv]
  have "pc_ok (GetByIntentID (sys_store \<sigma>)) (set (inflightCreates (rcl \<sigma>))) (fail_names (rcl \<sigma>))
      (set (vapps \<sigma>)) (set (used_ids \<sigma>)) (PcPoll vs known ok)"
    using I(4) by (simp add: pc)
  then show ?thesis
    by (intro inv_store inv observe.calm_insts observe.calm_pc I(1,2) UpdateFromVCD_refines(1)) simp_all
qed

lemma breaker_noted_inv:
  assumes "sys_inv sem cur cap cfg \<sigma>"
  shows "sys_inv sem cur cap cfg (\<sigma>\<lparr>rcl := (rcl \<sigma>)\<lparr>cbLoggedActive := True\<rparr>, pc := PcDeletes\<rparr>)"
proof -
  have "sys_inv sem cur cap cfg (\<sigma>\<lparr>rcl := (rcl \<sigma>)\<lparr>cbLoggedActive := True\<rparr>\<rparr>)" by (rule inv_rcl [OF assms]) simp_all
  then show ?thesis by (rule inv_pc) simp_all
qed

lemma cycle_step_inv:
  assumes inv: "sys_inv sem cur cap cfg \<sigma>" and step: "cycle_step sem \<sigma> \<sigma>'"
  shows "sys_inv sem cur cap cfg \<sigma>'"
proof -
  note I = sys_invD [OF inv]
  from step show ?thesis
  proof (cases rule: cycle_step.cases)
    case (poll_update v vs known ok now vm ip vas vms os)
    then show ?thesis using poll_update_inv [OF inv] by simp
  next
    case (poll_mark known ok now)
    then show ?thesis
      by (simp only:) (intro inv_store inv disappear.calm_insts I(1,2) MarkDisappeared_refines(1); simp)
  next
    case (gc_mark i "is" now)
    then show ?thesis
      by (simp only:) (intro inv_store inv mark_gc.calm_insts I(1,2) MarkGC_refines(1); simp)
  next
    case (creates_list now now')
    show ?thesis
      unfolding creates_list(1) by (rule inv_pc [OF inv GetPendingCreates_pc [OF I(1)]]) (use creates_list in simp)
  next
    case (deletes_list now)
    show ?thesis
      unfolding deletes_list(1) by (rule inv_pc [OF inv GetPendingDeletes_pc [OF I(1,2)]]) simp
  next
    case (creates_breaker now)
    then show ?thesis using breaker_noted_inv [OF inv] by simp
  next
    case (cleanups_stop e now r')
    then show ?thesis using cleanups_body_inv [OF inv] by (simp only:) (intro inv_pc; simp)
  next
    case (poll_add v vs known ok now)
    then show ?thesis using poll_add_inv [OF inv] by simp
  next
    case (hold ok clk)
    then show ?thesis using hold_step_inv [OF inv] by simp
  next
    case (creates_go i "is" clk r')
    then show ?thesis using creates_go_inv [OF inv] by simp
  next
    case (creates_stop i "is" clk r')
    then show ?thesis using creates_stop_inv [OF inv] by simp
  next
    case (deletes_go i "is" clk r')
    then show ?thesis using deletes_go_inv [OF inv] by simp
  next
    case (deletes_stop i "is" clk r')
    then show ?thesis using deletes_stop_inv [OF inv] by simp
  next
    case (cleanups_go e now r')
    then show ?thesis using cleanups_body_inv [OF inv] by simp
  next
    case (cycle_end now clk started pollErr)
    then show ?thesis using cycle_end_inv [OF inv] by simp
  qed (use I(4) in \<open>simp_all only:, (intro inv_pc inv; auto)+\<close>)
qed

end
