(* ===== verification/System_Workers.thy ===== *)
theory System_Workers
  imports System_Steps
begin

text \<open>
  The steps of the create, delete and cleanup goroutines, of fleeting and of vCD keep the invariant;
  so it holds in every reachable state.
\<close>

section \<open>Moves that leave the store alone\<close>

lemma insts_same:
  assumes "insts_inv G M V ids" and "creating M' = creating M" and "deleting M' = deleting M"
    and "\<And>n. n \<in># active M' \<Longrightarrow> n \<in># active M \<or> n \<notin> snd ` V"
  shows "insts_inv G M' V ids"
proof -
  have "iok V ids M' k i" if "iok V ids M k i" for k i
    using that assms(2-4) unfolding iok_def by (metis imageI snd_conv)
  then show ?thesis using assms(1-3) unfolding insts_inv_def by metis
qed

lemma pc_ok_mono:
  assumes pc: "pc_ok G infl fails V ids p" and infl: "\<And>n. n \<in> snd ` V \<Longrightarrow> n \<in> infl' \<Longrightarrow> n \<in> infl"
    and fails: "\<And>n. n \<in> snd ` V \<Longrightarrow> n \<notin> infl \<Longrightarrow> n \<in> fails' \<Longrightarrow> n \<in> fails"
  shows "pc_ok G infl' fails' V ids p"
proof (cases p)
  case (PcOwn2 v vs known ok)
  then show ?thesis using pc infl [of "vapp_Name v"] by force
next
  case (PcAdd v vs known ok)
  then show ?thesis using pc infl [of "vapp_Name v"] fails [of "vapp_Name v"] by force
next
  case (PcDeletesLoop "is")
  then show ?thesis using pc unfolding PcDeletesLoop pc_ok.simps by blast
qed (use pc in simp_all)

lemma names_drop:
  assumes N: "names_inv (add_mset g M) infl V ids names" and g: "g_holds g = [n]" "g_holds g' = []"
  shows "names_inv (add_mset g' M) (infl - {n}) V ids names"
proof -
  have cnt: "count (holds (add_mset g M)) m \<le> 1" for m using N unfolding names_inv_def by blast
  have "n \<notin># holds M" using cnt [of n] g(1) by (simp add: not_in_iff)
  then have "set_mset (holds (add_mset g' M)) \<subseteq> infl - {n}" using N g by (auto simp: names_inv_def)
  moreover have "count (holds M) m \<le> 1" for m using cnt [of m] g(1) by (simp split: if_splits)
  ultimately show ?thesis using N g by (auto simp: names_inv_def)
qed

text \<open>A goroutine moves on without touching the store or the limiter.\<close>

lemma inv_move:
  assumes inv: "sys_inv sem cur cap cfg \<sigma>" and g: "g \<in> set (goroutines (rcl \<sigma>))"
    and gs: "goroutines r = goroutines (move g [g'] (rcl \<sigma>))"
    and fld: "store r = sys_store \<sigma>" "limiter r = limiter (rcl \<sigma>)" "config r = config (rcl \<sigma>)"
      "startupHold r = startupHold (rcl \<sigma>)"
    and like: "g_kind g' = g_kind g" "g_creating g' = g_creating g" "g_deleting g' = g_deleting g"
      "set (g_active g') \<subseteq> set (g_active g)"
    and names: "\<And>M infl ids names. names_inv (add_mset g M) (set (inflightCreates (rcl \<sigma>))) (vapps \<sigma>) ids names \<Longrightarrow>
      names_inv (add_mset g' M) (set (inflightCreates r)) (vapps \<sigma>) ids names"
    and infl: "set (inflightCreates r) \<subseteq> set (inflightCreates (rcl \<sigma>))"
    and fails: "fail_names r \<subseteq> fail_names (rcl \<sigma>) \<union> set (inflightCreates (rcl \<sigma>))"
    and clean: "\<And>M. cleanups_inv (set (backgroundDeletes (rcl \<sigma>))) (add_mset g M) \<Longrightarrow>
      cleanups_inv (set (backgroundDeletes r)) (add_mset g' M)"
  shows "sys_inv sem cur cap cfg (\<sigma>\<lparr>rcl := r\<rparr>)"
proof -
  note I = sys_invD [OF inv]
  obtain M where M: "gos (rcl \<sigma>) = add_mset g M" and "gos (move g [g'] (rcl \<sigma>)) = mset [g'] + M"
    using gos_move [OF g] by blast
  then have M': "gos r = add_mset g' M" using gs by simp
  have "sys_inv sem cur cap cfg (\<sigma>\<lparr>rcl := r, pc := pc \<sigma>\<rparr>)"
  proof (rule inv_step_parts)
    show "insts_inv (GetByIntentID (store r)) (gos r) (set (vapps \<sigma>)) (set (used_ids \<sigma>))"
      unfolding M' fld by (rule insts_same [OF I(2)]) (use like in \<open>auto simp: M\<close>)
    show "names_inv (gos r) (set (inflightCreates r)) (vapps \<sigma>) (set (used_ids \<sigma>)) (set (used_names \<sigma>))"
      unfolding M' by (rule names) (use I(3) in \<open>simp add: M\<close>)
    show "pc_ok (GetByIntentID (store r)) (set (inflightCreates r)) (fail_names r) (set (vapps \<sigma>)) (set (used_ids \<sigma>)) (pc \<sigma>)"
      unfolding fld by (rule pc_ok_mono [OF I(4)]) (use infl fails in blast)+
    show "slots_inv sem cur cap cfg (limiter r) (gos r)"
      unfolding M' fld by (rule slots_same [OF I(5) [unfolded M]]) (rule like)
    show "cleanups_inv (set (backgroundDeletes r)) (gos r)"
      unfolding M' by (rule clean) (use I(7) in \<open>simp add: M\<close>)
    show "hold_inv (startupHold r) (pc \<sigma>) (gos r)"
      unfolding M' fld using I(8) like(1) by (simp add: M hold_inv_def)
  qed (use I(1,6) fld in simp_all)
  then show ?thesis by simp
qed

lemma create_name_inv:
  assumes inv: "sys_inv sem cur cap cfg \<sigma>" and g: "GoCreate k \<in> set (goroutines (rcl \<sigma>))"
    and n: "n \<notin> set (used_names \<sigma>)"
  shows "sys_inv sem cur cap cfg
      (\<sigma>\<lparr>rcl := (move (GoCreate k) [GoCreateNamed k n] (rcl \<sigma>))\<lparr>inflightCreates := n # inflightCreates (rcl \<sigma>)\<rparr>,
         used_names := n # used_names \<sigma>\<rparr>)"
proof -
  note I = sys_invD [OF inv]
  let ?r = "(move (GoCreate k) [GoCreateNamed k n] (rcl \<sigma>))\<lparr>inflightCreates := n # inflightCreates (rcl \<sigma>)\<rparr>"
  obtain M0 where M: "gos (rcl \<sigma>) = add_mset (GoCreate k) M0" and M'': "gos (move (GoCreate k) [GoCreateNamed k n] (rcl \<sigma>)) = mset [GoCreateNamed k n] + M0"
    using gos_move [OF g] by blast
  have M': "gos ?r = add_mset (GoCreateNamed k n) M0" using M'' by simp
  have nV: "n \<notin> snd ` set (vapps \<sigma>)" using I(3) n unfolding names_inv_def by blast
  have nh: "n \<notin># holds M0" using I(3) n unfolding names_inv_def M by auto
  have fld: "store ?r = sys_store \<sigma>" "limiter ?r = limiter (rcl \<sigma>)" "config ?r = config (rcl \<sigma>)"
    "backgroundDeletes ?r = backgroundDeletes (rcl \<sigma>)" "startupHold ?r = startupHold (rcl \<sigma>)"
    "failedCreateCleanups ?r = failedCreateCleanups (rcl \<sigma>)" "set (inflightCreates ?r) = insert n (set (inflightCreates (rcl \<sigma>)))"
    by (simp_all add: move_def)
  have insts: "insts_inv (GetByIntentID (store ?r)) (gos ?r) (set (vapps \<sigma>)) (set (used_ids \<sigma>))"
    unfolding M' fld by (rule insts_same [OF I(2)]) (use nV in \<open>auto simp: M\<close>)
  have names: "names_inv (gos ?r) (set (inflightCreates ?r)) (vapps \<sigma>) (set (used_ids \<sigma>)) (insert n (set (used_names \<sigma>)))"
    unfolding M' fld using I(3) nh unfolding M by (auto simp: names_inv_def not_in_iff)
  have pc: "pc_ok (GetByIntentID (store ?r)) (set (inflightCreates ?r)) (fail_names ?r) (set (vapps \<sigma>)) (set (used_ids \<sigma>)) (pc \<sigma>)"
    unfolding fld by (rule pc_ok_mono [OF I(4)]) (use nV in auto)
  have slots: "slots_inv sem cur cap cfg (limiter ?r) (gos ?r)"
    unfolding M' fld using I(5) [unfolded M] by (rule slots_same) simp
  have rest: "cleanups_inv (set (backgroundDeletes ?r)) (gos ?r)" "hold_inv (startupHold ?r) (pc \<sigma>) (gos ?r)"
    unfolding M' fld using I(7,8) by (simp_all add: M cleanups_inv_def hold_inv_def)
  show ?thesis
    unfolding sys_inv_def Let_def using I(1,6) insts names pc slots rest fld(1,3) by simp
qed

lemma create_unnamed_failed_inv:
  assumes "sys_inv sem cur cap cfg \<sigma>" and "GoCreate k \<in> set (goroutines (rcl \<sigma>))"
  shows "sys_inv sem cur cap cfg (\<sigma>\<lparr>rcl := move (GoCreate k) [GoCreateFailed k] (rcl \<sigma>)\<rparr>)"
  by (rule inv_move [OF assms, of _ "GoCreateFailed k"])
    (simp_all add: move_def names_inv_def cleanups_inv_def)

lemma create_queue_inv:
  assumes inv: "sys_inv sem cur cap cfg \<sigma>" and g: "GoCreateNamed k n \<in> set (goroutines (rcl \<sigma>))"
  shows "sys_inv sem cur cap cfg
      (\<sigma>\<lparr>rcl := (move (GoCreateNamed k n) [GoCreateFailing k n] (rcl \<sigma>))
           \<lparr>failedCreateCleanups := (case map_of (failedCreateCleanups (rcl \<sigma>)) n of
              None \<Rightarrow> AList.update n now (failedCreateCleanups (rcl \<sigma>)) | Some _ \<Rightarrow> failedCreateCleanups (rcl \<sigma>))\<rparr>\<rparr>)"
proof -
  have "n \<in># holds (gos (rcl \<sigma>))" using g by (force simp: gather_def)
  then have n: "n \<in> set (inflightCreates (rcl \<sigma>))" using sys_invD(3) [OF inv] unfolding names_inv_def by blast
  show ?thesis
    by (rule inv_move [OF inv g, of _ "GoCreateFailing k n"])
      (use n in \<open>auto simp: move_def names_inv_def cleanups_inv_def split: option.split\<close>)
qed

lemma create_disown_inv:
  assumes "sys_inv sem cur cap cfg \<sigma>" and "GoCreateFailing k n \<in> set (goroutines (rcl \<sigma>))"
  shows "sys_inv sem cur cap cfg
      (\<sigma>\<lparr>rcl := createRecorded n (move (GoCreateFailing k n) [GoCreateFailed k] (rcl \<sigma>))\<rparr>)"
  by (rule inv_move [OF assms, of _ "GoCreateFailed k"])
    (auto simp: move_def createRecorded_def cleanups_inv_def
      intro: names_drop [where g = "GoCreateFailing k n"])

lemma create_recorded_inv:
  assumes "sys_inv sem cur cap cfg \<sigma>" and "GoCreateRecord n \<in> set (goroutines (rcl \<sigma>))"
  shows "sys_inv sem cur cap cfg
      (\<sigma>\<lparr>rcl := createRecorded n (move (GoCreateRecord n) [GoRelease opCreate] (rcl \<sigma>))\<rparr>)"
  by (rule inv_move [OF assms, of _ "GoRelease opCreate"])
    (auto simp: move_def createRecorded_def cleanups_inv_def
      intro: names_drop [where g = "GoCreateRecord n"])

lemma finishCleanup_fields:
  "store (finishCleanup lib now out n t r) = store r" "goroutines (finishCleanup lib now out n t r) = goroutines r"
  "limiter (finishCleanup lib now out n t r) = limiter r" "config (finishCleanup lib now out n t r) = config r"
  "startupHold (finishCleanup lib now out n t r) = startupHold r"
  "inflightCreates (finishCleanup lib now out n t r) = inflightCreates r"
  "backgroundDeletes (finishCleanup lib now out n t r) = removeAll (cleanupKey n) (backgroundDeletes r)"
  by (simp_all add: finishCleanup_def Let_def split: cleanup_outcome.split)

lemma finishCleanup_fails: "fail_names (finishCleanup lib now out n t r) \<subseteq> fail_names r"
  by (auto simp: finishCleanup_def Let_def split: cleanup_outcome.split if_splits)

lemma cleanup_done_inv:
  assumes "sys_inv sem cur cap cfg \<sigma>" and "GoCleanup n t \<in> set (goroutines (rcl \<sigma>))"
  shows "sys_inv sem cur cap cfg
      (\<sigma>\<lparr>rcl := finishCleanup lib now out n t (move (GoCleanup n t) [GoRelease opDelete] (rcl \<sigma>))\<rparr>)"
proof (rule inv_move [OF assms, of _ "GoRelease opDelete"])
  let ?r = "finishCleanup lib now out n t (move (GoCleanup n t) [GoRelease opDelete] (rcl \<sigma>))"
  show "fail_names ?r \<subseteq> fail_names (rcl \<sigma>) \<union> set (inflightCreates (rcl \<sigma>))"
    using finishCleanup_fails [of lib now out n t "move (GoCleanup n t) [GoRelease opDelete] (rcl \<sigma>)"]
    by (auto simp: move_def)
  show "\<And>M. cleanups_inv (set (backgroundDeletes (rcl \<sigma>))) (add_mset (GoCleanup n t) M) \<Longrightarrow>
      cleanups_inv (set (backgroundDeletes ?r)) (add_mset (GoRelease opDelete) M)"
    using cleanups_inv_remove [of _ n t _ "GoRelease opDelete"] by (simp add: finishCleanup_fields move_def)
qed (simp_all add: finishCleanup_fields move_def names_inv_def)

section \<open>Moves that end a create or a delete\<close>

lemma inv_update_move:
  assumes inv: "sys_inv sem cur cap cfg \<sigma>" and g: "g \<in> set (goroutines (rcl \<sigma>))"
    and r: "goroutines r = goroutines (move g [g'] (rcl \<sigma>))" "store r = UpdateInstance now k fn (sys_store \<sigma>)"
    and pre: "update_pre k fn (sys_store \<sigma>)"
    and fld: "limiter r = limiter (rcl \<sigma>)" "config r = config (rcl \<sigma>)" "startupHold r = startupHold (rcl \<sigma>)"
      "inflightCreates r = inflightCreates (rcl \<sigma>)" "failedCreateCleanups r = failedCreateCleanups (rcl \<sigma>)"
      "backgroundDeletes r = backgroundDeletes (rcl \<sigma>)"
    and like: "g_kind g' = g_kind g" "g_holds g' = g_holds g" "g_cleaning g' = g_cleaning g"
    and ends: "set (g_creating g) \<subseteq> {k}" "g_creating g' = []" "fst ` set (g_deleting g) \<subseteq> {k}" "g_deleting g' = []"
      "g_active g' = []"
    and here: "\<And>M i. gos (rcl \<sigma>) = add_mset g M \<Longrightarrow> GetByIntentID (sys_store \<sigma>) k = Some i \<Longrightarrow>
      iok (set (vapps \<sigma>)) (set (used_ids \<sigma>)) (add_mset g' M) k (stamp now fn i)"
    and np: "\<And>j. GetByIntentID (sys_store \<sigma>) k = Some j \<Longrightarrow> Phase j \<noteq> PhasePendingCreate"
    and dm: "\<And>j. GetByIntentID (sys_store \<sigma>) k = Some j \<Longrightarrow> doomed j \<Longrightarrow>
      doomed (stamp now fn j) \<and> ID (stamp now fn j) = ID j"
  shows "sys_inv sem cur cap cfg (\<sigma>\<lparr>rcl := r\<rparr>)"
proof -
  note I = sys_invD [OF inv]
  obtain M where M: "gos (rcl \<sigma>) = add_mset g M" and "gos (move g [g'] (rcl \<sigma>)) = mset [g'] + M"
    using gos_move [OF g] by blast
  then have M': "gos r = add_mset g' M" using r(1) by simp
  have G': "GetByIntentID (store r) = (GetByIntentID (sys_store \<sigma>))(k := map_option (stamp now fn) (GetByIntentID (sys_store \<sigma>) k))"
    unfolding r(2) by (rule GetByIntentID_UpdateInstance [OF pre])
  have "sys_inv sem cur cap cfg (\<sigma>\<lparr>rcl := r, pc := pc \<sigma>\<rparr>)"
  proof (rule inv_step_parts)
    show "index_inv (store r)" unfolding r(2) by (rule UpdateInstance_inv [OF pre])
    show "insts_inv (GetByIntentID (store r)) (gos r) (set (vapps \<sigma>)) (set (used_ids \<sigma>))"
      unfolding G' M'
    proof (rule insts_update [OF I(2)])
      show "count (creating (add_mset g' M)) k' = count (creating (gos (rcl \<sigma>))) k'" if "k' \<noteq> k" for k'
        using ends(1,2) that by (auto simp: M count_eq_zero_iff)
      have "count (creating (gos (rcl \<sigma>))) k \<le> 1" by (rule insts_invD(3) [OF I(2)])
      then show "count (creating (add_mset g' M)) k \<le> 1" using ends(2) by (simp add: M)
      show "((k', h) \<in># deleting (add_mset g' M)) = ((k', h) \<in># deleting (gos (rcl \<sigma>)))" if "k' \<noteq> k" for k' h
        using ends(3,4) that by (force simp: M)
      show "h \<in> hrefs \<sigma> \<and> (k \<in> set (used_ids \<sigma>) \<or> k = h)" if "(k, h) \<in># deleting (add_mset g' M)" for h
        using insts_invD(4,5) [OF I(2), of k h] that ends(4) by (simp add: M)
      show "set_mset (active (add_mset g' M)) \<subseteq> set_mset (active (gos (rcl \<sigma>)))" using ends(5) by (auto simp: M)
      show "GetByIntentID (sys_store \<sigma>) k \<noteq> None" if "k \<in># creating (add_mset g' M)"
        using insts_invD(2) [OF I(2), of k] that ends(2) by (simp add: M)
    qed (rule here [OF M])
    show "pc_ok (GetByIntentID (store r)) (set (inflightCreates r)) (fail_names r) (set (vapps \<sigma>)) (set (used_ids \<sigma>)) (pc \<sigma>)"
      unfolding G' fld by (rule pc_update [OF I(4) np dm])
    show "slots_inv sem cur cap cfg (limiter r) (gos r)"
      unfolding M' fld by (rule slots_same [OF I(5) [unfolded M]]) (rule like)
    show "names_inv (gos r) (set (inflightCreates r)) (vapps \<sigma>) (set (used_ids \<sigma>)) (set (used_names \<sigma>))"
      unfolding M' fld by (rule names_same [OF I(3) [unfolded M]]) (simp add: like)
    show "cleanups_inv (set (backgroundDeletes r)) (gos r)"
      unfolding M' fld by (rule cleanups_same [OF I(7) [unfolded M]]) (simp add: like)
    show "hold_inv (startupHold r) (pc \<sigma>) (gos r)"
      unfolding M' fld by (rule hold_same [OF I(8) [unfolded M]]) (simp add: like)
  qed (use I(6) fld in simp)
  then show ?thesis by simp
qed

lemma recordCreateFailure_fields:
  "store (recordCreateFailure lib clk r) = store r" "goroutines (recordCreateFailure lib clk r) = goroutines r"
  "limiter (recordCreateFailure lib clk r) = limiter r" "config (recordCreateFailure lib clk r) = config r"
  "startupHold (recordCreateFailure lib clk r) = startupHold r"
  "inflightCreates (recordCreateFailure lib clk r) = inflightCreates r"
  "failedCreateCleanups (recordCreateFailure lib clk r) = failedCreateCleanups r"
  "backgroundDeletes (recordCreateFailure lib clk r) = backgroundDeletes r"
  by (simp_all add: recordCreateFailure_def Let_def split: prod.split)

lemma creating_instance:
  assumes I: "insts_inv (GetByIntentID s) M V ids" and k: "k \<in># creating M"
  obtains i where "GetByIntentID s k = Some i" "Phase i = PhaseCreating" "ID i = []" "\<not> doomed i" "CreatedAt i \<noteq> None"
proof -
  obtain i where i: "GetByIntentID s k = Some i" using insts_invD(2) [OF I k] by auto
  note ok = iokD [OF insts_invD(1) [OF I i]]
  have "Phase i = PhaseCreating" using ok(4) k by simp
  then show thesis using that [OF i] ok(1) by (auto simp: inst_ok_def doomed_def)
qed

lemma create_failed_inv:
  assumes inv: "sys_inv sem cur cap cfg \<sigma>" and g: "GoCreateFailed k \<in> set (goroutines (rcl \<sigma>))"
  shows "sys_inv sem cur cap cfg
      (\<sigma>\<lparr>rcl := doCreate_update lib clk (Inl err) k (move (GoCreateFailed k) [GoRelease opCreate] (rcl \<sigma>))\<rparr>)"
    (is "sys_inv _ _ _ _ (\<sigma>\<lparr>rcl := ?r\<rparr>)")
proof -
  note I = sys_invD [OF inv]
  let ?fn = "create_failed lib (clk 2) (Error err)"
  have k: "k \<in># creating (gos (rcl \<sigma>))" using g by (force simp: gather_def)
  obtain i where i: "GetByIntentID (sys_store \<sigma>) k = Some i" "Phase i = PhaseCreating" "\<not> doomed i"
    using creating_instance [OF I(2) k] by metis
  have pre: "update_pre k ?fn (sys_store \<sigma>)"
    by (rule update_pre_keep [OF I(1)]) (simp_all add: create_failed_def Let_def)
  have fld: "goroutines ?r = goroutines (move (GoCreateFailed k) [GoRelease opCreate] (rcl \<sigma>))"
    "store ?r = UpdateInstance (clk 3) k ?fn (sys_store \<sigma>)"
    by (simp_all add: doCreate_update_def Let_def recordCreateFailure_fields move_def)
  show ?thesis
  proof (rule inv_update_move [OF inv g fld pre])
    fix M j assume M: "gos (rcl \<sigma>) = add_mset (GoCreateFailed k) M" and j: "GetByIntentID (sys_store \<sigma>) k = Some j"
    have "count (creating (gos (rcl \<sigma>))) k \<le> 1" by (rule insts_invD(3) [OF I(2)])
    then have "k \<notin># creating M" by (simp add: M not_in_iff)
    then show "iok (set (vapps \<sigma>)) (set (used_ids \<sigma>)) (add_mset (GoRelease opCreate) M) k (stamp (clk 3) ?fn j)"
      using iok_create_failed insts_invD(1) [OF I(2) j] by (simp add: M)
  qed (use i in \<open>simp_all add: doCreate_update_def Let_def recordCreateFailure_fields move_def\<close>)
qed

text \<open>
  The HREF a finished create reports is not tracked yet: only creates that have not finished hold the
  name of their vApp, and the poll does not queue a vApp whose name is held.
\<close>

lemma created_href_new:
  assumes inv: "sys_inv sem cur cap cfg \<sigma>" and n: "n \<in># active (gos (rcl \<sigma>))" and h: "(h, n) \<in> set (vapps \<sigma>)"
  shows "GetByVAppHREF (sys_store \<sigma>) h = None"
proof (rule ccontr)
  note I = sys_invD [OF inv]
  assume "GetByVAppHREF (sys_store \<sigma>) h \<noteq> None"
  then obtain i where "h \<noteq> []" "ID i = h" "GetByIntentID (sys_store \<sigma>) (IntentID i) = Some i"
    using GetByVAppHREF_iff [OF I(1)] by blast
  then obtain n' where n': "(h, n') \<in> set (vapps \<sigma>)" "n' \<notin># active (gos (rcl \<sigma>))"
    using iokD(3) [OF insts_invD(1) [OF I(2)]] by blast
  have "distinct (map fst (vapps \<sigma>))" using I(3) unfolding names_inv_def by blast
  then have "n' = n" using n'(1) h by (metis eq_key_imp_eq_value)
  then show False using n n'(2) by blast
qed

lemma create_stored_inv:
  assumes inv: "sys_inv sem cur cap cfg \<sigma>" and g: "GoCreateNamed k n \<in> set (goroutines (rcl \<sigma>))"
    and h: "(VAppHREF res, n) \<in> set (vapps \<sigma>)"
  shows "sys_inv sem cur cap cfg
      (\<sigma>\<lparr>rcl := doCreate_update lib clk (Inr res) k (move (GoCreateNamed k n) [GoCreateRecord n] (rcl \<sigma>))\<rparr>)"
    (is "sys_inv _ _ _ _ (\<sigma>\<lparr>rcl := ?r\<rparr>)")
proof -
  note I = sys_invD [OF inv]
  let ?fn = "create_succeeded (clk 2) res" and ?s = "sys_store \<sigma>"
  have k: "k \<in># creating (gos (rcl \<sigma>))" and n: "n \<in># active (gos (rcl \<sigma>))"
    using g by (force simp: gather_def)+
  obtain i where i: "GetByIntentID ?s k = Some i" "Phase i = PhaseCreating" "ID i = []" "\<not> doomed i"
    using creating_instance [OF I(2) k] by metis
  have "VAppHREF res \<in> hrefs \<sigma>" using h by force
  then have h0: "VAppHREF res \<noteq> []" using I(3) unfolding names_inv_def by metis
  have pre: "update_pre k ?fn ?s"
    using I(1) i created_href_new [OF inv n h] by (simp add: update_pre_def mutation_ok_def create_succeeded_def)
  have fld: "goroutines ?r = goroutines (move (GoCreateNamed k n) [GoCreateRecord n] (rcl \<sigma>))"
    "store ?r = UpdateInstance (clk 3) k ?fn ?s"
    by (simp_all add: doCreate_update_def Let_def recordCreateSuccess_def move_def)
  show ?thesis
  proof (rule inv_update_move [OF inv g fld pre])
    fix M j assume M: "gos (rcl \<sigma>) = add_mset (GoCreateNamed k n) M" and j: "GetByIntentID ?s k = Some j"
    have "count (creating (gos (rcl \<sigma>))) k \<le> 1" by (rule insts_invD(3) [OF I(2)])
    then have k': "k \<notin># creating M" by (simp add: M not_in_iff)
    have "count (holds (gos (rcl \<sigma>))) n \<le> 1" using I(3) unfolding names_inv_def by blast
    then have "n \<notin># holds M" by (simp add: M not_in_iff)
    then have "n \<notin># active M" using active_holds by blast
    then show "iok (set (vapps \<sigma>)) (set (used_ids \<sigma>)) (add_mset (GoCreateRecord n) M) k (stamp (clk 3) ?fn j)"
      using iok_create_succeeded [OF _ k' _ h h0] insts_invD(1) [OF I(2) j] by (simp add: M)
  qed (use i in \<open>simp_all add: doCreate_update_def Let_def recordCreateSuccess_def move_def\<close>)
qed

lemma delete_done_inv:
  assumes inv: "sys_inv sem cur cap cfg \<sigma>" and g: "GoDelete k h \<in> set (goroutines (rcl \<sigma>))"
  shows "sys_inv sem cur cap cfg (\<sigma>\<lparr>rcl := doDelete lib clk err k (move (GoDelete k h) [GoRelease opDelete] (rcl \<sigma>))\<rparr>)"
    (is "sys_inv _ _ _ _ (\<sigma>\<lparr>rcl := ?r\<rparr>)")
proof -
  note I = sys_invD [OF inv]
  let ?fn = "case err of None \<Rightarrow> delete_succeeded (clk 0) | Some e \<Rightarrow> delete_failed lib (clk 0) (Error e)"
  have kh: "(k, h) \<in># deleting (gos (rcl \<sigma>))" using g by (force simp: gather_def)
  have fn: "ID (?fn i) = ID i \<and> IntentID (?fn i) = IntentID i \<and> Leftover (?fn i) = Leftover i \<and> CreatedAt (?fn i) = CreatedAt i \<and>
      DeleteRequestedAt (?fn i) = DeleteRequestedAt i \<and>
      (Phase (?fn i) = PhasePendingDelete \<or> Phase (?fn i) = PhaseDeleted \<and> DeleteCompletedAt (?fn i) \<noteq> None)" for i
    by (cases err) (simp_all add: delete_failed_def delete_succeeded_def Let_def)
  have dm: "doomed j" if "GetByIntentID (sys_store \<sigma>) k = Some j" for j
    by (rule iokD(6) [OF insts_invD(1) [OF I(2) that] kh])
  have pre: "update_pre k ?fn (sys_store \<sigma>)" by (rule update_pre_keep [OF I(1)]) (use fn in blast)+
  have fld: "goroutines ?r = goroutines (move (GoDelete k h) [GoRelease opDelete] (rcl \<sigma>))"
    "store ?r = UpdateInstance (clk 1) k ?fn (sys_store \<sigma>)"
    by (simp_all add: doDelete_def Let_def move_def split: option.split)
  show ?thesis
  proof (rule inv_update_move [OF inv g fld pre])
    fix M j assume M: "gos (rcl \<sigma>) = add_mset (GoDelete k h) M" and j: "GetByIntentID (sys_store \<sigma>) k = Some j"
    show "iok (set (vapps \<sigma>)) (set (used_ids \<sigma>)) (add_mset (GoRelease opDelete) M) k (stamp (clk 1) ?fn j)"
      using iok_deleted [OF insts_invD(1) [OF I(2) j, unfolded M] fn] .
  next
    fix j assume "GetByIntentID (sys_store \<sigma>) k = Some j"
    then show "Phase j \<noteq> PhasePendingCreate" using dm by (auto simp: doomed_def)
  next
    fix j assume "doomed j"
    then show "doomed (stamp (clk 1) ?fn j) \<and> ID (stamp (clk 1) ?fn j) = ID j"
      using fn [of j] by (auto simp: stamp_def doomed_def)
  qed (simp_all add: doDelete_def Let_def move_def split: option.split)
qed

section \<open>Every step keeps the invariant\<close>

lemma slot_released_inv:
  assumes inv: "sys_inv sem cur cap cfg \<sigma>" and g: "GoRelease kind \<in> set (goroutines (rcl \<sigma>))"
  shows "sys_inv sem cur cap cfg
      (\<sigma>\<lparr>rcl := (move (GoRelease kind) [] (rcl \<sigma>))\<lparr>limiter := release sem kind (limiter (rcl \<sigma>))\<rparr>\<rparr>)"
    (is "sys_inv _ _ _ _ (\<sigma>\<lparr>rcl := ?r\<rparr>)")
proof -
  note I = sys_invD [OF inv]
  obtain M where M: "gos (rcl \<sigma>) = add_mset (GoRelease kind) M"
    and "gos (move (GoRelease kind) [] (rcl \<sigma>)) = mset [] + M"
    using gos_move [OF g] by blast
  then have M': "gos ?r = M" by simp
  have "sys_inv sem cur cap cfg (\<sigma>\<lparr>rcl := ?r, pc := pc \<sigma>\<rparr>)"
  proof (rule inv_step_parts)
    show "insts_inv (GetByIntentID (store ?r)) (gos ?r) (set (vapps \<sigma>)) (set (used_ids \<sigma>))"
      unfolding M' using insts_same [OF I(2), of M] by (simp add: M move_def)
    show "slots_inv sem cur cap cfg (limiter ?r) (gos ?r)"
      unfolding M' using slots_released [OF I(5) [unfolded M]] by simp
    show "hold_inv (startupHold ?r) (pc \<sigma>) (gos ?r)"
      unfolding M' using I(8) by (auto simp: M move_def hold_inv_def)
    show "pc_ok (GetByIntentID (store ?r)) (set (inflightCreates ?r)) (fail_names ?r) (set (vapps \<sigma>)) (set (used_ids \<sigma>)) (pc \<sigma>)"
      using I(4) by (simp add: move_def)
    show "names_inv (gos ?r) (set (inflightCreates ?r)) (vapps \<sigma>) (set (used_ids \<sigma>)) (set (used_names \<sigma>))"
      unfolding M' using names_same [OF I(3), of M] by (simp add: M move_def)
    show "cleanups_inv (set (backgroundDeletes ?r)) (gos ?r)"
      unfolding M' using cleanups_same [OF I(7), of M] by (simp add: M move_def)
  qed (use I(1,6) in \<open>simp_all add: move_def\<close>)
  then show ?thesis by simp
qed

lemma increase_inv:
  assumes inv: "sys_inv sem cur cap cfg \<sigma>" and k: "k \<notin> set (used_ids \<sigma>)" "k \<notin> hrefs \<sigma>"
  shows "sys_inv sem cur cap cfg (upd_store (AddCreateIntent now k) (\<sigma>\<lparr>used_ids := k # used_ids \<sigma>\<rparr>))"
proof -
  note I = sys_invD [OF inv]
  have "index_inv (AddCreateIntent now k (sys_store \<sigma>))"
    by (rule AddCreateIntent_refines(1) [OF I(1) untracked_new(1) [OF I(1,2) k]])
  moreover have "names_inv (gos (rcl \<sigma>)) (set (inflightCreates (rcl \<sigma>))) (vapps \<sigma>) (insert k (set (used_ids \<sigma>))) (set (used_names \<sigma>))"
    using I(3) k by (simp add: names_inv_def)
  ultimately show ?thesis
    using I(5-8) AddCreateIntent_insts [OF I(1,2) k, of now] AddCreateIntent_pc [OF I(1,2) k I(4), of now]
    by (simp add: sys_inv_def Let_def upd_store_def)
qed

lemma pc_ok_V_mono:
  assumes "pc_ok G infl fails V ids p"
  shows "pc_ok G infl fails (insert (h, n) V) ids p"
proof (cases p)
  case (PcDeletesLoop "is")
  then show ?thesis using assms unfolding PcDeletesLoop pc_ok.simps image_insert by blast
qed (use assms in auto)

lemma vapp_appears_inv:
  assumes inv: "sys_inv sem cur cap cfg \<sigma>" and h: "h \<noteq> []" "h \<notin> hrefs \<sigma>" "h \<notin> set (used_ids \<sigma>)"
  shows "sys_inv sem cur cap cfg (\<sigma>\<lparr>vapps := (h, n) # vapps \<sigma>, used_names := n # used_names \<sigma>\<rparr>)"
proof -
  note I = sys_invD [OF inv]
  have "names_inv (gos (rcl \<sigma>)) (set (inflightCreates (rcl \<sigma>))) ((h, n) # vapps \<sigma>) (set (used_ids \<sigma>)) (insert n (set (used_names \<sigma>)))"
    using I(3) h by (auto simp: names_inv_def)
  moreover have "insts_inv (GetByIntentID (sys_store \<sigma>)) (gos (rcl \<sigma>)) (insert (h, n) (set (vapps \<sigma>))) (set (used_ids \<sigma>))"
    using I(2) iok_V_mono [of "set (vapps \<sigma>)" _ _ _ _ "insert (h, n) (set (vapps \<sigma>))"]
    unfolding insts_inv_def by (metis image_insert insertI2 subset_insertI)
  moreover note pc_ok_V_mono [OF I(4), of h n]
  ultimately show ?thesis using I(1,4-8) by (simp add: sys_inv_def Let_def)
qed

lemma worker_step_inv:
  assumes inv: "sys_inv sem cur cap cfg \<sigma>" and step: "worker_step sem lib \<sigma> \<sigma>'"
  shows "sys_inv sem cur cap cfg \<sigma>'"
proof -
  note I = sys_invD [OF inv]
  have same: "sys_inv sem cur cap cfg (upd_store f \<sigma>)"
    if "sys_inv sem cur cap cfg (upd_store f (\<sigma>\<lparr>pc := pc \<sigma>\<rparr>))" for f using that by simp
  have held: "startupHold (rcl \<sigma>) \<Longrightarrow> \<not> in_creates (pc \<sigma>)" using I(8) by (simp add: hold_inv_def)
  from step show ?thesis
  proof (cases rule: worker_step.cases)
    case (rejected now)
    then show ?thesis by (simp only:) (rule inv_rcl [OF inv]; simp)
  next
    case triggered
    then show ?thesis by (simp only:) (rule inv_rcl [OF inv]; simp add: trigger_def)
  next
    case (decrease now k)
    show ?thesis
      unfolding decrease(1)
      by (intro same inv_store inv mark_deletion.calm_insts mark_deletion.calm_pc I(1,2,4) held
          MarkForDeletion_refines(1))
  next
    case (map_order xs ys)
    show ?thesis
      unfolding map_order(1)
      by (intro same inv_store inv held) (use I(2,4) reorder_store [OF I(1) map_order(2,3)] in simp_all)
  qed (use create_name_inv [OF inv] create_unnamed_failed_inv [OF inv] create_queue_inv [OF inv]
      create_disown_inv [OF inv] create_failed_inv [OF inv] create_stored_inv [OF inv] create_recorded_inv [OF inv]
      delete_done_inv [OF inv] cleanup_done_inv [OF inv] slot_released_inv [OF inv] increase_inv [OF inv]
      vapp_appears_inv [OF inv] in \<open>simp_all only:\<close>)
qed

lemma sys_step_inv:
  "sys_inv sem cur cap cfg \<sigma> \<Longrightarrow> sys_step sem lib \<sigma> \<sigma>' \<Longrightarrow> sys_inv sem cur cap cfg \<sigma>'"
  unfolding sys_step_def using cycle_step_inv worker_step_inv by blast

text \<open>
  The initial states: a new reconciler with an empty store, while the vDC holds any vApps, with distinct
  HREFs.
\<close>

definition sys_start ::
    "'s sem_lib \<Rightarrow> 'b bo_lib \<Rightarrow> ('s \<Rightarrow> int) \<Rightarrow> ('s \<Rightarrow> int) \<Rightarrow> ReconcilerConfig \<Rightarrow> ('s, 'b) system \<Rightarrow> bool" where
  "sys_start sem lib cur cap cfg \<sigma> \<longleftrightarrow>
     semaphore_documented sem cur cap \<and>
     (\<exists>now grp existing. distinct (map fst existing) \<and> [] \<notin> fst ` set existing \<and>
        \<sigma> = sys_init sem lib now grp cfg existing)"

interpretation sys: invariant_system "sys_start sem lib cur cap cfg" "sys_step sem lib"
    "sys_inv sem cur cap (withDefaults cfg)"
  for sem :: "'s sem_lib" and lib :: "'b bo_lib" and cur cap cfg
  by unfold_locales (auto simp: sys_start_def intro: sys_init_inv sys_step_inv)

abbreviation sys_reachable ::
    "'s sem_lib \<Rightarrow> 'b bo_lib \<Rightarrow> ('s \<Rightarrow> int) \<Rightarrow> ('s \<Rightarrow> int) \<Rightarrow> ReconcilerConfig \<Rightarrow> ('s, 'b) system \<Rightarrow> bool" where
  "sys_reachable sem lib cur cap cfg \<equiv> reachable (sys_start sem lib cur cap cfg) (sys_step sem lib)"

end
