(* ===== verification/System_Demo.thy ===== *)
theory System_Demo
  imports System_Workers
begin

text \<open>
  A concrete run, for the witnesses of the system properties: one vApp of a previous run is found and
  queued as a leftover, one instance is requested and its create reaches vCD.
\<close>

abbreviation demo_lib :: "duration bo_lib" where
  "demo_lib \<equiv> plain_backoff throttleInitialPause throttleMaxPause"

definition demo_cfg :: ReconcilerConfig where
  "demo_cfg = \<lparr>MaxConcurrentCreates = 0, MaxConcurrentDeletes = 0, MaxConcurrentOperations = 0, Interval = 0,
     MaxInstanceAge = 0, PollReadTimeout = 0, CreateTimeout = 0, StartupCleanupTimeout = 0\<rparr>"

definition demo_vapp :: VApp where
  "demo_vapp = \<lparr>vapp_HREF = ''h-old'', vapp_Name = ''runner-old'', vapp_Status = 4, vapp_Children = None\<rparr>"

abbreviation demo_reachable :: "(int \<times> int, duration) system \<Rightarrow> bool" where
  "demo_reachable \<equiv> sys_reachable counting_sem demo_lib fst snd demo_cfg"

text \<open>The leftover: from the start to the call of \<^verbatim>\<open>AddLeftover\<close>, and its deletion.\<close>

definition demo0 :: "(int \<times> int, duration) system" where
  "demo0 = sys_init counting_sem demo_lib 0 ''g'' demo_cfg [(''h-old'', ''runner-old'')]"

definition demo_add :: "(int \<times> int, duration) system" where
  "demo_add = demo0\<lparr>pc := PcAdd demo_vapp [] [''h-old''] True\<rparr>"

definition demo_left :: "(int \<times> int, duration) system" where
  "demo_left = upd_store (\<lambda>s. snd (AddLeftover 1 (vapp_HREF demo_vapp) (vapp_Name demo_vapp) s))
     (demo_add\<lparr>pc := PcPoll [] [''h-old''] True\<rparr>)"

definition demo_held :: "(int \<times> int, duration) system" where
  "demo_held = (upd_store (MarkDisappeared 2 [''h-old'']) (demo_left\<lparr>pc := PcHold True\<rparr>))
     \<lparr>rcl := updateStartupHold (\<lambda>n. 3) True (rcl (upd_store (MarkDisappeared 2 [''h-old'']) (demo_left\<lparr>pc := PcHold True\<rparr>))),
      pc := PcCreates\<rparr>"

definition demo_deleting :: "(int \<times> int, duration) system" where
  "demo_deleting = demo_held
     \<lparr>rcl := snd (dispatchDeletes_body counting_sem (\<lambda>n. 4) (hd (GetPendingDeletes 4 (sys_store demo_held))) (rcl demo_held)),
      pc := PcDeletesLoop []\<rparr>"

lemma reachable_cycle: "demo_reachable \<sigma> \<Longrightarrow> cycle_step counting_sem \<sigma> \<sigma>' \<Longrightarrow> demo_reachable \<sigma>'"
  by (rule reachable_step) (auto simp: sys_step_def)

lemma reachable_worker: "demo_reachable \<sigma> \<Longrightarrow> worker_step counting_sem demo_lib \<sigma> \<sigma>' \<Longrightarrow> demo_reachable \<sigma>'"
  by (rule reachable_step) (auto simp: sys_step_def)

lemma demo0_reachable: "demo_reachable demo0"
proof (rule reachable_init)
  show "sys_start counting_sem demo_lib fst snd demo_cfg demo0"
    unfolding sys_start_def demo0_def
    by (intro conjI counting_sem_documented exI [of _ 0] exI [of _ "''g''"] exI [of _ "[(''h-old'', ''runner-old'')]"]) simp_all
qed

lemma demo_pc: "pc demo0 = PcIdle" "vapps demo0 = [(''h-old'', ''runner-old'')]"
  by (simp_all add: demo0_def sys_init_def)

lemma demo_add_reachable: "demo_reachable demo_add"
proof -
  have "demo_reachable (demo0\<lparr>pc := PcPoll [demo_vapp] [''h-old''] True\<rparr>)"
    using poll_listed [of demo0 "[demo_vapp]" counting_sem "[]"] reachable_cycle [OF demo0_reachable]
    by (simp add: demo_pc) (simp add: demo_vapp_def)
  then have "demo_reachable (demo0\<lparr>pc := PcOwn1 demo_vapp [] [''h-old''] True\<rparr>)"
    using poll_untracked [of "demo0\<lparr>pc := PcPoll [demo_vapp] [''h-old''] True\<rparr>" demo_vapp "[]" "[''h-old'']" True counting_sem]
      reachable_cycle
    by (simp add: GetByVAppHREF_def demo0_def sys_init_def newVCDInstanceGroup_def newDesiredStateStore_def Let_def)
  then have "demo_reachable (demo0\<lparr>pc := PcOwn2 demo_vapp [] [''h-old''] True\<rparr>)"
    using own_second [of "demo0\<lparr>pc := PcOwn1 demo_vapp [] [''h-old''] True\<rparr>" demo_vapp "[]" "[''h-old'']" True counting_sem]
      reachable_cycle
    by (simp add: demo0_def sys_init_def newVCDInstanceGroup_def Let_def)
  then show ?thesis
    using own_not [of "demo0\<lparr>pc := PcOwn2 demo_vapp [] [''h-old''] True\<rparr>" demo_vapp "[]" "[''h-old'']" True counting_sem]
      reachable_cycle
    by (simp add: demo_add_def demo0_def sys_init_def newVCDInstanceGroup_def Let_def)
qed

lemma demo_left_reachable: "demo_reachable demo_left"
  unfolding demo_left_def
  by (rule reachable_cycle [OF demo_add_reachable poll_add]) (simp add: demo_add_def)

lemma demo_held_reachable: "demo_reachable demo_held"
proof -
  have "pc demo_left = PcPoll [] [''h-old''] True" by (simp add: demo_left_def upd_store_def)
  then have "demo_reachable (demo_left\<lparr>pc := PcMark [''h-old''] True\<rparr>)"
    using poll_counts [of demo_left "[''h-old'']" True] reachable_cycle [OF demo_left_reachable] by simp
  then have "demo_reachable (upd_store (MarkDisappeared 2 [''h-old'']) (demo_left\<lparr>pc := PcHold True\<rparr>))"
    using poll_mark [of "demo_left\<lparr>pc := PcMark [''h-old''] True\<rparr>" "[''h-old'']" True counting_sem 2] reachable_cycle
    by simp
  then show ?thesis
    unfolding demo_held_def by (rule reachable_cycle) (rule hold, simp add: upd_store_def)
qed

lemma demo_deleting_reachable: "demo_reachable demo_deleting"
proof -
  have "pc demo_held = PcCreates" "startupHold (rcl demo_held)" by (simp add: demo_held_def, code_simp)
  then have 1: "demo_reachable (demo_held\<lparr>pc := PcDeletes\<rparr>)"
    using creates_held [of demo_held] reachable_cycle [OF demo_held_reachable] by blast
  let ?is = "GetPendingDeletes 4 (sys_store demo_held)"
  have 2: "demo_reachable (demo_held\<lparr>pc := PcDeletesLoop ?is\<rparr>)"
    using deletes_list [of "demo_held\<lparr>pc := PcDeletes\<rparr>" counting_sem 4] reachable_cycle [OF 1] by simp
  have "length ?is = 1" by code_simp
  then obtain x where x: "?is = [x]" by (cases ?is) auto
  have hdx: "hd ?is = x" by (simp add: x)
  have "fst (dispatchDeletes_body counting_sem (\<lambda>n. 4) (hd ?is) (rcl demo_held)) = True" by code_simp
  then have "dispatchDeletes_body counting_sem (\<lambda>n. 4) x (rcl (demo_held\<lparr>pc := PcDeletesLoop [x]\<rparr>)) =
      (True, snd (dispatchDeletes_body counting_sem (\<lambda>n. 4) x (rcl demo_held)))"
    unfolding hdx by (simp add: prod_eq_iff)
  then have "cycle_step counting_sem (demo_held\<lparr>pc := PcDeletesLoop [x]\<rparr>) demo_deleting"
    unfolding demo_deleting_def hdx
    using deletes_go [of "demo_held\<lparr>pc := PcDeletesLoop [x]\<rparr>" x "[]" counting_sem "\<lambda>n. 4"] by simp
  then show ?thesis using reachable_cycle 2 unfolding x by blast
qed

text \<open>The create: an empty group, a request for one instance, and the vApp of its create in vCD.\<close>

definition demo_asked :: "(int \<times> int, duration) system" where
  "demo_asked = upd_store (AddCreateIntent 1 ''a'')
     ((sys_init counting_sem demo_lib 0 ''g'' demo_cfg [])\<lparr>used_ids := [''a'']\<rparr>)"

definition demo_open :: "(int \<times> int, duration) system" where
  "demo_open = demo_asked\<lparr>rcl := updateStartupHold (\<lambda>n. 3) True (rcl demo_asked), pc := PcCreates\<rparr>"

definition demo_started :: "(int \<times> int, duration) system" where
  "demo_started = demo_open
     \<lparr>rcl := snd (dispatchCreates_body counting_sem (\<lambda>n. 4) (hd (GetPendingCreates 4 (sys_store demo_open))) (rcl demo_open)),
      pc := PcCreatesLoop []\<rparr>"

definition demo_named :: "(int \<times> int, duration) system" where
  "demo_named = demo_started
     \<lparr>rcl := (move (GoCreate ''a'') [GoCreateNamed ''a'' ''runner-a''] (rcl demo_started))
        \<lparr>inflightCreates := ''runner-a'' # inflightCreates (rcl demo_started)\<rparr>,
      used_names := ''runner-a'' # used_names demo_started\<rparr>"

definition demo_posted :: "(int \<times> int, duration) system" where
  "demo_posted = demo_named\<lparr>vapps := (''h-a'', ''runner-a'') # vapps demo_named, used_names := ''runner-a'' # used_names demo_named\<rparr>"

lemma demo_asked_reachable: "demo_reachable demo_asked"
proof -
  let ?\<sigma> = "sys_init counting_sem demo_lib 0 ''g'' demo_cfg [] :: (int \<times> int, duration) system"
  have "sys_start counting_sem demo_lib fst snd demo_cfg ?\<sigma>"
    unfolding sys_start_def
    by (intro conjI counting_sem_documented exI [of _ 0] exI [of _ "''g''"] exI [of _ "[]"]) simp_all
  then have "demo_reachable ?\<sigma>" by (rule reachable_init)
  moreover have "worker_step counting_sem demo_lib ?\<sigma> demo_asked"
    unfolding demo_asked_def using increase [of "''a''" ?\<sigma> counting_sem demo_lib 1] by (simp add: sys_init_def)
  ultimately show ?thesis by (rule reachable_worker)
qed

lemma demo_open_reachable: "demo_reachable demo_open"
proof -
  have idle: "pc demo_asked = PcIdle" "Size (sys_store demo_asked) = 1"
    by (simp add: demo_asked_def upd_store_def sys_init_def, code_simp)
  have "demo_reachable (demo_asked\<lparr>pc := PcPoll [] [] True\<rparr>)"
    using poll_listed [of demo_asked "[]" counting_sem "[]"] reachable_cycle [OF demo_asked_reachable] idle(1) by simp
  then have "demo_reachable (demo_asked\<lparr>pc := PcHold True\<rparr>)"
    using poll_empty [of "demo_asked\<lparr>pc := PcPoll [] [] True\<rparr>" "[]" True counting_sem] reachable_cycle idle(2) by simp
  then show ?thesis
    using hold [of "demo_asked\<lparr>pc := PcHold True\<rparr>" True counting_sem "\<lambda>n. 3"] reachable_cycle by (simp add: demo_open_def)
qed

lemma demo_started_reachable: "demo_reachable demo_started"
proof -
  have "pc demo_open = PcCreates" "\<not> startupHold (rcl demo_open)" "\<not> breaker_open 4 (rcl demo_open)"
    by (simp add: demo_open_def, code_simp+)
  then have 1: "demo_reachable (demo_open\<lparr>pc := PcCreatesLoop (GetPendingCreates 4 (sys_store demo_open))\<rparr>)"
    using creates_list [of demo_open 4 counting_sem 4] reachable_cycle [OF demo_open_reachable] by blast
  let ?is = "GetPendingCreates 4 (sys_store demo_open)"
  have "length ?is = 1" by code_simp
  then obtain x where x: "?is = [x]" by (cases ?is) auto
  have hdx: "hd ?is = x" by (simp add: x)
  have "fst (dispatchCreates_body counting_sem (\<lambda>n. 4) (hd ?is) (rcl demo_open)) = True" by code_simp
  then have "dispatchCreates_body counting_sem (\<lambda>n. 4) x (rcl (demo_open\<lparr>pc := PcCreatesLoop [x]\<rparr>)) =
      (True, snd (dispatchCreates_body counting_sem (\<lambda>n. 4) x (rcl demo_open)))"
    unfolding hdx by (simp add: prod_eq_iff)
  then have "cycle_step counting_sem (demo_open\<lparr>pc := PcCreatesLoop [x]\<rparr>) demo_started"
    unfolding demo_started_def hdx
    using creates_go [of "demo_open\<lparr>pc := PcCreatesLoop [x]\<rparr>" x "[]" counting_sem "\<lambda>n. 4"] by simp
  then show ?thesis using reachable_cycle 1 unfolding x by blast
qed

lemma demo_started_state:
  "goroutines (rcl demo_started) = [GoCreate ''a'']" "used_names demo_started = []" "vapps demo_started = []"
  "used_ids demo_started = [''a'']"
  by code_simp+

lemma demo_posted_reachable: "demo_reachable demo_posted"
proof -
  have "worker_step counting_sem demo_lib demo_started demo_named"
    unfolding demo_named_def by (rule create_name) (simp_all add: demo_started_state)
  then have "demo_reachable demo_named" by (rule reachable_worker [OF demo_started_reachable])
  moreover have "worker_step counting_sem demo_lib demo_named demo_posted"
    unfolding demo_posted_def
    by (rule vapp_appears) (simp_all add: demo_named_def demo_started_state)
  ultimately show ?thesis by (rule reachable_worker)
qed

lemma demo_posted_state:
  "GoCreateNamed ''a'' ''runner-a'' \<in> set (goroutines (rcl demo_posted))"
  "vapps demo_posted = [(''h-a'', ''runner-a'')]"
  by code_simp+

end
