(* ===== verification/System_Props.thy ===== *)
theory System_Props
  imports System_Demo
begin

text \<open>
  What holds in every reachable state of the running plugin, whatever the interleaving of the
  reconcile goroutine, its workers, fleeting's calls and vCD.
\<close>

section \<open>Shared lemmas\<close>

lemma reachable_inv: "sys_reachable sem lib cur cap cfg \<sigma> \<Longrightarrow> sys_inv sem cur cap (withDefaults cfg) \<sigma>"
  by (rule sys.inv_reachable)

lemma gather_mem: "x \<in># gather f M \<longleftrightarrow> (\<exists>g \<in># M. x \<in> set (f g))"
  by (induction M) auto

lemma deleting_mem: "(k, h) \<in># deleting M \<longleftrightarrow> GoDelete k h \<in># M"
proof -
  have "(k, h) \<in> set (g_deleting g) \<longleftrightarrow> g = GoDelete k h" for g by (cases g) auto
  then show ?thesis by (auto simp: gather_mem)
qed

lemma running_total: "running opCreate M + running opDelete M = size M"
proof (induction M)
  case (add g M)
  then show ?case by (cases "g_kind g") simp_all
qed simp

lemma running_zero: "running kind M = 0 \<longleftrightarrow> (\<forall>g \<in># M. g_kind g \<noteq> kind)"
  by (auto simp: running_def)

lemma stored_instance:
  assumes inv: "sys_inv sem cur cap cfg \<sigma>" and g: "GoCreateNamed k n \<in> set (goroutines (rcl \<sigma>))"
    and h: "(VAppHREF res, n) \<in> set (vapps \<sigma>)"
  shows "update_pre k (create_succeeded t res) (sys_store \<sigma>)"
    and "\<exists>i. GetByIntentID (sys_store \<sigma>) k = Some i \<and> Phase i = PhaseCreating \<and> IntentID i = k" and "VAppHREF res \<noteq> []"
proof -
  note I = sys_invD [OF inv]
  have k: "k \<in># creating (gos (rcl \<sigma>))" and n: "n \<in># active (gos (rcl \<sigma>))"
    using g by (force simp: gather_mem)+
  obtain i where i: "GetByIntentID (sys_store \<sigma>) k = Some i" "Phase i = PhaseCreating" "ID i = []"
    using creating_instance [OF I(2) k] by metis
  show "update_pre k (create_succeeded t res) (sys_store \<sigma>)"
    using I(1) i created_href_new [OF inv n h] by (simp add: update_pre_def mutation_ok_def create_succeeded_def)
  show "\<exists>i. GetByIntentID (sys_store \<sigma>) k = Some i \<and> Phase i = PhaseCreating \<and> IntentID i = k"
    using i GetByIntentID_key [OF I(1) i(1)] by blast
  have "VAppHREF res \<in> hrefs \<sigma>" using h by force
  then show "VAppHREF res \<noteq> []" using I(3) unfolding names_inv_def by metis
qed

section \<open>Properties\<close>

text \<open>
  C1: the poll never queues a vApp of this process for deletion. \<^verbatim>\<open>ownsVApp\<close> reads two maps one
  after the other while creates finish and fail, and \<^verbatim>\<open>AddLeftover\<close> runs later still; nevertheless,
  whenever the poll is about to call \<^verbatim>\<open>AddLeftover\<close>, the name is still owned by nobody: it is neither in
  flight nor queued for cleanup, and no running create uses it.
\<close>

theorem own_vapp_never_leftover:
  assumes "sys_reachable sem lib cur cap cfg \<sigma>" and "pc \<sigma> = PcAdd v vs known ok"
  shows "\<not> ownsVApp (rcl \<sigma>) (vapp_Name v) \<and>
         (\<forall>k n. GoCreateNamed k n \<in> set (goroutines (rcl \<sigma>)) \<longrightarrow> n \<noteq> vapp_Name v)"
proof -
  note I = sys_invD [OF reachable_inv [OF assms(1)]]
  have v: "vapp_Name v \<notin> set (inflightCreates (rcl \<sigma>))" "vapp_Name v \<notin> fail_names (rcl \<sigma>)"
    using I(4) by (auto simp: assms(2))
  have "n \<in> set (inflightCreates (rcl \<sigma>))" if "GoCreateNamed k n \<in> set (goroutines (rcl \<sigma>))" for k n
  proof -
    have "n \<in># holds (gos (rcl \<sigma>))" using that by (force simp: gather_mem)
    then show ?thesis using I(3) unfolding names_inv_def by blast
  qed
  then show ?thesis using v by (auto simp: ownsVApp_def domIff)
qed

theorem own_vapp_never_leftover_witness: "\<not> ownsVApp (rcl demo_add) (vapp_Name demo_vapp)"
  using own_vapp_never_leftover [OF demo_add_reachable, of demo_vapp "[]" "[''h-old'']" True]
  by (simp add: demo_add_def)

text \<open>
  C5: when a create finishes, the HREF it reports is tracked by nobody, so storing it replaces no
  instance: afterwards the HREF finds the instance of the create, running, and every other
  instance is unchanged. The branch of \<^verbatim>\<open>UpdateInstance\<close> that drops a duplicate is never taken.
\<close>

theorem create_stores_new_href:
  assumes "sys_reachable sem lib cur cap cfg \<sigma>" and "GoCreateNamed k n \<in> set (goroutines (rcl \<sigma>))"
    and "(VAppHREF res, n) \<in> set (vapps \<sigma>)" and "r' = doCreate_update lib clk (Inr res) k (rcl \<sigma>)"
  shows "GetByVAppHREF (sys_store \<sigma>) (VAppHREF res) = None \<and>
         (\<exists>i. GetByVAppHREF (store r') (VAppHREF res) = Some i \<and> IntentID i = k \<and> Phase i = PhaseRunning) \<and>
         (\<forall>k'. k' \<noteq> k \<longrightarrow> GetByIntentID (store r') k' = GetByIntentID (sys_store \<sigma>) k')"
proof -
  note inv = reachable_inv [OF assms(1)]
  note I = sys_invD [OF inv]
  note S = stored_instance [OF inv assms(2,3)]
  let ?fn = "create_succeeded (clk 2) res"
  obtain i where i: "GetByIntentID (sys_store \<sigma>) k = Some i" "IntentID i = k" using S(2) by blast
  have st: "store r' = UpdateInstance (clk 3) k ?fn (sys_store \<sigma>)"
    by (simp add: assms(4) doCreate_update_def Let_def recordCreateSuccess_def)
  note G' = GetByIntentID_UpdateInstance [OF S(1), of "clk 3" "clk 2", folded st]
  have inv': "index_inv (store r')" unfolding st by (rule UpdateInstance_inv [OF S(1)])
  have "GetByVAppHREF (store r') (VAppHREF res) = Some (stamp (clk 3) ?fn i)"
    unfolding GetByVAppHREF_iff [OF inv'] G' using i S(3) by (simp add: stamp_def create_succeeded_def)
  moreover have "n \<in># active (gos (rcl \<sigma>))" using assms(2) by (force simp: gather_mem)
  note created_href_new [OF inv this assms(3)]
  moreover have "\<forall>k'. k' \<noteq> k \<longrightarrow> GetByIntentID (store r') k' = GetByIntentID (sys_store \<sigma>) k'"
    unfolding G' by simp
  ultimately show ?thesis using i(2) by (auto simp: stamp_def create_succeeded_def)
qed

theorem create_stores_new_href_witness:
  "let res = \<lparr>VAppHREF = ''h-a'', VAppName = ''runner-a'', res_VMName = ''vm'', res_IPAddress = ''10.0.0.1'', res_OSType = []\<rparr>
   in \<exists>i. GetByVAppHREF (store (doCreate_update demo_lib (\<lambda>n. 9) (Inr res) ''a'' (rcl demo_posted))) ''h-a'' = Some i \<and>
          IntentID i = ''a'' \<and> Phase i = PhaseRunning"
  using create_stores_new_href [OF demo_posted_reachable demo_posted_state(1), of _ _ "\<lambda>n. 9", OF _ refl,
      of "\<lparr>VAppHREF = ''h-a'', VAppName = ''runner-a'', res_VMName = ''vm'', res_IPAddress = ''10.0.0.1'', res_OSType = []\<rparr>"]
  by (simp add: demo_posted_state(2))

text \<open>
  C8: no instance is stuck in a transient phase. An instance is in \<^verbatim>\<open>PhaseCreating\<close> exactly while one
  goroutine creates it, and in \<^verbatim>\<open>PhaseDeleting\<close> only while a goroutine deletes it; no intent is ever
  created twice at the same time, and a create never runs for an intent the store has forgotten.
\<close>

theorem transient_phase_has_goroutine:
  assumes "sys_reachable sem lib cur cap cfg \<sigma>"
  shows "(GetByIntentID (sys_store \<sigma>) k = Some i \<longrightarrow>
            (Phase i = PhaseCreating \<longleftrightarrow> count (creating (gos (rcl \<sigma>))) k = 1) \<and>
            (Phase i = PhaseDeleting \<longrightarrow> (\<exists>h. GoDelete k h \<in> set (goroutines (rcl \<sigma>))))) \<and>
         count (creating (gos (rcl \<sigma>))) k \<le> 1 \<and>
         (k \<in># creating (gos (rcl \<sigma>)) \<longrightarrow> GetByIntentID (sys_store \<sigma>) k \<noteq> None)"
proof -
  note I = sys_invD(2) [OF reachable_inv [OF assms]]
  have le: "count (creating (gos (rcl \<sigma>))) k \<le> 1" by (rule insts_invD(3) [OF I])
  then have one: "k \<in># creating (gos (rcl \<sigma>)) \<longleftrightarrow> count (creating (gos (rcl \<sigma>))) k = 1"
    unfolding count_greater_zero_iff [symmetric] by linarith
  have "(Phase i = PhaseCreating \<longleftrightarrow> count (creating (gos (rcl \<sigma>))) k = 1) \<and>
      (Phase i = PhaseDeleting \<longrightarrow> (\<exists>h. GoDelete k h \<in> set (goroutines (rcl \<sigma>))))"
    if "GetByIntentID (sys_store \<sigma>) k = Some i"
    using iokD(4,5) [OF insts_invD(1) [OF I that]] one by (auto simp: deleting_mem)
  then show ?thesis using le insts_invD(2) [OF I, of k] by blast
qed

theorem transient_phase_has_goroutine_witness:
  "count (creating (gos (rcl demo_posted))) ''a'' = 1 \<and> GetByIntentID (sys_store demo_posted) ''a'' \<noteq> None"
proof -
  have "map_option Phase (GetByIntentID (sys_store demo_posted) ''a'') = Some PhaseCreating" by code_simp
  then show ?thesis using transient_phase_has_goroutine [OF demo_posted_reachable, of "''a''"] by auto
qed



text \<open>
  C10: while the startup hold lasts no create runs and no instance is being created: everything in
  flight is a deletion.
\<close>

theorem no_create_while_held:
  assumes "sys_reachable sem lib cur cap cfg \<sigma>" and "startupHold (rcl \<sigma>)"
  shows "(\<forall>g \<in> set (goroutines (rcl \<sigma>)). g_kind g = opDelete) \<and>
         (\<forall>k i. GetByIntentID (sys_store \<sigma>) k = Some i \<longrightarrow> Phase i \<noteq> PhaseCreating)"
proof -
  note I = sys_invD [OF reachable_inv [OF assms(1)]]
  have none: "running opCreate (gos (rcl \<sigma>)) = 0" using I(8) assms(2) by (simp add: hold_inv_def)
  then have "\<forall>g \<in># gos (rcl \<sigma>). g_kind g \<noteq> opCreate" by (simp only: running_zero)
  then have "\<forall>g \<in> set (goroutines (rcl \<sigma>)). g_kind g = opDelete" by (metis opKind.exhaust set_mset_mset)
  moreover have "Phase i \<noteq> PhaseCreating" if "GetByIntentID (sys_store \<sigma>) k = Some i" for k i
    using iokD(4) [OF insts_invD(1) [OF I(2) that]] creating_running [OF none] by simp
  ultimately show ?thesis by blast
qed

theorem no_create_while_held_witness:
  "startupHold (rcl demo_deleting) \<and> map g_kind (goroutines (rcl demo_deleting)) = [opDelete]"
proof -
  have held: "startupHold (rcl demo_deleting)" and "length (goroutines (rcl demo_deleting)) = 1" by code_simp+
  then obtain g where g: "goroutines (rcl demo_deleting) = [g]" by (auto simp: length_Suc_conv)
  then show ?thesis using no_create_while_held [OF demo_deleting_reachable held] held by simp
qed

text \<open>
  C11: a delete goroutine only works on an instance whose deletion was requested (by fleeting, by the
  garbage collector or as a leftover) and deletes that instance's own vApp.
\<close>

theorem deletes_only_requested:
  assumes "sys_reachable sem lib cur cap cfg \<sigma>" and "GoDelete k h \<in> set (goroutines (rcl \<sigma>))"
    and "GetByIntentID (sys_store \<sigma>) k = Some i"
  shows "DeleteRequestedAt i \<noteq> None \<and> ID i = h \<and> h \<noteq> [] \<and>
         Phase i \<in> {PhasePendingDelete, PhaseDeleting, PhaseDeleted}"
proof -
  note I = sys_invD(2) [OF reachable_inv [OF assms(1)]]
  have "(k, h) \<in># deleting (gos (rcl \<sigma>))" using assms(2) by (simp add: deleting_mem)
  then show ?thesis
    using iokD(6,7) [OF insts_invD(1) [OF I assms(3)], of h] by (auto simp: doomed_def)
qed

theorem deletes_only_requested_witness:
  "\<exists>i. GetByIntentID (sys_store demo_deleting) ''h-old'' = Some i \<and> DeleteRequestedAt i \<noteq> None \<and> ID i = ''h-old''"
proof -
  have "GoDelete ''h-old'' ''h-old'' \<in> set (goroutines (rcl demo_deleting))"
    "GetByIntentID (sys_store demo_deleting) ''h-old'' \<noteq> None" by code_simp+
  then show ?thesis using deletes_only_requested [OF demo_deleting_reachable] by blast
qed

text \<open>
  C18: the record of every tracked instance fits its phase: an HREF from the moment it runs and none
  before, the timestamps of the phase it is in, and a leftover is exactly an instance that was never
  asked for, tracked under its own HREF.
\<close>

theorem instances_well_formed:
  assumes "sys_reachable sem lib cur cap cfg \<sigma>" and "GetByIntentID (sys_store \<sigma>) k = Some i"
  shows "IntentID i = k \<and>
         (ID i = [] \<longleftrightarrow> Phase i \<in> {PhasePendingCreate, PhaseCreating}) \<and>
         (Phase i = PhaseCreating \<longrightarrow> CreateStartedAt i \<noteq> None) \<and>
         (Phase i = PhaseRunning \<longrightarrow> CreateCompletedAt i \<noteq> None) \<and>
         (Phase i = PhasePendingDelete \<longrightarrow> DeleteRequestedAt i \<noteq> None) \<and>
         (Phase i = PhaseDeleting \<longrightarrow> DeleteStartedAt i \<noteq> None) \<and>
         (Phase i = PhaseDeleted \<longrightarrow> DeleteCompletedAt i \<noteq> None) \<and>
         (Leftover i \<longleftrightarrow> CreatedAt i = None) \<and> (Leftover i \<longrightarrow> ID i = k)"
proof -
  note I = sys_invD [OF reachable_inv [OF assms(1)]]
  have k: "IntentID i = k" by (rule GetByIntentID_key [OF I(1) assms(2)])
  have "inst_ok i" by (rule iokD(1) [OF insts_invD(1) [OF I(2) assms(2)]])
  then show ?thesis unfolding inst_ok_def k by (cases "Phase i") (auto simp: doomed_def)
qed

theorem instances_well_formed_witness:
  "\<exists>i. GetByIntentID (sys_store demo_deleting) ''h-old'' = Some i \<and> DeleteStartedAt i \<noteq> None \<and> Leftover i"
proof -
  have "map_option (\<lambda>i. (Phase i, CreatedAt i)) (GetByIntentID (sys_store demo_deleting) ''h-old'') = Some (PhaseDeleting, None)"
    by code_simp
  then show ?thesis using instances_well_formed [OF demo_deleting_reachable] by fastforce
qed

end
