(* ===== verification/Phase_Machine.thy ===== *)
theory Phase_Machine
  imports System_Demo
begin

text \<open>
  The phases of an instance as a state machine: which phase changes the steps of the running plugin
  can make.
\<close>

section \<open>The transitions\<close>

definition phase_edge :: "Phase \<Rightarrow> Phase \<Rightarrow> bool" where
  "phase_edge p q \<longleftrightarrow> p = q \<or> (p, q) \<in>
     {(PhasePendingCreate, PhaseCreating), (PhaseCreating, PhasePendingCreate), (PhaseCreating, PhaseRunning),
      (PhaseRunning, PhasePendingDelete), (PhaseRunning, PhaseDeleted),
      (PhasePendingDelete, PhaseDeleting), (PhasePendingDelete, PhaseDeleted),
      (PhaseDeleting, PhasePendingDelete), (PhaseDeleting, PhaseDeleted),
      (PhaseDeleted, PhasePendingDelete), (PhaseDeleted, PhaseDeleting)}"

lemma phase_edge_refl [simp]: "phase_edge p p"
  by (simp add: phase_edge_def)

lemma doomed_edge: "doomed i \<Longrightarrow> q \<in> {PhasePendingDelete, PhaseDeleting, PhaseDeleted} \<Longrightarrow> phase_edge (Phase i) q"
  by (auto simp: doomed_def phase_edge_def)

lemma edge_pending_delete: "phase_edge (Phase i) (Phase (pending_delete now i))"
  by (simp add: pending_delete_def phase_edge_def)

lemma edge_gc_delete: "phase_edge (Phase i) (Phase (gc_delete now i))"
  by (simp add: gc_delete_def phase_edge_def)

lemma edge_observed: "phase_edge (Phase i) (Phase (observed now n v ip vas vs os i))"
  by (simp add: observed_def)

lemma edge_disappear: "phase_edge (Phase i) (Phase (MarkDisappeared_body now known i))"
  by (cases "Phase i") (simp_all add: MarkDisappeared_body_def phase_edge_def Let_def)

definition edges_ok :: "(string \<Rightarrow> Instance option) \<Rightarrow> (string \<Rightarrow> Instance option) \<Rightarrow> bool" where
  "edges_ok G G' \<longleftrightarrow> (\<forall>k i i'. G k = Some i \<longrightarrow> G' k = Some i' \<longrightarrow> phase_edge (Phase i) (Phase i'))"

lemma edges_ok_refl [simp]: "edges_ok G G"
  by (simp add: edges_ok_def)

lemma edges_ok_update:
  assumes "\<And>i. G k = Some i \<Longrightarrow> phase_edge (Phase i) (Phase (f i))"
  shows "edges_ok G (G(k := map_option f (G k)))"
  using assms by (auto simp: edges_ok_def split: if_splits)

lemma edges_ok_new: "G k = None \<Longrightarrow> edges_ok G (G(k \<mapsto> i))"
  by (auto simp: edges_ok_def)

context pointwise_op
begin

lemma op_edges:
  assumes "pre s" and "\<And>i. phase_edge (Phase i) (Phase (f i))"
  shows "edges_ok (get s) (get (op s))"
  using assms(2) by (auto simp: edges_ok_def get_op [OF assms(1)])

end

section \<open>Every step follows them\<close>

lemma AddLeftover_edges:
  assumes inv: "index_inv s" and I: "insts_inv (GetByIntentID s) M V ids" and h: "h \<in> fst ` V" "h \<notin> ids" "h \<noteq> []"
  shows "edges_ok (GetByIntentID s) (GetByIntentID (snd (AddLeftover now h n s)))"
proof (cases "GetByVAppHREF s h")
  case None
  note new = untracked_href(1) [OF inv I h None]
  show ?thesis unfolding GetByIntentID_AddLeftover [OF inv h(3) None new] by (rule edges_ok_new) (rule new)
next
  case (Some i)
  then show ?thesis by (simp add: AddLeftover_tracked)
qed

lemma creates_go_edges:
  assumes inv: "sys_inv sem cur cap cfg \<sigma>" and pc: "pc \<sigma> = PcCreatesLoop (i # is)"
    and body: "dispatchCreates_body sem clk i (rcl \<sigma>) = (True, r')"
  shows "edges_ok (GetByIntentID (sys_store \<sigma>)) (GetByIntentID (store r'))"
proof -
  note I = sys_invD [OF inv]
  let ?fn = "mark_creating (clk 1)" and ?s = "sys_store \<sigma>"
  have pre: "update_pre (IntentID i) ?fn ?s" by (rule update_pre_keep [OF I(1)]) simp_all
  have st: "store r' = UpdateInstance (clk 2) (IntentID i) ?fn ?s"
    using body by (auto simp: dispatchCreates_body_def Let_def split: prod.splits bool.splits)
  have "\<exists>j. GetByIntentID ?s (IntentID i) = Some j \<and> Phase j = PhasePendingCreate" using I(4) by (simp add: pc)
  then show ?thesis
    unfolding st GetByIntentID_UpdateInstance [OF pre]
    by (intro edges_ok_update) (auto simp: stamp_def phase_edge_def)
qed

lemma deletes_go_edges:
  assumes inv: "sys_inv sem cur cap cfg \<sigma>" and pc: "pc \<sigma> = PcDeletesLoop (i # is)"
    and body: "dispatchDeletes_body sem clk i (rcl \<sigma>) = (b, r')"
  shows "edges_ok (GetByIntentID (sys_store \<sigma>)) (GetByIntentID (store r'))"
proof -
  note I = sys_invD [OF inv]
  let ?fn = "mark_deleting (clk 1)" and ?s = "sys_store \<sigma>"
  have pre: "update_pre (IntentID i) ?fn ?s" by (rule update_pre_keep [OF I(1)]) simp_all
  have h: "ID i \<in> hrefs \<sigma>" and dm: "\<And>j. GetByIntentID ?s (IntentID i) = Some j \<Longrightarrow> doomed j"
    using I(4) unfolding pc by auto
  have "ID i \<noteq> []" using h I(3) unfolding names_inv_def by metis
  then have "store r' = ?s \<or> store r' = UpdateInstance (clk 2) (IntentID i) ?fn ?s"
    using body by (auto simp: dispatchDeletes_body_def Let_def split: prod.splits bool.splits)
  moreover have "edges_ok (GetByIntentID ?s) (GetByIntentID (UpdateInstance (clk 2) (IntentID i) ?fn ?s))"
    unfolding GetByIntentID_UpdateInstance [OF pre]
    by (intro edges_ok_update doomed_edge dm) (simp_all add: stamp_def)
  ultimately show ?thesis by auto
qed

lemma cycle_step_edges:
  assumes inv: "sys_inv sem cur cap cfg \<sigma>" and step: "cycle_step sem \<sigma> \<sigma>'"
  shows "edges_ok (GetByIntentID (sys_store \<sigma>)) (GetByIntentID (sys_store \<sigma>'))"
proof -
  note I = sys_invD [OF inv]
  from step show ?thesis
  proof (cases rule: cycle_step.cases)
    case (poll_update v vs known ok now vm ip vas vms os)
    then show ?thesis using observe.op_edges [OF I(1) edge_observed] by (simp add: upd_store_def)
  next
    case (poll_add v vs known ok now)
    have v: "(vapp_HREF v, vapp_Name v) \<in> set (vapps \<sigma>)" using I(4) by (simp add: poll_add(2))
    then have h: "vapp_HREF v \<in> hrefs \<sigma>" by force
    then have "vapp_HREF v \<notin> set (used_ids \<sigma>)" "vapp_HREF v \<noteq> []"
      using I(3) unfolding names_inv_def by (blast, metis)
    then show ?thesis using AddLeftover_edges [OF I(1,2) h] by (simp add: poll_add(1) upd_store_def)
  next
    case (poll_mark known ok now)
    then show ?thesis using disappear.op_edges [OF I(1) edge_disappear] by (simp add: upd_store_def)
  next
    case (creates_go i "is" clk r')
    then show ?thesis using creates_go_edges [OF inv] by simp
  next
    case (creates_stop i "is" clk r')
    then show ?thesis by (auto simp: dispatchCreates_body_def Let_def split: prod.splits bool.splits)
  next
    case (deletes_go i "is" clk r')
    then show ?thesis using deletes_go_edges [OF inv] by simp
  next
    case (deletes_stop i "is" clk r')
    then show ?thesis using deletes_go_edges [OF inv] by simp
  next
    case (cleanups_go e now r')
    then show ?thesis by (auto simp: dispatchCreateCleanups_body_def Let_def split: prod.splits bool.splits if_splits)
  next
    case (cleanups_stop e now r')
    then show ?thesis by (auto simp: dispatchCreateCleanups_body_def Let_def split: prod.splits bool.splits if_splits)
  next
    case (gc_mark i "is" now)
    then show ?thesis using mark_gc.op_edges [OF I(1) edge_gc_delete] by (simp add: upd_store_def)
  next
    case (cycle_end now clk started pollErr)
    then show ?thesis
      by (auto simp: edges_ok_def upd_store_def publishStatus_fields GetByIntentID_Prune [OF I(1)] split: if_splits)
  qed (simp_all add: updateStartupHold_fields)
qed

lemma update_edges:
  assumes "update_pre k fn s" and "\<And>i. GetByIntentID s k = Some i \<Longrightarrow> phase_edge (Phase i) (Phase (fn i))"
  shows "edges_ok (GetByIntentID s) (GetByIntentID (UpdateInstance now k fn s))"
  unfolding GetByIntentID_UpdateInstance [OF assms(1)]
  by (rule edges_ok_update) (use assms(2) in \<open>simp add: stamp_def\<close>)

lemma create_failed_edges:
  assumes inv: "sys_inv sem cur cap cfg \<sigma>" and k: "GoCreateFailed k \<in> set (goroutines (rcl \<sigma>))"
  shows "edges_ok (GetByIntentID (sys_store \<sigma>))
      (GetByIntentID (UpdateInstance now k (create_failed lib t msg) (sys_store \<sigma>)))"
proof (rule update_edges)
  note I = sys_invD [OF inv]
  have "k \<in># creating (gos (rcl \<sigma>))" using k by (force simp: gather_def)
  then show "phase_edge (Phase i) (Phase (create_failed lib t msg i))" if "GetByIntentID (sys_store \<sigma>) k = Some i" for i
    using iokD(4) [OF insts_invD(1) [OF I(2) that]] by (simp add: create_failed_def Let_def phase_edge_def)
  show "update_pre k (create_failed lib t msg) (sys_store \<sigma>)"
    by (rule update_pre_keep [OF I(1)]) (simp_all add: create_failed_def Let_def)
qed

lemma create_stored_edges:
  assumes inv: "sys_inv sem cur cap cfg \<sigma>" and g: "GoCreateNamed k n \<in> set (goroutines (rcl \<sigma>))"
    and h: "(VAppHREF res, n) \<in> set (vapps \<sigma>)"
  shows "edges_ok (GetByIntentID (sys_store \<sigma>))
      (GetByIntentID (UpdateInstance now k (create_succeeded t res) (sys_store \<sigma>)))"
proof (rule update_edges)
  note I = sys_invD [OF inv]
  have k: "k \<in># creating (gos (rcl \<sigma>))" and n: "n \<in># active (gos (rcl \<sigma>))" using g by (force simp: gather_def)+
  obtain i where i: "GetByIntentID (sys_store \<sigma>) k = Some i" "Phase i = PhaseCreating" "ID i = []"
    using creating_instance [OF I(2) k] by metis
  then show "phase_edge (Phase j) (Phase (create_succeeded t res j))" if "GetByIntentID (sys_store \<sigma>) k = Some j" for j
    using that by (simp add: create_succeeded_def phase_edge_def)
  show "update_pre k (create_succeeded t res) (sys_store \<sigma>)"
    using I(1) i created_href_new [OF inv n h] by (simp add: update_pre_def mutation_ok_def create_succeeded_def)
qed

lemma delete_done_edges:
  assumes inv: "sys_inv sem cur cap cfg \<sigma>" and g: "GoDelete k h \<in> set (goroutines (rcl \<sigma>))"
    and fn: "\<And>i. ID (fn i) = ID i" "\<And>i. IntentID (fn i) = IntentID i" "\<And>i. Phase (fn i) \<in> {PhasePendingDelete, PhaseDeleted}"
  shows "edges_ok (GetByIntentID (sys_store \<sigma>)) (GetByIntentID (UpdateInstance now k fn (sys_store \<sigma>)))"
proof (rule update_edges)
  note I = sys_invD [OF inv]
  have "(k, h) \<in># deleting (gos (rcl \<sigma>))" using g by (force simp: gather_def)
  then have "doomed i" if "GetByIntentID (sys_store \<sigma>) k = Some i" for i
    using iokD(6) [OF insts_invD(1) [OF I(2) that]] by blast
  then show "phase_edge (Phase i) (Phase (fn i))" if "GetByIntentID (sys_store \<sigma>) k = Some i" for i
    using that fn(3) [of i] doomed_edge by blast
  show "update_pre k fn (sys_store \<sigma>)" by (rule update_pre_keep [OF I(1) fn(1,2)])
qed

lemma worker_step_edges:
  assumes inv: "sys_inv sem cur cap cfg \<sigma>" and step: "worker_step sem lib \<sigma> \<sigma>'"
  shows "edges_ok (GetByIntentID (sys_store \<sigma>)) (GetByIntentID (sys_store \<sigma>'))"
proof -
  note I = sys_invD [OF inv]
  from step show ?thesis
  proof (cases rule: worker_step.cases)
    case (create_failed k clk err)
    then show ?thesis
      using create_failed_edges [OF inv] by (simp add: doCreate_update_def Let_def recordCreateFailure_fields move_def)
  next
    case (create_stored k n res clk)
    then show ?thesis
      using create_stored_edges [OF inv] by (simp add: doCreate_update_def Let_def recordCreateSuccess_def move_def)
  next
    case (delete_done k h clk derr)
    then show ?thesis
      using delete_done_edges [OF inv delete_done(2), of "delete_succeeded (clk 0)"]
        delete_done_edges [OF inv delete_done(2), of "delete_failed lib (clk 0) msg" for msg]
      by (simp add: doDelete_def move_def Let_def delete_succeeded_def delete_failed_def split: option.split)
  next
    case (increase k now)
    note new = untracked_new(1) [OF I(1,2) increase(2,3)]
    show ?thesis
      unfolding increase(1) using edges_ok_new [of "GetByIntentID (sys_store \<sigma>)" k, OF new]
      by (simp add: upd_store_def GetByIntentID_AddCreateIntent [OF I(1) new])
  next
    case (decrease now k)
    then show ?thesis using mark_deletion.op_edges [OF I(1) edge_pending_delete] by (simp add: upd_store_def)
  next
    case (map_order xs ys)
    then show ?thesis using reorder_store(2) [OF I(1)] by (simp add: upd_store_def)
  qed (simp_all add: move_def createRecorded_def finishCleanup_fields trigger_def)
qed

section \<open>Property\<close>

text \<open>
  C9: in every reachable state, whatever step comes next, the phase of an instance changes only along
  the edges of the lifecycle. In particular an instance that is being deleted never becomes
  pending, creating or running again, and an instance that runs was created before.
\<close>

theorem phases_follow_lifecycle:
  assumes "sys_reachable sem lib cur cap cfg \<sigma>" and "sys_step sem lib \<sigma> \<sigma>'"
    and "GetByIntentID (sys_store \<sigma>) k = Some i" and "GetByIntentID (sys_store \<sigma>') k = Some i'"
  shows "phase_edge (Phase i) (Phase i') \<and>
         (Phase i \<in> {PhasePendingDelete, PhaseDeleting, PhaseDeleted} \<longrightarrow>
            Phase i' \<in> {PhasePendingDelete, PhaseDeleting, PhaseDeleted})"
proof -
  note inv = sys.inv_reachable [OF assms(1)]
  have "edges_ok (GetByIntentID (sys_store \<sigma>)) (GetByIntentID (sys_store \<sigma>'))"
    using assms(2) cycle_step_edges [OF inv] worker_step_edges [OF inv] unfolding sys_step_def by blast
  then have "phase_edge (Phase i) (Phase i')" using assms(3,4) by (simp add: edges_ok_def)
  then show ?thesis by (auto simp: phase_edge_def)
qed

theorem phases_follow_lifecycle_witness:
  "\<exists>i i'. GetByIntentID (sys_store demo_deleting) ''h-old'' = Some i \<and>
     GetByIntentID (store (doDelete demo_lib (\<lambda>n. 9) None ''h-old''
       (move (GoDelete ''h-old'' ''h-old'') [GoRelease opDelete] (rcl demo_deleting)))) ''h-old'' = Some i' \<and>
     phase_edge (Phase i) (Phase i')"
proof -
  let ?r = "doDelete demo_lib (\<lambda>n. 9) None ''h-old'' (move (GoDelete ''h-old'' ''h-old'') [GoRelease opDelete] (rcl demo_deleting))"
  have "GoDelete ''h-old'' ''h-old'' \<in> set (goroutines (rcl demo_deleting))" by code_simp
  then have "sys_step counting_sem demo_lib demo_deleting (demo_deleting\<lparr>rcl := ?r\<rparr>)"
    unfolding sys_step_def by (intro disjI2 delete_done)
  note edge = phases_follow_lifecycle [OF demo_deleting_reachable this]
  have "GetByIntentID (sys_store demo_deleting) ''h-old'' \<noteq> None" "GetByIntentID (store ?r) ''h-old'' \<noteq> None"
    by code_simp+
  then show ?thesis using edge by auto
qed

end
