(* ===== verification/Adequacy.thy ===== *)
theory Adequacy
  imports System
begin

text \<open>
  The interleaved model covers the sequential one: a cycle that runs without interference,
  \<^const>\<open>reconcileOnce\<close>, is a run of steps of the reconcile goroutine.
\<close>

section \<open>Segments of the cycle\<close>

abbreviation cycle_run :: "'s sem_lib \<Rightarrow> ('s, 'b) system \<Rightarrow> ('s, 'b) system \<Rightarrow> bool" where
  "cycle_run sem \<equiv> (cycle_step sem)\<^sup>*\<^sup>*"

lemma run_step: "cycle_step sem \<sigma> \<sigma>' \<Longrightarrow> cycle_run sem \<sigma>' \<sigma>'' \<Longrightarrow> cycle_run sem \<sigma> \<sigma>''"
  by (rule converse_rtranclp_into_rtranclp)

lemma run_one: "cycle_step sem \<sigma> \<sigma>' \<Longrightarrow> cycle_run sem \<sigma> \<sigma>'"
  by (rule r_into_rtranclp)

lemma pc_self: "pc \<sigma> = p \<Longrightarrow> \<sigma>\<lparr>pc := p\<rparr> = \<sigma>"
  by (cases \<sigma>) simp

lemma run_untracked:
  assumes pc: "pc \<sigma> = PcPoll (v # vs) known ok"
    and b: "pollVCD_vapp now ans (ownsVApp (rcl \<sigma>)) v skip (sys_store \<sigma>) = (skip', s')"
    and None: "GetByVAppHREF (sys_store \<sigma>) (vapp_HREF v) = None"
  shows "cycle_run sem \<sigma> (\<sigma>\<lparr>rcl := (rcl \<sigma>)\<lparr>store := s'\<rparr>, pc := PcPoll vs known ok\<rparr>)"
proof -
  let ?r = "rcl \<sigma>"
  have 1: "cycle_step sem \<sigma> (\<sigma>\<lparr>pc := PcOwn1 v vs known ok\<rparr>)" using poll_untracked [OF pc] None by blast
  show ?thesis
  proof (cases "ownsVApp ?r (vapp_Name v)")
    case True
    then have s': "s' = sys_store \<sigma>" using b None by (simp add: pollVCD_vapp_def Let_def)
    show ?thesis
    proof (cases "vapp_Name v \<in> set (inflightCreates ?r)")
      case True
      then have "cycle_step sem (\<sigma>\<lparr>pc := PcOwn1 v vs known ok\<rparr>) (\<sigma>\<lparr>pc := PcPoll vs known ok\<rparr>)"
        using own_inflight [of "\<sigma>\<lparr>pc := PcOwn1 v vs known ok\<rparr>"] by simp
      then show ?thesis using run_step [OF 1 run_one] by (simp add: s')
    next
      case False
      then have "cycle_step sem (\<sigma>\<lparr>pc := PcOwn1 v vs known ok\<rparr>) (\<sigma>\<lparr>pc := PcOwn2 v vs known ok\<rparr>)"
        using own_second [of "\<sigma>\<lparr>pc := PcOwn1 v vs known ok\<rparr>"] by simp
      moreover have "cycle_step sem (\<sigma>\<lparr>pc := PcOwn2 v vs known ok\<rparr>) (\<sigma>\<lparr>pc := PcPoll vs known ok\<rparr>)"
        using own_failed [of "\<sigma>\<lparr>pc := PcOwn2 v vs known ok\<rparr>"] False True by (simp add: ownsVApp_def)
      ultimately show ?thesis using run_step [OF 1 run_step [OF _ run_one]] by (simp add: s')
    qed
  next
    case False
    then have s': "s' = snd (AddLeftover now (vapp_HREF v) (vapp_Name v) (sys_store \<sigma>))"
      and n: "vapp_Name v \<notin> set (inflightCreates ?r)" "map_of (failedCreateCleanups ?r) (vapp_Name v) = None"
      using b None by (auto simp: pollVCD_vapp_def Let_def ownsVApp_def split: if_splits)
    have "cycle_step sem (\<sigma>\<lparr>pc := PcOwn1 v vs known ok\<rparr>) (\<sigma>\<lparr>pc := PcOwn2 v vs known ok\<rparr>)"
      using own_second [of "\<sigma>\<lparr>pc := PcOwn1 v vs known ok\<rparr>"] n(1) by simp
    moreover have "cycle_step sem (\<sigma>\<lparr>pc := PcOwn2 v vs known ok\<rparr>) (\<sigma>\<lparr>pc := PcAdd v vs known ok\<rparr>)"
      using own_not [of "\<sigma>\<lparr>pc := PcOwn2 v vs known ok\<rparr>"] n(2) by simp
    moreover have "cycle_step sem (\<sigma>\<lparr>pc := PcAdd v vs known ok\<rparr>) (\<sigma>\<lparr>rcl := ?r\<lparr>store := s'\<rparr>, pc := PcPoll vs known ok\<rparr>)"
      using poll_add [of "\<sigma>\<lparr>pc := PcAdd v vs known ok\<rparr>" v vs known ok sem now] by (simp add: upd_store_pc s')
    ultimately show ?thesis using run_step [OF 1 run_step [OF _ run_step [OF _ run_one]]] by blast
  qed
qed

lemma run_tracked:
  assumes pc: "pc \<sigma> = PcPoll (v # vs) known ok"
    and b: "pollVCD_vapp now ans (ownsVApp (rcl \<sigma>)) v skip (sys_store \<sigma>) = (skip', s')"
    and Some: "GetByVAppHREF (sys_store \<sigma>) (vapp_HREF v) = Some inst"
  shows "cycle_run sem \<sigma> (\<sigma>\<lparr>rcl := (rcl \<sigma>)\<lparr>store := s'\<rparr>, pc := PcPoll vs known ok\<rparr>)"
proof -
  have 1: "cycle_step sem \<sigma> (\<sigma>\<lparr>pc := PcUpd v vs known ok\<rparr>)" using poll_tracked [OF pc] Some by blast
  have "s' = sys_store \<sigma> \<or> (\<exists>vm ip vas vms os.
      s' = snd (UpdateFromVCD now (vapp_HREF v) (vapp_Name v) vm ip vas vms os (sys_store \<sigma>)))"
    using b Some by (auto simp: pollVCD_vapp_def Let_def split: if_splits sum.splits option.splits) blast+
  moreover have "cycle_step sem (\<sigma>\<lparr>pc := PcUpd v vs known ok\<rparr>) (\<sigma>\<lparr>pc := PcPoll vs known ok\<rparr>)"
    using poll_keep [of "\<sigma>\<lparr>pc := PcUpd v vs known ok\<rparr>"] by simp
  moreover have "cycle_step sem (\<sigma>\<lparr>pc := PcUpd v vs known ok\<rparr>)
      (\<sigma>\<lparr>rcl := (rcl \<sigma>)\<lparr>store := snd (UpdateFromVCD now (vapp_HREF v) (vapp_Name v) vm ip vas vms os (sys_store \<sigma>))\<rparr>,
         pc := PcPoll vs known ok\<rparr>)" for vm ip vas vms os
    using poll_update [of "\<sigma>\<lparr>pc := PcUpd v vs known ok\<rparr>" v vs known ok sem now vm ip vas vms os] by (simp add: upd_store_pc)
  ultimately show ?thesis using run_step [OF 1 run_one] by auto
qed

lemma run_vapp:
  assumes pc: "pc \<sigma> = PcPoll (v # vs) known ok"
    and b: "pollVCD_vapp now ans (ownsVApp (rcl \<sigma>)) v skip (sys_store \<sigma>) = (skip', s')"
  shows "cycle_run sem \<sigma> (\<sigma>\<lparr>rcl := (rcl \<sigma>)\<lparr>store := s'\<rparr>, pc := PcPoll vs known ok\<rparr>)"
  using run_untracked [OF assms] run_tracked [OF assms] by (cases "GetByVAppHREF (sys_store \<sigma>) (vapp_HREF v)") auto

lemma run_poll_loop:
  "pc \<sigma> = PcPoll vs known ok \<Longrightarrow>
     cycle_run sem \<sigma> (\<sigma>\<lparr>rcl := (rcl \<sigma>)\<lparr>store := pollVCD_loop clk ans (ownsVApp (rcl \<sigma>)) vs skip (sys_store \<sigma>)\<rparr>,
       pc := PcPoll [] known ok\<rparr>)"
proof (induction vs arbitrary: \<sigma> clk skip)
  case (Cons v vs)
  obtain skip' s' where b: "pollVCD_vapp (clk 0) ans (ownsVApp (rcl \<sigma>)) v skip (sys_store \<sigma>) = (skip', s')" by fastforce
  let ?\<sigma> = "\<sigma>\<lparr>rcl := (rcl \<sigma>)\<lparr>store := s'\<rparr>, pc := PcPoll vs known ok\<rparr>"
  have own: "ownsVApp (rcl ?\<sigma>) = ownsVApp (rcl \<sigma>)" by (simp add: fun_eq_iff ownsVApp_def)
  have "cycle_run sem ?\<sigma> (?\<sigma>\<lparr>rcl := (rcl ?\<sigma>)\<lparr>store := pollVCD_loop (clk \<circ> Suc) ans (ownsVApp (rcl ?\<sigma>)) vs skip' (sys_store ?\<sigma>)\<rparr>,
      pc := PcPoll [] known ok\<rparr>)"
    by (rule Cons.IH) simp
  then show ?case
    unfolding own using run_vapp [OF Cons.prems b, of sem] b by (simp add: rtranclp_trans)
qed (simp add: pc_self)

lemma run_creates_loop:
  "pc \<sigma> = PcCreatesLoop is \<Longrightarrow>
     cycle_run sem \<sigma> (\<sigma>\<lparr>rcl := dispatchCreates_loop sem clk is (rcl \<sigma>), pc := PcDeletes\<rparr>)"
proof (induction "is" arbitrary: \<sigma> clk)
  case Nil
  then show ?case using run_one [OF creates_end [OF Nil]] by simp
next
  case (Cons i "is")
  obtain b r' where body: "dispatchCreates_body sem clk i (rcl \<sigma>) = (b, r')" by fastforce
  show ?case
  proof (cases b)
    case True
    let ?\<sigma> = "\<sigma>\<lparr>rcl := r', pc := PcCreatesLoop is\<rparr>"
    have "cycle_run sem ?\<sigma> (?\<sigma>\<lparr>rcl := dispatchCreates_loop sem (\<lambda>n. clk (n + 3)) is (rcl ?\<sigma>), pc := PcDeletes\<rparr>)"
      by (rule Cons.IH) simp
    then show ?thesis
      using run_step [OF creates_go [OF Cons.prems, of sem clk r']] body True by simp
  next
    case False
    then show ?thesis using run_one [OF creates_stop [OF Cons.prems, of sem clk r']] body by simp
  qed
qed

lemma run_deletes_loop:
  "pc \<sigma> = PcDeletesLoop is \<Longrightarrow>
     cycle_run sem \<sigma> (\<sigma>\<lparr>rcl := dispatchDeletes_loop sem clk is (rcl \<sigma>), pc := PcCleanups\<rparr>)"
proof (induction "is" arbitrary: \<sigma> clk)
  case Nil
  then show ?case using run_one [OF deletes_end [OF Nil]] by simp
next
  case (Cons i "is")
  obtain b r' where body: "dispatchDeletes_body sem clk i (rcl \<sigma>) = (b, r')" by fastforce
  show ?case
  proof (cases b)
    case True
    let ?\<sigma> = "\<sigma>\<lparr>rcl := r', pc := PcDeletesLoop is\<rparr>"
    have "cycle_run sem ?\<sigma> (?\<sigma>\<lparr>rcl := dispatchDeletes_loop sem (\<lambda>n. clk (n + 3)) is (rcl ?\<sigma>), pc := PcCleanups\<rparr>)"
      by (rule Cons.IH) simp
    then show ?thesis
      using run_step [OF deletes_go [OF Cons.prems, of sem clk r']] body True by simp
  next
    case False
    then show ?thesis using run_one [OF deletes_stop [OF Cons.prems, of sem clk r']] body by simp
  qed
qed

lemma cleanups_body_fails:
  "dispatchCreateCleanups_body sem now e r = (b, r') \<Longrightarrow> failedCreateCleanups r' = failedCreateCleanups r"
  by (auto simp: dispatchCreateCleanups_body_def Let_def split: if_splits prod.splits bool.splits)

lemma run_cleanups_loop:
  "pc \<sigma> = PcCleanups \<Longrightarrow> set es \<subseteq> set (failedCreateCleanups (rcl \<sigma>)) \<Longrightarrow>
     cycle_run sem \<sigma> (\<sigma>\<lparr>rcl := dispatchCreateCleanups_loop sem clk es (rcl \<sigma>), pc := PcGC\<rparr>)"
proof (induction es arbitrary: \<sigma> clk)
  case Nil
  then show ?case using run_one [OF cleanups_end [OF Nil(1)]] by simp
next
  case (Cons e es)
  obtain b r' where body: "dispatchCreateCleanups_body sem (clk 0) e (rcl \<sigma>) = (b, r')" by fastforce
  have e: "e \<in> set (failedCreateCleanups (rcl \<sigma>))" using Cons.prems(2) by simp
  show ?case
  proof (cases b)
    case True
    let ?\<sigma> = "\<sigma>\<lparr>rcl := r'\<rparr>"
    have "cycle_run sem ?\<sigma> (?\<sigma>\<lparr>rcl := dispatchCreateCleanups_loop sem (clk \<circ> Suc) es (rcl ?\<sigma>), pc := PcGC\<rparr>)"
      by (rule Cons.IH) (use Cons.prems cleanups_body_fails [OF body] in simp_all)
    then show ?thesis
      using run_step [OF cleanups_go [OF Cons.prems(1) e, of sem "clk 0" r']] body True by simp
  next
    case False
    then show ?thesis using run_one [OF cleanups_stop [OF Cons.prems(1) e, of sem "clk 0" r']] body by simp
  qed
qed

lemma run_gc_loop:
  "pc \<sigma> = PcGCLoop is \<Longrightarrow>
     cycle_run sem \<sigma> (\<sigma>\<lparr>rcl := (rcl \<sigma>)\<lparr>store := gcCheck_loop clk is (sys_store \<sigma>)\<rparr>, pc := PcPrune\<rparr>)"
proof (induction "is" arbitrary: \<sigma> clk)
  case Nil
  then show ?case using run_one [OF gc_end [OF Nil]] by simp
next
  case (Cons i "is")
  let ?\<sigma> = "upd_store (MarkGC (clk 0) (IntentID i)) (\<sigma>\<lparr>pc := PcGCLoop is\<rparr>)"
  have "cycle_run sem ?\<sigma> (?\<sigma>\<lparr>rcl := (rcl ?\<sigma>)\<lparr>store := gcCheck_loop (clk \<circ> Suc) is (sys_store ?\<sigma>)\<rparr>, pc := PcPrune\<rparr>)"
    by (rule Cons.IH) (simp add: upd_store_def)
  then show ?case using run_step [OF gc_mark [OF Cons.prems, of sem "clk 0"]] by (simp add: upd_store_pc)
qed

lemma run_poll:
  assumes pc: "pc \<sigma> = PcIdle"
    and listed: "\<And>vs unread. listing ans = Inr (vs, unread) \<Longrightarrow> \<forall>v \<in> set vs. (vapp_HREF v, vapp_Name v) \<in> set (vapps \<sigma>)"
    and poll: "pollVCD clk ans (rcl \<sigma>) = (e, r')"
  shows "cycle_run sem \<sigma> (\<sigma>\<lparr>rcl := r', pc := PcHold (e = None)\<rparr>)"
proof (cases "listing ans")
  case (Inl err)
  then show ?thesis using poll run_one [OF poll_failed [OF pc]] by (auto simp: pollVCD_def)
next
  case (Inr p)
  obtain vs unread where l: "listing ans = Inr (vs, unread)" using Inr by (cases p) auto
  let ?known = "unread @ map vapp_HREF vs" and ?ok = "unread = []"
  let ?s = "pollVCD_loop (clk \<circ> Suc) ans (ownsVApp (rcl \<sigma>)) vs False (sys_store \<sigma>)"
  let ?\<sigma>1 = "\<sigma>\<lparr>pc := PcPoll vs ?known ?ok\<rparr>"
  let ?\<sigma>2 = "\<sigma>\<lparr>rcl := (rcl \<sigma>)\<lparr>store := ?s\<rparr>, pc := PcPoll [] ?known ?ok\<rparr>"
  have 1: "cycle_run sem \<sigma> ?\<sigma>1" using run_one [OF poll_listed [OF pc listed [OF l]]] .
  have 2: "cycle_run sem ?\<sigma>1 ?\<sigma>2"
    using run_poll_loop [of ?\<sigma>1 vs ?known ?ok sem "clk \<circ> Suc" ans False] by simp
  have e: "e = None \<longleftrightarrow> ?ok" using poll l by (auto simp: pollVCD_def Let_def split: if_splits)
  have r': "r' = (rcl \<sigma>)\<lparr>store := if ?known \<noteq> [] \<or> Size ?s = 0 then MarkDisappeared (clk 0) ?known ?s else ?s\<rparr>"
    using poll l unfolding pollVCD_def by (auto simp: Let_def split: if_splits)
  show ?thesis
  proof (cases "?known \<noteq> [] \<or> Size ?s = 0")
    case True
    have "cycle_step sem ?\<sigma>2 (?\<sigma>2\<lparr>pc := PcMark ?known ?ok\<rparr>)"
      by (rule poll_counts) (use True in simp_all)
    moreover have "cycle_step sem (?\<sigma>2\<lparr>pc := PcMark ?known ?ok\<rparr>) (\<sigma>\<lparr>rcl := r', pc := PcHold (e = None)\<rparr>)"
      using poll_mark [of "?\<sigma>2\<lparr>pc := PcMark ?known ?ok\<rparr>" ?known ?ok sem "clk 0"] True by (simp add: upd_store_pc r' e)
    ultimately have "cycle_run sem ?\<sigma>2 (\<sigma>\<lparr>rcl := r', pc := PcHold (e = None)\<rparr>)" by (rule run_step [OF _ run_one])
    then show ?thesis using 1 2 by (meson rtranclp_trans)
  next
    case False
    then have "cycle_step sem ?\<sigma>2 (\<sigma>\<lparr>rcl := r', pc := PcHold (e = None)\<rparr>)"
      using poll_empty [of ?\<sigma>2 ?known ?ok sem] by (simp add: r' e)
    then show ?thesis using 1 2 by (meson rtranclp_trans run_one)
  qed
qed

lemma run_creates:
  assumes pc: "pc \<sigma> = PcCreates"
  shows "cycle_run sem \<sigma> (\<sigma>\<lparr>rcl := dispatchCreates sem clk (rcl \<sigma>), pc := PcDeletes\<rparr>)"
proof -
  let ?is = "GetPendingCreates (clk 1) (sys_store \<sigma>)"
  consider (held) "startupHold (rcl \<sigma>)" | (brk) "\<not> startupHold (rcl \<sigma>)" "breaker_open (clk 0) (rcl \<sigma>)"
    | (go) "\<not> startupHold (rcl \<sigma>)" "\<not> breaker_open (clk 0) (rcl \<sigma>)" by blast
  then show ?thesis
  proof cases
    case held
    then show ?thesis using run_one [OF creates_held [OF pc]] by (simp add: dispatchCreates_def)
  next
    case brk
    then show ?thesis using run_one [OF creates_breaker [OF pc brk]] by (simp add: dispatchCreates_def)
  next
    case go
    have "cycle_run sem (\<sigma>\<lparr>pc := PcCreatesLoop ?is\<rparr>)
        (\<sigma>\<lparr>rcl := dispatchCreates_loop sem (\<lambda>n. clk (n + 2)) ?is (rcl \<sigma>), pc := PcDeletes\<rparr>)"
      using run_creates_loop [of "\<sigma>\<lparr>pc := PcCreatesLoop ?is\<rparr>" ?is sem "\<lambda>n. clk (n + 2)"] by simp
    then show ?thesis using run_step [OF creates_list [OF pc go, of sem "clk 1"]] go by (simp add: dispatchCreates_def)
  qed
qed

lemma run_deletes:
  assumes pc: "pc \<sigma> = PcDeletes"
  shows "cycle_run sem \<sigma> (\<sigma>\<lparr>rcl := dispatchDeletes sem clk (rcl \<sigma>), pc := PcCleanups\<rparr>)"
proof -
  let ?is = "GetPendingDeletes (clk 0) (sys_store \<sigma>)"
  have "cycle_run sem (\<sigma>\<lparr>pc := PcDeletesLoop ?is\<rparr>)
      (\<sigma>\<lparr>rcl := dispatchDeletes_loop sem (clk \<circ> Suc) ?is (rcl \<sigma>), pc := PcCleanups\<rparr>)"
    using run_deletes_loop [of "\<sigma>\<lparr>pc := PcDeletesLoop ?is\<rparr>" ?is sem "clk \<circ> Suc"] by simp
  then show ?thesis using run_step [OF deletes_list [OF pc, of sem "clk 0"]] by (simp add: dispatchDeletes_def)
qed

lemma run_gc:
  assumes pc: "pc \<sigma> = PcGC"
  shows "cycle_run sem \<sigma> (\<sigma>\<lparr>rcl := (if doGC then gcCheck clk (rcl \<sigma>) else rcl \<sigma>), pc := PcPrune\<rparr>)"
proof (cases doGC)
  case True
  let ?is = "GetRunningForGC (clk 0) (MaxInstanceAge (config (rcl \<sigma>))) (sys_store \<sigma>)"
  have "cycle_run sem (\<sigma>\<lparr>pc := PcGCLoop ?is\<rparr>)
      (\<sigma>\<lparr>rcl := (rcl \<sigma>)\<lparr>store := gcCheck_loop (clk \<circ> Suc) ?is (sys_store \<sigma>)\<rparr>, pc := PcPrune\<rparr>)"
    using run_gc_loop [of "\<sigma>\<lparr>pc := PcGCLoop ?is\<rparr>" ?is sem "clk \<circ> Suc"] by simp
  then show ?thesis using run_step [OF gc_list [OF pc, of sem "clk 0"]] True by (simp add: gcCheck_def)
next
  case False
  then show ?thesis using run_one [OF gc_skip [OF pc]] by simp
qed

section \<open>Property\<close>

text \<open>
  C13: one undisturbed call of \<^verbatim>\<open>reconcileOnce\<close>, whatever vCD answers, is a run of steps of the reconcile
  goroutine from idle to idle. So what holds in every reachable state holds between the cycles of
  the sequential program, and the steps of the interleaved model are those of the code.
\<close>

theorem reconcileOnce_is_a_run:
  assumes "pc \<sigma> = PcIdle"
    and "\<forall>vs unread. listing ans = Inr (vs, unread) \<longrightarrow> (\<forall>v \<in> set vs. (vapp_HREF v, vapp_Name v) \<in> set (vapps \<sigma>))"
  shows "(cycle_step sem)\<^sup>*\<^sup>* \<sigma> (\<sigma>\<lparr>rcl := reconcileOnce sem clk ans doGC (rcl \<sigma>), pc := PcIdle\<rparr>)"
proof -
  obtain e r1 where poll: "pollVCD (clk 1) ans (rcl \<sigma>) = (e, r1)" by fastforce
  let ?r2 = "updateStartupHold (clk 2) (e = None) r1"
  let ?r3 = "dispatchCreates sem (clk 3) ?r2"
  let ?r4 = "dispatchDeletes sem (clk 4) ?r3"
  let ?r5 = "dispatchCreateCleanups sem (clk 5) ?r4"
  let ?r6 = "if doGC then gcCheck (clk 6) ?r5 else ?r5"
  let ?r7 = "publishStatus (clk 8) (clk 0 0) e (?r6\<lparr>store := Prune (clk 7 0) (store ?r6)\<rparr>)"
  have listed: "\<And>vs unread. listing ans = Inr (vs, unread) \<Longrightarrow> \<forall>v \<in> set vs. (vapp_HREF v, vapp_Name v) \<in> set (vapps \<sigma>)"
    using assms(2) by blast
  have 1: "cycle_run sem \<sigma> (\<sigma>\<lparr>rcl := r1, pc := PcHold (e = None)\<rparr>)" by (rule run_poll [OF assms(1) listed poll])
  have 2: "cycle_run sem (\<sigma>\<lparr>rcl := r1, pc := PcHold (e = None)\<rparr>) (\<sigma>\<lparr>rcl := ?r2, pc := PcCreates\<rparr>)"
    using run_one [OF hold [of "\<sigma>\<lparr>rcl := r1, pc := PcHold (e = None)\<rparr>" "e = None" sem "clk 2"]] by simp
  have 3: "cycle_run sem (\<sigma>\<lparr>rcl := ?r2, pc := PcCreates\<rparr>) (\<sigma>\<lparr>rcl := ?r3, pc := PcDeletes\<rparr>)"
    using run_creates [of "\<sigma>\<lparr>rcl := ?r2, pc := PcCreates\<rparr>" sem "clk 3"] by simp
  have 4: "cycle_run sem (\<sigma>\<lparr>rcl := ?r3, pc := PcDeletes\<rparr>) (\<sigma>\<lparr>rcl := ?r4, pc := PcCleanups\<rparr>)"
    using run_deletes [of "\<sigma>\<lparr>rcl := ?r3, pc := PcDeletes\<rparr>" sem "clk 4"] by simp
  have 5: "cycle_run sem (\<sigma>\<lparr>rcl := ?r4, pc := PcCleanups\<rparr>) (\<sigma>\<lparr>rcl := ?r5, pc := PcGC\<rparr>)"
    using run_cleanups_loop [of "\<sigma>\<lparr>rcl := ?r4, pc := PcCleanups\<rparr>" "failedCreateCleanups ?r4" sem "clk 5"]
    by (simp add: dispatchCreateCleanups_def)
  have 6: "cycle_run sem (\<sigma>\<lparr>rcl := ?r5, pc := PcGC\<rparr>) (\<sigma>\<lparr>rcl := ?r6, pc := PcPrune\<rparr>)"
    using run_gc [of "\<sigma>\<lparr>rcl := ?r5, pc := PcGC\<rparr>" sem doGC "clk 6"] by (cases doGC) simp_all
  have 7: "cycle_run sem (\<sigma>\<lparr>rcl := ?r6, pc := PcPrune\<rparr>) (\<sigma>\<lparr>rcl := ?r7, pc := PcIdle\<rparr>)"
    using run_one [OF cycle_end [of "\<sigma>\<lparr>rcl := ?r6, pc := PcPrune\<rparr>" sem "clk 8" "clk 0 0" e "clk 7 0"]] by simp
  have "reconcileOnce sem clk ans doGC (rcl \<sigma>) = ?r7"
    unfolding reconcileOnce_def Let_def poll prod.case ..
  then show ?thesis
    using rtranclp_trans [OF 1 rtranclp_trans [OF 2 rtranclp_trans [OF 3 rtranclp_trans [OF 4
          rtranclp_trans [OF 5 rtranclp_trans [OF 6 7]]]]]]
    by (simp only:)
qed

theorem reconcileOnce_is_a_run_witness:
  "let \<sigma> = sys_init counting_sem (plain_backoff 1 2) 0 ''g'' (\<lparr>MaxConcurrentCreates = 0, MaxConcurrentDeletes = 0,
         MaxConcurrentOperations = 0, Interval = 0, MaxInstanceAge = 0, PollReadTimeout = 0, CreateTimeout = 0,
         StartupCleanupTimeout = 0\<rparr>) [];
       ans = \<lparr>VAppStatuses = (\<lambda>n. []), listing = Inr ([], []), pollVM_answer = (\<lambda>h. Inr None)\<rparr>
   in (cycle_step counting_sem)\<^sup>*\<^sup>* \<sigma> (\<sigma>\<lparr>rcl := reconcileOnce counting_sem (\<lambda>i n. 5) ans True (rcl \<sigma>), pc := PcIdle\<rparr>)"
  unfolding Let_def by (rule reconcileOnce_is_a_run) (simp_all add: sys_init_def)

end
