(* ===== verification/Naming.thy ===== *)
theory Naming
  imports Errors "HOL-Library.Word"
begin

text \<open>
  Random names, \<^verbatim>\<open>src/utils.go\<close>: the random bytes, their URL-safe base64 text, and the loop that
  turns it into a name vCD accepts for a VM. The random source is an argument: \<open>rnd k\<close> is what the
  \<open>k\<close>-th read of \<^verbatim>\<open>crypto/rand\<close> gives, an error or a supply of bytes that fills the buffer.
\<close>

type_synonym byte = "8 word"
type_synonym random_read = "goerror + (nat \<Rightarrow> byte)"

section \<open>Random bytes and base64\<close>

fun GenerateRandomBytes :: "nat \<Rightarrow> random_read \<Rightarrow> goerror + byte list" where
  "GenerateRandomBytes n (Inl err) = Inl err"
| "GenerateRandomBytes n (Inr bytes) = Inr (map bytes [0..<n])"

text \<open>
  \<^verbatim>\<open>base64.RawURLEncoding\<close>: three bytes make four letters of six bits each; one or two bytes at the
  end make two or three, without padding.
\<close>

definition url_alphabet :: string where
  "url_alphabet = ''ABCDEFGHIJKLMNOPQRSTUVWXYZabcdefghijklmnopqrstuvwxyz0123456789-_''"

definition letter :: "nat \<Rightarrow> char" where
  "letter v = url_alphabet ! (v mod 64)"

fun EncodeToString :: "byte list \<Rightarrow> string" where
  "EncodeToString [] = []"
| "EncodeToString [a] =
     (let val = unat a * 65536 in [letter (val div 262144), letter (val div 4096)])"
| "EncodeToString [a, b] =
     (let val = unat a * 65536 + unat b * 256
      in [letter (val div 262144), letter (val div 4096), letter (val div 64)])"
| "EncodeToString (a # b # c # rest) =
     (let val = unat a * 65536 + unat b * 256 + unat c
      in [letter (val div 262144), letter (val div 4096), letter (val div 64), letter val] @ EncodeToString rest)"

definition GenerateRandomStringURLSafe :: "nat \<Rightarrow> random_read \<Rightarrow> goerror + string" where
  "GenerateRandomStringURLSafe n r =
     (case GenerateRandomBytes n r of Inl err \<Rightarrow> Inl err | Inr b \<Rightarrow> Inr (EncodeToString b))"

section \<open>Names\<close>

text \<open>\<^verbatim>\<open>strings.ReplaceAll(s, c, "")\<close> for a single character \<open>c\<close>.\<close>

definition remove_char :: "char \<Rightarrow> string \<Rightarrow> string" where
  "remove_char c s = filter (\<lambda>x. x \<noteq> c) s"

definition name_letters :: "string \<Rightarrow> string" where
  "name_letters str = ToLower (remove_char (CHR ''-'') (remove_char (CHR ''_'') str))"

text \<open>The loop draws until a text is long enough; nothing bounds the number of draws.\<close>

partial_function (option) GenerateRandomStringVMNameSafe_loop ::
    "(nat \<Rightarrow> random_read) \<Rightarrow> nat \<Rightarrow> string \<Rightarrow> nat \<Rightarrow> (goerror + string) option" where
  "GenerateRandomStringVMNameSafe_loop rnd sz str k =
     (if length str < sz
      then (case GenerateRandomStringURLSafe sz (rnd k) of
              Inl err \<Rightarrow> Some (Inl err)
            | Inr str \<Rightarrow> GenerateRandomStringVMNameSafe_loop rnd sz (name_letters str) (Suc k))
      else Some (Inr (take sz str)))"

declare GenerateRandomStringVMNameSafe_loop.simps [code]

definition GenerateRandomStringVMNameSafe :: "(nat \<Rightarrow> random_read) \<Rightarrow> nat \<Rightarrow> (goerror + string) option" where
  "GenerateRandomStringVMNameSafe rnd sz = GenerateRandomStringVMNameSafe_loop rnd sz [] 0"

definition generateVMName :: "(nat \<Rightarrow> random_read) \<Rightarrow> string \<Rightarrow> (goerror + string) option" where
  "generateVMName rnd prfx =
     (case GenerateRandomStringVMNameSafe rnd 8 of
        None \<Rightarrow> None
      | Some (Inl err) \<Rightarrow> Some (Inl err)
      | Some (Inr randomSuffix) \<Rightarrow> Some (Inr (prfx @ ''-'' @ randomSuffix)))"

section \<open>Decoding\<close>

text \<open>The inverse of the encoding, as a reference: what a reader of the text recovers.\<close>

definition sextet :: "char \<Rightarrow> nat" where
  "sextet c = (case map_of (zip url_alphabet [0..<64]) c of None \<Rightarrow> 0 | Some v \<Rightarrow> v)"

fun DecodeString :: "string \<Rightarrow> byte list" where
  "DecodeString (p # q # r # s # rest) =
     (let val = sextet p * 262144 + sextet q * 4096 + sextet r * 64 + sextet s
      in [of_nat (val div 65536), of_nat (val div 256), of_nat val] @ DecodeString rest)"
| "DecodeString [p, q, r] =
     (let val = sextet p * 262144 + sextet q * 4096 + sextet r * 64
      in [of_nat (val div 65536), of_nat (val div 256)])"
| "DecodeString [p, q] = (let val = sextet p * 262144 + sextet q * 4096 in [of_nat (val div 65536)])"
| "DecodeString _ = []"

lemma letters_distinct: "list_all (\<lambda>v. sextet (letter v) = v) [0..<64]"
  by code_simp

lemma sextet_letter [simp]: "sextet (letter v) = v mod 64"
proof -
  have "letter v = letter (v mod 64)" by (simp add: letter_def)
  moreover have "sextet (letter (v mod 64)) = v mod 64"
    using letters_distinct by (auto simp: list_all_iff)
  ultimately show ?thesis by simp
qed

lemma letter_in [simp]: "letter v \<in> set url_alphabet"
proof -
  have "length url_alphabet = 64" by code_simp
  then show ?thesis by (simp add: letter_def nth_mem)
qed

text \<open>The six-bit groups of a number below \<open>2 ^ 24\<close> put together again.\<close>

lemma horner: "v = q * 64 + a \<Longrightarrow> q = r * 64 + b \<Longrightarrow> r = t * 64 + c \<Longrightarrow>
    t * 262144 + c * 4096 + b * 64 + a = (v :: nat)"
  by simp

lemma sextets_join:
  fixes v :: nat
  assumes "v < 16777216"
  shows "v div 262144 mod 64 * 262144 + v div 4096 mod 64 * 4096 + v div 64 mod 64 * 64 + v mod 64 = v"
proof -
  let ?q = "v div 64" and ?r = "v div 64 div 64" and ?t = "v div 64 div 64 div 64"
  have "v div 4096 = ?r" "v div 262144 = ?t" by (simp_all flip: div_mult2_eq)
  moreover have "?t mod 64 = ?t" using assms by (simp flip: div_mult2_eq)
  moreover have "?t * 262144 + ?r mod 64 * 4096 + ?q mod 64 * 64 + v mod 64 = v"
    by (rule horner) (simp_all only: div_mult_mod_eq)
  ultimately show ?thesis by (simp only:)
qed

lemma unat_byte [simp]: "unat (a :: byte) < 256"
  using unsigned_less [of a, where ?'a = nat] by simp

lemma of_nat_unat: "n mod 256 = unat a \<Longrightarrow> of_nat n = (a :: byte)"
  by (simp add: word_eq_iff_unsigned [where ?'a = nat] unat_of_nat)

lemma byte_split:
  fixes c :: byte
  shows "(x * 256 + unat c) div 256 = x" and "(x * 256 + unat c) mod 256 = unat c"
  by simp_all

lemma bytes_split:
  fixes a b c :: byte
  defines "v \<equiv> unat a * 65536 + unat b * 256 + unat c"
  shows "of_nat (v div 65536) = a" and "of_nat (v div 256) = b" and "of_nat v = c" and "v < 16777216"
proof -
  have lt: "unat a < 256" "unat b < 256" "unat c < 256" by simp_all
  have v: "v = (unat a * 256 + unat b) * 256 + unat c" by (simp add: v_def)
  have q: "v div 256 = unat a * 256 + unat b" and c: "v mod 256 = unat c" unfolding v by (rule byte_split)+
  have "v div 65536 = v div 256 div 256" by (simp flip: div_mult2_eq)
  then have "v div 65536 = unat a" unfolding q using lt by simp
  then show "of_nat (v div 65536) = a" by (simp add: of_nat_unat)
  show "of_nat (v div 256) = b" by (rule of_nat_unat) (simp only: q, use lt in simp)
  show "of_nat v = c" using c by (rule of_nat_unat)
  have "v \<le> 255 * 65536 + 255 * 256 + 255" unfolding v_def
    using lt by (intro add_mono mult_right_mono) linarith+
  then show "v < 16777216" by simp
qed

lemma DecodeString_EncodeToString [simp]: "DecodeString (EncodeToString bs) = bs"
proof (induction bs rule: EncodeToString.induct)
  case (2 a)
  define v where "v = unat a * 65536 + unat (0 :: byte) * 256 + unat (0 :: byte)"
  have "v = unat a * 16 * 64 * 64" by (simp add: v_def)
  then have "v div 64 mod 64 = 0" "v mod 64 = 0"
    by (simp_all only: nonzero_mult_div_cancel_right mod_mult_self2_is_0 zero_neq_numeral not_False_eq_True)
  then have "v div 262144 mod 64 * 262144 + v div 4096 mod 64 * 4096 = v"
    using sextets_join [OF bytes_split(4) [of a 0 0], folded v_def] by (simp only: mult_zero_left add_0_right)
  moreover have "EncodeToString [a] = [letter (v div 262144), letter (v div 4096)]" by (simp add: v_def Let_def)
  ultimately show ?case using bytes_split(1) [of a 0 0] by (simp only: DecodeString.simps sextet_letter Let_def v_def)
next
  case (3 a b)
  define v where "v = unat a * 65536 + unat b * 256 + unat (0 :: byte)"
  have "v = (unat a * 1024 + unat b * 4) * 64" by (simp add: v_def)
  then have "v mod 64 = 0" by (simp only: mod_mult_self2_is_0)
  then have "v div 262144 mod 64 * 262144 + v div 4096 mod 64 * 4096 + v div 64 mod 64 * 64 = v"
    using sextets_join [OF bytes_split(4) [of a b 0], folded v_def] by (simp only: mult_zero_left add_0_right)
  moreover have "EncodeToString [a, b] = [letter (v div 262144), letter (v div 4096), letter (v div 64)]"
    by (simp add: v_def Let_def)
  ultimately show ?case
    using bytes_split(1,2) [of a b 0] by (simp only: DecodeString.simps sextet_letter Let_def v_def)
next
  case (4 a b c rest)
  define v where "v = unat a * 65536 + unat b * 256 + unat c"
  have "EncodeToString (a # b # c # rest) =
      letter (v div 262144) # letter (v div 4096) # letter (v div 64) # letter v # EncodeToString rest"
    by (simp add: v_def Let_def)
  then show ?case
    using sextets_join [OF bytes_split(4) [of a b c]] bytes_split(1-3) [of a b c] 4
    by (simp only: DecodeString.simps sextet_letter Let_def v_def append.simps)
qed simp

lemma length_EncodeToString [simp]: "length (EncodeToString bs) = (4 * length bs + 2) div 3"
  by (induction bs rule: EncodeToString.induct) (simp_all add: Let_def)

lemma set_EncodeToString: "set (EncodeToString bs) \<subseteq> set url_alphabet"
  by (induction bs rule: EncodeToString.induct) (simp_all add: Let_def)

text \<open>
  The base64 text loses nothing of the random bytes: decoding it gives back what
  \<^verbatim>\<open>GenerateRandomBytes\<close> drew, and a failed read stays that error. So different draws give different texts.
\<close>

theorem URLSafe_round_trip:
  "(case GenerateRandomStringURLSafe n r of Inl err \<Rightarrow> Inl err | Inr s \<Rightarrow> Inr (DecodeString s)) = GenerateRandomBytes n r"
  by (cases r) (simp_all add: GenerateRandomStringURLSafe_def)

section \<open>What a name is made of\<close>

definition name_chars :: string where
  "name_chars = ''abcdefghijklmnopqrstuvwxyz0123456789''"

lemma alphabet_to_name: "list_all (\<lambda>c. c = CHR ''-'' \<or> c = CHR ''_'' \<or> lower_char c \<in> set name_chars) url_alphabet"
  by code_simp

lemma name_letters_chars: "set s \<subseteq> set url_alphabet \<Longrightarrow> set (name_letters s) \<subseteq> set name_chars"
  using alphabet_to_name by (auto simp: name_letters_def ToLower_def remove_char_def list_all_iff)

lemma URLSafe_chars: "GenerateRandomStringURLSafe n r = Inr s \<Longrightarrow> set s \<subseteq> set url_alphabet"
  using set_EncodeToString by (cases r) (auto simp: GenerateRandomStringURLSafe_def)

text \<open>A read that ends the loop: it fails, or its text has enough letters and digits.\<close>

definition good_read :: "nat \<Rightarrow> random_read \<Rightarrow> bool" where
  "good_read sz r =
     (case GenerateRandomStringURLSafe sz r of Inl err \<Rightarrow> True | Inr s \<Rightarrow> sz \<le> length (name_letters s))"

definition name_ok :: "nat \<Rightarrow> goerror + string \<Rightarrow> bool" where
  "name_ok sz r = (case r of Inl err \<Rightarrow> True | Inr s \<Rightarrow> length s = sz \<and> set s \<subseteq> set name_chars)"

lemma loop_ends:
  assumes "good_read sz (rnd m)" and "k \<le> m" and "set str \<subseteq> set name_chars"
  shows "\<exists>r. GenerateRandomStringVMNameSafe_loop rnd sz str k = Some r \<and> name_ok sz r"
  using assms(2,3)
proof (induction arbitrary: str rule: inc_induct)
  case base
  then show ?case
    using assms(1) GenerateRandomStringVMNameSafe_loop.simps [of rnd sz str m]
      GenerateRandomStringVMNameSafe_loop.simps [of rnd sz _ "Suc m"]
      name_letters_chars [OF URLSafe_chars, of sz "rnd m"] set_take_subset [of sz]
    by (cases "GenerateRandomStringURLSafe sz (rnd m)") (auto simp: good_read_def name_ok_def dest!: in_set_takeD)
next
  case (step k)
  show ?case
  proof (cases "GenerateRandomStringURLSafe sz (rnd k)")
    case (Inr s)
    then obtain r where "GenerateRandomStringVMNameSafe_loop rnd sz (name_letters s) (Suc k) = Some r" "name_ok sz r"
      using step.IH name_letters_chars [OF URLSafe_chars] by blast
    then show ?thesis
      using Inr step.prems GenerateRandomStringVMNameSafe_loop.simps [of rnd sz str k]
      by (auto simp: name_ok_def dest!: in_set_takeD)
  qed (use step.prems GenerateRandomStringVMNameSafe_loop.simps [of rnd sz str k] in
      \<open>auto simp: name_ok_def dest!: in_set_takeD\<close>)
qed


lemma demo_reads:
  "GenerateRandomStringURLSafe 8 (Inr (\<lambda>i. 90)) = Inr ''WlpaWlpaWlo''"
  "GenerateRandomStringURLSafe 8 (Inr (\<lambda>i. 255)) = Inr ''__________8''"
  by (simp_all add: GenerateRandomStringURLSafe_def upt_rec Let_def letter_def url_alphabet_def)


end
