(* ===== verification/Config.thy ===== *)
theory Config
  imports Reconciler
begin

text \<open>
  The plugin configuration, \<^verbatim>\<open>src/config.go\<close>, and the fields of \<^verbatim>\<open>InstanceGroup\<close>
  (\<^verbatim>\<open>src/provider.go\<close>) it reads and fills. \<^verbatim>\<open>url.Parse\<close> and \<^verbatim>\<open>time.ParseDuration\<close> are arguments;
  \<open>'u\<close> is the type of parsed URLs. The fields that carry state while the group runs are in the
  theories of the parts that use them.
\<close>

section \<open>State\<close>

text \<open>What the plugin reads of \<^verbatim>\<open>provider.Settings\<close>; a nil key is \<open>None\<close>.\<close>

record Settings =
  OS :: string
  Protocol :: string
  ProtocolPort :: int
  Username :: string
  Password :: string
  Key :: "string option"
  UseStaticCredentials :: bool

record 'u InstanceGroup =
  ig_Name :: string
  StrURL :: string
  Org :: string
  Token :: string
  VirtualDatacenter :: string
  Network :: string
  IPAllocationMode :: string
  InstanceGroupName :: string
  VAppNamePrefix :: string
  Catalog :: string
  Template :: string
  StorageProfile :: string
  CPUCount :: int
  CoresPerSocket :: int
  MemoryMB :: int
  DiskSizeGB :: int
  DebugServerAddr :: string
  ig_MaxConcurrentCreates :: int
  ig_MaxConcurrentDeletes :: int
  ig_MaxConcurrentOperations :: int
  ig_CreateTimeout :: string
  createTimeout :: duration
  ig_StartupCleanupTimeout :: string
  startupCleanupTimeout :: duration
  SessionRefreshInterval :: string
  sessionRefreshInterval :: duration
  parsedURL :: "'u option"
  settings :: Settings

section \<open>Validation\<close>

definition ProtocolSSH :: string where
  "ProtocolSSH = ''ssh''"

definition missing :: "string \<Rightarrow> goerror" where
  "missing field = errors_New (''missing required plugin config: '' @ field)"

text \<open>\<^verbatim>\<open>errors.Join\<close>: nil for no errors, else an error that wraps them all, one message a line.\<close>

fun join_lines :: "string list \<Rightarrow> string" where
  "join_lines [] = []"
| "join_lines [m] = m"
| "join_lines (m # ms) = m @ [CHR 0x0A] @ join_lines ms"

definition errors_Join :: "goerror list \<Rightarrow> goerror option" where
  "errors_Join errs = (if errs = [] then None else Some (Errorf (join_lines (map Error errs)) errs))"

definition static_credentials_missing :: "Settings \<Rightarrow> bool" where
  "static_credentials_missing s \<longleftrightarrow> UseStaticCredentials s \<and> Password s = [] \<and> Key s = None"

text \<open>\<^verbatim>\<open>if b { errs = append(errs, e) }\<close>\<close>

definition append_when :: "bool \<Rightarrow> goerror \<Rightarrow> goerror list \<Rightarrow> goerror list" where
  "append_when b e errs = (if b then errs @ [e] else errs)"

definition validate :: "(string \<Rightarrow> goerror + 'u) \<Rightarrow> 'u InstanceGroup \<Rightarrow> goerror option \<times> 'u InstanceGroup" where
  "validate url_Parse g =
     (let errs = [];
          g = (if Protocol (settings g) = [] then g\<lparr>settings := (settings g)\<lparr>Protocol := ProtocolSSH\<rparr>\<rparr> else g);
          errs = append_when (ig_Name g = []) (missing ''name'') errs;
          errs = append_when (StrURL g = []) (missing ''url'') errs;
          errs = errs @ (case url_Parse (StrURL g) of
                    Inl err \<Rightarrow> [errors_New (''invalid url: '' @ Error err)] | Inr u \<Rightarrow> []);
          errs = append_when (Org g = []) (missing ''org'') errs;
          errs = append_when (Token g = []) (missing ''token'') errs;
          errs = append_when (VirtualDatacenter g = []) (missing ''virtual_datacenter'') errs;
          errs = append_when (Network g = []) (missing ''network'') errs;
          errs = append_when (IPAllocationMode g = []) (missing ''ip_allocation_mode'') errs;
          errs = append_when (IPAllocationMode g \<noteq> ''DHCP'' \<and> IPAllocationMode g \<noteq> ''POOL'')
                   (errors_New (''invalid ip_allocation_mode: '' @ IPAllocationMode g)) errs;
          errs = append_when (InstanceGroupName g = []) (missing ''instance_group_name'') errs;
          errs = append_when (VAppNamePrefix g = []) (missing ''vapp_name_prefix'') errs;
          errs = append_when (Catalog g = []) (missing ''catalog'') errs;
          errs = append_when (Template g = []) (missing ''template'') errs;
          errs = append_when (StorageProfile g = []) (missing ''storage_profile'') errs;
          errs = append_when (CPUCount g = 0) (missing ''cpu_count'') errs;
          errs = append_when (CoresPerSocket g = 0) (missing ''cores_per_socket'') errs;
          errs = append_when (MemoryMB g = 0) (missing ''memory_mb'') errs
      in if static_credentials_missing (settings g)
         then (Some (errors_New ''either root/password password or ssh key are required when using static credentials''), g)
         else (errors_Join errs, g))"

section \<open>Derived settings\<close>

definition defaultSessionRefreshInterval :: duration where
  "defaultSessionRefreshInterval = 20 * hour"

definition populate_limits :: "'u InstanceGroup \<Rightarrow> 'u InstanceGroup" where
  "populate_limits g =
     (let g = (if ig_MaxConcurrentCreates g \<le> 0 then g\<lparr>ig_MaxConcurrentCreates := defaultMaxConcurrentCreates\<rparr> else g);
          g = (if ig_MaxConcurrentDeletes g \<le> 0 then g\<lparr>ig_MaxConcurrentDeletes := defaultMaxConcurrentDeletes\<rparr> else g)
      in if ig_MaxConcurrentOperations g \<le> 0
         then g\<lparr>ig_MaxConcurrentOperations := defaultMaxConcurrentOperations\<rparr> else g)"

text \<open>
  A duration setting: the text if there is one and it parses to an accepted value, else an error.
  \<open>ParseDuration s\<close> is \<open>Inl\<close> for a syntax error.
\<close>

definition duration_setting ::
    "(string \<Rightarrow> goerror + duration) \<Rightarrow> (duration \<Rightarrow> bool) \<Rightarrow> duration \<Rightarrow> string \<Rightarrow> duration option" where
  "duration_setting ParseDuration bad dflt text =
     (if text = [] then Some dflt
      else (case ParseDuration text of Inl err \<Rightarrow> None | Inr d \<Rightarrow> if bad d then None else Some d))"

definition populate ::
    "(string \<Rightarrow> goerror + 'u) \<Rightarrow> (string \<Rightarrow> goerror + duration) \<Rightarrow> 'u InstanceGroup
     \<Rightarrow> goerror option \<times> 'u InstanceGroup" where
  "populate url_Parse ParseDuration g =
     (let g = g\<lparr>sessionRefreshInterval := defaultSessionRefreshInterval\<rparr> in
      case duration_setting ParseDuration (\<lambda>d. d \<le> 0 \<or> 24 * hour \<le> d) defaultSessionRefreshInterval
             (SessionRefreshInterval g) of
        None \<Rightarrow> (Some (errors_New ''session_refresh_interval must be a positive duration below 24h''), g)
      | Some interval \<Rightarrow>
      (let g = g\<lparr>sessionRefreshInterval := interval, createTimeout := defaultCreateTimeout\<rparr> in
      case duration_setting ParseDuration (\<lambda>d. d \<le> 0) defaultCreateTimeout (ig_CreateTimeout g) of
        None \<Rightarrow> (Some (errors_New ''create_timeout must be a positive duration''), g)
      | Some d \<Rightarrow>
      (let g = g\<lparr>createTimeout := d, startupCleanupTimeout := defaultStartupCleanupTimeout\<rparr> in
      case duration_setting ParseDuration (\<lambda>d. d \<le> 0) defaultStartupCleanupTimeout (ig_StartupCleanupTimeout g) of
        None \<Rightarrow> (Some (errors_New ''startup_cleanup_timeout must be a positive duration''), g)
      | Some d \<Rightarrow>
      (let g = g\<lparr>startupCleanupTimeout := d\<rparr> in
      case url_Parse (StrURL g) of
        Inl err \<Rightarrow> (Some (errors_New (''invalid url: '' @ Error err)), g)
      | Inr u \<Rightarrow> (None, populate_limits (g\<lparr>parsedURL := Some u\<rparr>))))))"

section \<open>Validation reports every problem\<close>

text \<open>The checks as a table: the condition that is a problem, and the error that reports it.\<close>

definition config_checks :: "(string \<Rightarrow> goerror + 'u) \<Rightarrow> 'u InstanceGroup \<Rightarrow> (bool \<times> goerror) list" where
  "config_checks url_Parse g =
     [(ig_Name g = [], missing ''name''), (StrURL g = [], missing ''url''),
      (isl (url_Parse (StrURL g)), errors_New (''invalid url: '' @ Error (projl (url_Parse (StrURL g))))),
      (Org g = [], missing ''org''), (Token g = [], missing ''token''),
      (VirtualDatacenter g = [], missing ''virtual_datacenter''), (Network g = [], missing ''network''),
      (IPAllocationMode g = [], missing ''ip_allocation_mode''),
      (IPAllocationMode g \<notin> {''DHCP'', ''POOL''}, errors_New (''invalid ip_allocation_mode: '' @ IPAllocationMode g)),
      (InstanceGroupName g = [], missing ''instance_group_name''), (VAppNamePrefix g = [], missing ''vapp_name_prefix''),
      (Catalog g = [], missing ''catalog''), (Template g = [], missing ''template''),
      (StorageProfile g = [], missing ''storage_profile''), (CPUCount g = 0, missing ''cpu_count''),
      (CoresPerSocket g = 0, missing ''cores_per_socket''), (MemoryMB g = 0, missing ''memory_mb'')]"

lemma append_if: "append_when b x xs = xs @ map snd (filter fst [(b, x)])"
  by (simp add: append_when_def)

lemma append_case: "(case r of Inl e \<Rightarrow> [f e] | Inr u \<Rightarrow> []) = map snd (filter fst [(isl r, f (projl r))])"
  by (cases r) simp_all

lemma append_merge:
  "(xs @ map snd (filter fst ys)) @ map snd (filter fst zs) = xs @ map snd (filter fst (ys @ zs))"
  "map snd (filter fst ys) @ map snd (filter fst zs) = map snd (filter fst (ys @ zs))"
  by simp_all

lemma validate_checks:
  "fst (validate url_Parse g) =
     (if static_credentials_missing (settings g)
      then Some (errors_New ''either root/password password or ssh key are required when using static credentials'')
      else errors_Join (map snd (filter fst (config_checks url_Parse g))))"
proof -
  define g' where "g' = (if Protocol (settings g) = [] then g\<lparr>settings := (settings g)\<lparr>Protocol := ProtocolSSH\<rparr>\<rparr> else g)"
  have "config_checks url_Parse g' = config_checks url_Parse g"
    and "static_credentials_missing (settings g') = static_credentials_missing (settings g)"
    by (simp_all add: g'_def config_checks_def static_credentials_missing_def)
  moreover have "fst (validate url_Parse g) =
     (if static_credentials_missing (settings g')
      then Some (errors_New ''either root/password password or ssh key are required when using static credentials'')
      else errors_Join (map snd (filter fst (config_checks url_Parse g'))))"
    unfolding validate_def g'_def [symmetric] unfolding Let_def
    by (simp only: append_if append_case append_merge append.simps config_checks_def
        insert_iff empty_iff de_Morgan_disj if_distrib [of fst] fst_conv HOL.simp_thms cong: if_cong)
  ultimately show ?thesis by simp
qed

lemma errors_Join_None [simp]: "errors_Join errs = None \<longleftrightarrow> errs = []"
  by (simp add: errors_Join_def)

lemma join_lines_contains: "m \<in> set ms \<Longrightarrow> Contains (join_lines ms) m"
proof (induction ms rule: join_lines.induct)
  case (3 m' ms' ms)
  show ?case
  proof (cases "m = m'")
    case False
    then have "Contains (join_lines (ms' # ms)) m" using 3 by simp
    then show ?thesis by (auto simp: sublist_def) (metis append.assoc append_Cons)
  qed simp
qed simp_all


text \<open>A configuration with three problems: no name, no organization and an unknown allocation mode.\<close>

definition sample_settings :: Settings where
  "sample_settings = \<lparr>OS = ''linux'', Protocol = [], ProtocolPort = 22, Username = ''root'', Password = ''pw'', Key = None,
     UseStaticCredentials = True\<rparr>"

definition sample_config :: "unit InstanceGroup" where
  "sample_config = \<lparr>ig_Name = [], StrURL = ''https://vcd'', Org = [], Token = ''t'', VirtualDatacenter = ''v'', Network = ''n'',
     IPAllocationMode = ''STATIC'', InstanceGroupName = ''g'', VAppNamePrefix = ''p'', Catalog = ''c'', Template = ''t'',
     StorageProfile = ''s'', CPUCount = 2, CoresPerSocket = 1, MemoryMB = 1024, DiskSizeGB = 10, DebugServerAddr = [],
     ig_MaxConcurrentCreates = 0, ig_MaxConcurrentDeletes = 4, ig_MaxConcurrentOperations = -1, ig_CreateTimeout = ''10m'',
     createTimeout = 0, ig_StartupCleanupTimeout = [], startupCleanupTimeout = 0, SessionRefreshInterval = ''1h'',
     sessionRefreshInterval = 0, parsedURL = None, settings = sample_settings\<rparr>"


section \<open>What the derived settings satisfy\<close>

lemma duration_setting_Some:
  "duration_setting ParseDuration bad dflt text = Some d \<longleftrightarrow>
     (if text = [] then d = dflt else ParseDuration text = Inr d \<and> \<not> bad d)"
  by (auto simp: duration_setting_def split: sum.splits)

lemma populate_limits_fields:
  "0 < ig_MaxConcurrentCreates (populate_limits g)" "0 < ig_MaxConcurrentDeletes (populate_limits g)"
  "0 < ig_MaxConcurrentOperations (populate_limits g)"
  "createTimeout (populate_limits g) = createTimeout g" "startupCleanupTimeout (populate_limits g) = startupCleanupTimeout g"
  "sessionRefreshInterval (populate_limits g) = sessionRefreshInterval g" "parsedURL (populate_limits g) = parsedURL g"
  "0 < ig_MaxConcurrentCreates g \<Longrightarrow> ig_MaxConcurrentCreates (populate_limits g) = ig_MaxConcurrentCreates g"
  "0 < ig_MaxConcurrentDeletes g \<Longrightarrow> ig_MaxConcurrentDeletes (populate_limits g) = ig_MaxConcurrentDeletes g"
  "0 < ig_MaxConcurrentOperations g \<Longrightarrow> ig_MaxConcurrentOperations (populate_limits g) = ig_MaxConcurrentOperations g"
  by (simp_all add: populate_limits_def Let_def defaultMaxConcurrentCreates_def defaultMaxConcurrentDeletes_def
      defaultMaxConcurrentOperations_def)

lemmas default_durations = defaultSessionRefreshInterval_def defaultCreateTimeout_def defaultStartupCleanupTimeout_def

lemma populate_None:
  assumes "populate url_Parse ParseDuration g = (None, g')"
  obtains i c d u where
    "if SessionRefreshInterval g = [] then i = defaultSessionRefreshInterval
     else ParseDuration (SessionRefreshInterval g) = Inr i \<and> \<not> (i \<le> 0 \<or> 24 * hour \<le> i)" and
    "if ig_CreateTimeout g = [] then c = defaultCreateTimeout else ParseDuration (ig_CreateTimeout g) = Inr c \<and> \<not> c \<le> 0" and
    "if ig_StartupCleanupTimeout g = [] then d = defaultStartupCleanupTimeout
     else ParseDuration (ig_StartupCleanupTimeout g) = Inr d \<and> \<not> d \<le> 0" and
    "url_Parse (StrURL g) = Inr u" and "0 < i" "i < 24 * hour" "0 < c" "0 < d" and
    "g' = populate_limits (g\<lparr>sessionRefreshInterval := i, createTimeout := c, startupCleanupTimeout := d, parsedURL := Some u\<rparr>)"
proof -
  obtain i c d u where
    i: "if SessionRefreshInterval g = [] then i = defaultSessionRefreshInterval
        else ParseDuration (SessionRefreshInterval g) = Inr i \<and> \<not> (i \<le> 0 \<or> 24 * hour \<le> i)" and
    c: "if ig_CreateTimeout g = [] then c = defaultCreateTimeout else ParseDuration (ig_CreateTimeout g) = Inr c \<and> \<not> c \<le> 0" and
    d: "if ig_StartupCleanupTimeout g = [] then d = defaultStartupCleanupTimeout
        else ParseDuration (ig_StartupCleanupTimeout g) = Inr d \<and> \<not> d \<le> 0" and
    u: "url_Parse (StrURL g) = Inr u" and
    g': "g' = populate_limits (g\<lparr>sessionRefreshInterval := i, createTimeout := c, startupCleanupTimeout := d, parsedURL := Some u\<rparr>)"
    using assms
    by (auto simp: populate_def Let_def duration_setting_Some split: option.splits sum.splits)
  have pos: "0 < i" "i < 24 * hour" "0 < c" "0 < d"
    using i c d by (auto simp: default_durations time_consts split: if_splits)
  show ?thesis by (rule that [OF i c d u pos g'])
qed

text \<open>
  C37: the settings that \<^verbatim>\<open>populate\<close> accepts are usable: the session is renewed after a positive time
  below a day, both timeouts and the three limits are positive, the URL is the parsed one, and a value the
  user gave is kept: a duration is what its text parses to, a positive limit stays.
\<close>

theorem populate_bounds:
  assumes "populate url_Parse ParseDuration g = (None, g')"
  shows "0 < sessionRefreshInterval g' \<and> sessionRefreshInterval g' < 24 * hour \<and> 0 < createTimeout g' \<and>
         0 < startupCleanupTimeout g' \<and> 0 < ig_MaxConcurrentCreates g' \<and> 0 < ig_MaxConcurrentDeletes g' \<and>
         0 < ig_MaxConcurrentOperations g' \<and>
         (\<exists>u. url_Parse (StrURL g) = Inr u \<and> parsedURL g' = Some u) \<and>
         (SessionRefreshInterval g \<noteq> [] \<longrightarrow> ParseDuration (SessionRefreshInterval g) = Inr (sessionRefreshInterval g')) \<and>
         (ig_CreateTimeout g \<noteq> [] \<longrightarrow> ParseDuration (ig_CreateTimeout g) = Inr (createTimeout g')) \<and>
         (ig_StartupCleanupTimeout g \<noteq> [] \<longrightarrow> ParseDuration (ig_StartupCleanupTimeout g) = Inr (startupCleanupTimeout g')) \<and>
         (0 < ig_MaxConcurrentCreates g \<longrightarrow> ig_MaxConcurrentCreates g' = ig_MaxConcurrentCreates g) \<and>
         (0 < ig_MaxConcurrentDeletes g \<longrightarrow> ig_MaxConcurrentDeletes g' = ig_MaxConcurrentDeletes g) \<and>
         (0 < ig_MaxConcurrentOperations g \<longrightarrow> ig_MaxConcurrentOperations g' = ig_MaxConcurrentOperations g)"
  using assms by (rule populate_None) (simp add: populate_limits_fields)

theorem populate_bounds_witness:
  "\<exists>g'. populate (\<lambda>_. Inr ()) (\<lambda>t. if t = ''10m'' then Inr (10 * minute) else Inr hour) sample_config = (None, g') \<and>
     sessionRefreshInterval g' = hour \<and> createTimeout g' = 10 * minute \<and> ig_MaxConcurrentDeletes g' = 4 \<and>
     0 < ig_MaxConcurrentCreates g'"
proof -
  let ?p = "\<lambda>t. if t = ''10m'' then Inr (10 * minute) else Inr hour"
  obtain g' where "populate (\<lambda>_. Inr ()) ?p sample_config = (None, g')"
    by (simp add: populate_def Let_def duration_setting_def sample_config_def time_consts)
  then show ?thesis
    using populate_bounds [of "\<lambda>_. Inr ()" ?p sample_config g'] by (simp add: sample_config_def)
qed

end
