(* ===== verification/Calls.thy ===== *)
theory Calls
  imports Naming Throttle Config
begin

text \<open>
  How the plugin talks to vCD: the session (\<^verbatim>\<open>src/session.go\<close> and \<^verbatim>\<open>getVCDClient\<close> of
  \<^verbatim>\<open>src/vcd.go\<close>) and the call wrappers of \<^verbatim>\<open>src/vcd_safe.go\<close>.

  Everything outside the plugin is an argument, the record \<open>env\<close>: the vCD SDK and the network answer
  each request, the clock and the contexts answer each question, other goroutines of the plugin change
  the shared session and throttle gate whenever their locks are free. Each answer may depend on all that
  happened before, the list of events in the state; nothing is assumed of the answers. So a theorem holds
  for every behaviour of vCD and every interleaving.
\<close>

section \<open>SDK objects\<close>

text \<open>
  The fields the plugin reads of SDK payloads, nil pointers as \<open>None\<close>. A vApp and the VMs in a listing
  are the records of the poll, with the fields that only a read of the object fills.
\<close>

record TaskInfo =
  task_HREF :: string
  task_Status :: string
  task_Error :: string

record VmSpec =
  OsType :: string
  DiskSection :: "int list option"

record NetConn =
  nc_Network :: string
  NetworkConnectionIndex :: int
  IPAddressAllocationMode :: string
  IsConnected :: bool
  NeedsCustomization :: bool
  nc_IPAddress :: string

record GuestCustomization =
  Enabled :: "bool option"
  AdminPassword :: string
  AdminPasswordEnabled :: "bool option"
  AdminPasswordAuto :: "bool option"
  ResetPasswordRequired :: "bool option"
  CustomizationScript :: string
  ComputerName :: string

record VMObj = VM +
  VmSpecSection :: "VmSpec option"
  NetworkConnectionSection :: "NetConn list option"
  GuestCustomizationSection :: "GuestCustomization option"
  vm_Tasks :: "TaskInfo option list option"

record VAppObj = VApp +
  vapp_Tasks :: "TaskInfo option list option"

section \<open>Requests, answers, events\<close>

text \<open>
  The calls of SDK methods, named after the method, with the HREF of the object they act on. A method
  call is one request: what it sends over the network is the SDK's business. What the plugin only takes
  from one answer and hands to the next call (organization, data center, template, storage profile) is
  not repeated in the request.
\<close>

datatype request =
    SetToken string string
  | GetOrgByName string
  | GetVDCByName string bool
  | GetCatalogByName string
  | GetCatalogItemByName string
  | GetVAppTemplate
  | GetOrgVdcNetworkByName string
  | FindStorageProfileReference string
  | GetVdcComputePolicyById string
  | ComposeVApp string string string
  | GetVAppByName string
  | GetVAppByHref string
  | SearchByFilter string string string
  | RefreshVApp string
  | AddMetadataEntryWithVisibility string string string
  | AddRAWNetworkConfig string string
  | AddNewVMWithComputePolicy string string "NetConn list" bool
  | RefreshVM string
  | GetStatus string
  | SetGuestCustomizationSection string "GuestCustomization option"
  | EditTrustedPlatformModule string bool
  | ReconfigureVM string string
  | ChangeCPUAndCoreCount string int int
  | ChangeMemory string int
  | UpdateVmSpecSection string VmSpec
  | PowerOn string
  | PowerOff string
  | Undeploy string
  | DeleteVApp string
  | RefreshTask string
  | DialContext string
  | NewClientConn string string

datatype response =
    Done
  | AnOrg
  | AVdc string "string option"
  | ATemplate int
  | AVApp VAppObj
  | AVM VMObj
  | ATask TaskInfo
  | AString string
  | ASearch "(string \<times> string) list"
  | APoll string string

text \<open>A Go function can return an error or panic.\<close>

datatype exn = Fail goerror | Panic string

text \<open>Contexts: the one a function is given, the background context, and one with a deadline.\<close>

datatype goctx = Background | GivenContext | WithTimeout goctx duration time

datatype event =
    Request request "exn + response"
  | ReadClock
  | AskContext goctx
  | Lock
  | Sleep duration
  | ReadRandom

section \<open>State\<close>

text \<open>
  The fields of \<^verbatim>\<open>InstanceGroup\<close> that change while it runs, the objects an operation works on, and
  what has happened so far, the latest event first. \<open>vcdClient\<close> says whether there is a client.
\<close>

record session =
  vcdClient :: bool
  lastAuthenticated :: time
  authGeneration :: "64 word"

record 'b gstate =
  history :: "event list"
  session :: session
  gate :: "'b throttleGate option"
  cleanups :: "time gomap"
  inflight :: "string list"
  vapp :: VAppObj
  vm :: VMObj
  task :: TaskInfo

text \<open>A computation: \<open>None\<close> if it does not return, else its result and the new state.\<close>

type_synonym ('s, 'a) comp = "'s \<Rightarrow> ((exn + 'a) \<times> 's) option"

text \<open>
  The functions of \<^verbatim>\<open>golang.org/x/crypto/ssh\<close> applied to a private key: it does not parse, it has no
  public part, the public part is not supported, or the line for \<^verbatim>\<open>authorized_keys\<close>.
\<close>

datatype key_answer = BadKey goerror | NoPublicKey | BadPublicKey goerror | AuthorizedKey string

record ('b, 'u) env =
  ig :: "'u InstanceGroup"
  sdk :: "event list \<Rightarrow> request \<Rightarrow> exn + response"
  vapp_after :: "event list \<Rightarrow> request \<Rightarrow> VAppObj"
  vm_after :: "event list \<Rightarrow> request \<Rightarrow> VMObj"
  task_after :: "event list \<Rightarrow> request \<Rightarrow> TaskInfo"
  clock :: "event list \<Rightarrow> time"
  ctxErr :: "event list \<Rightarrow> goctx \<Rightarrow> goerror option"
  others_session :: "event list \<Rightarrow> session \<Rightarrow> session"
  others_gate :: "event list \<Rightarrow> 'b throttleGate option \<Rightarrow> 'b throttleGate option"
  randomness :: "event list \<Rightarrow> nat \<Rightarrow> random_read"
  backoff :: "'b bo_lib"
  ParseRequestURI :: "string \<Rightarrow> goerror + string \<times> string"
  ssh_public_key :: "string \<Rightarrow> key_answer"
  ssh_ParsePrivateKey :: "string \<Rightarrow> goerror option"
  RetryWithData :: "bo_option list \<Rightarrow> goctx \<Rightarrow> ('b gstate, response) comp \<Rightarrow> ('b gstate, response) comp"
  Retry :: "bo_option list \<Rightarrow> ('b gstate, unit) comp \<Rightarrow> ('b gstate, unit) comp"

section \<open>Sequencing\<close>

text \<open>
  \<open>attempt m k\<close> goes on with whatever \<open>m\<close> returned; \<open>chk m k\<close> is Go's
  \<^verbatim>\<open>if err != nil { return err }\<close>: it goes on with the value, and passes errors and panics on.
\<close>

definition ret :: "'a \<Rightarrow> ('s, 'a) comp" where
  "ret v s = Some (Inr v, s)"

definition raise :: "exn \<Rightarrow> ('s, 'a) comp" where
  "raise e s = Some (Inl e, s)"

definition attempt :: "('s, 'a) comp \<Rightarrow> (exn + 'a \<Rightarrow> ('s, 'b) comp) \<Rightarrow> ('s, 'b) comp" where
  "attempt m k s = (case m s of None \<Rightarrow> None | Some (r, s') \<Rightarrow> k r s')"

definition chk :: "('s, 'a) comp \<Rightarrow> ('a \<Rightarrow> ('s, 'b) comp) \<Rightarrow> ('s, 'b) comp" where
  "chk m k = attempt m (\<lambda>r. case r of Inl e \<Rightarrow> raise e | Inr v \<Rightarrow> k v)"

text \<open>Reading and changing the state; questions to the environment leave an event.\<close>

definition get :: "('s \<Rightarrow> 'a) \<Rightarrow> ('s, 'a) comp" where
  "get f s = Some (Inr (f s), s)"

definition modify :: "('s \<Rightarrow> 's) \<Rightarrow> ('s, unit) comp" where
  "modify f s = Some (Inr (), f s)"

definition log_event :: "event \<Rightarrow> 'b gstate \<Rightarrow> 'b gstate" where
  "log_event e s = s\<lparr>history := e # history s\<rparr>"

definition time_Now :: "('b, 'u) env \<Rightarrow> ('b gstate, time) comp" where
  "time_Now env s = Some (Inr (clock env (history s)), log_event ReadClock s)"

definition ctx_Err :: "('b, 'u) env \<Rightarrow> goctx \<Rightarrow> ('b gstate, goerror option) comp" where
  "ctx_Err env ctx s = Some (Inr (ctxErr env (history s) ctx), log_event (AskContext ctx) s)"

text \<open>Taking the client's lock, and the gate's: meanwhile other goroutines had them.\<close>

definition lock_client :: "('b, 'u) env \<Rightarrow> ('b gstate, unit) comp" where
  "lock_client env s = Some (Inr (), log_event Lock (s\<lparr>session := others_session env (history s) (session s)\<rparr>))"

definition lock_gate :: "('b, 'u) env \<Rightarrow> ('b gstate, unit) comp" where
  "lock_gate env s = Some (Inr (), log_event Lock (s\<lparr>gate := others_gate env (history s) (gate s)\<rparr>))"

text \<open>
  A request. A method of a vApp, VM or task object replaces what is in the object: by what was read, if
  the method returns that, else by whatever the SDK leaves there, also when it fails.
\<close>

definition perform :: "('b, 'u) env \<Rightarrow> request \<Rightarrow> ('b gstate, response) comp" where
  "perform env req s = (let a = sdk env (history s) req in Some (a, log_event (Request req a) s))"

definition perform_vapp :: "('b, 'u) env \<Rightarrow> (string \<Rightarrow> request) \<Rightarrow> ('b gstate, response) comp" where
  "perform_vapp env method s =
     (let req = method (vapp_HREF (vapp s)); a = sdk env (history s) req;
          p = (case a of Inr (AVApp p) \<Rightarrow> p | _ \<Rightarrow> vapp_after env (history s) req)
      in Some (a, log_event (Request req a) (s\<lparr>vapp := p\<rparr>)))"

definition perform_vm :: "('b, 'u) env \<Rightarrow> (string \<Rightarrow> request) \<Rightarrow> ('b gstate, response) comp" where
  "perform_vm env method s =
     (let req = method (vm_HREF (vm s)); a = sdk env (history s) req;
          p = (case a of Inr (AVM p) \<Rightarrow> p | _ \<Rightarrow> vm_after env (history s) req)
      in Some (a, log_event (Request req a) (s\<lparr>vm := p\<rparr>)))"

definition perform_task :: "('b, 'u) env \<Rightarrow> (string \<Rightarrow> request) \<Rightarrow> ('b gstate, response) comp" where
  "perform_task env method s =
     (let req = method (task_HREF (task s)); a = sdk env (history s) req;
          p = (case a of Inr (ATask p) \<Rightarrow> p | _ \<Rightarrow> task_after env (history s) req)
      in Some (a, log_event (Request req a) (s\<lparr>task := p\<rparr>)))"

lemmas comp_defs = ret_def raise_def attempt_def chk_def get_def modify_def time_Now_def ctx_Err_def
  lock_client_def lock_gate_def perform_def perform_vapp_def perform_vm_def perform_task_def

text \<open>Running the first part of a sequence.\<close>

lemma attempt_step: "m s = Some (r, t) \<Longrightarrow> attempt m k s = k r t"
  by (simp add: attempt_def)

lemma chk_step: "m s = Some (Inr v, t) \<Longrightarrow> chk m k s = k v t"
  by (simp add: chk_def attempt_def)

lemma chk_stop: "m s = Some (Inl e, t) \<Longrightarrow> chk m k s = Some (Inl e, t)"
  by (simp add: chk_def attempt_def raise_def)

lemma chk_value:
  assumes "chk m k s = Some (Inr v, t)"
  obtains w u where "m s = Some (Inr w, u)" "k w u = Some (Inr v, t)"
  using assms by (auto simp: chk_def attempt_def raise_def split: option.splits sum.splits)

lemma attempt_value_of:
  assumes "attempt m k s = Some y"
  obtains r u where "m s = Some (r, u)" "k r u = Some y"
  using assms by (auto simp: attempt_def split: option.splits)

lemma attempt_mono [partial_function_mono]:
  assumes "mono_option (\<lambda>f. m f s)" and "\<And>r s. mono_option (\<lambda>f. k f r s)"
  shows "mono_option (\<lambda>f. attempt (m f) (k f) s)"
proof -
  have "mono_option (\<lambda>f. Option.bind (m f s) (\<lambda>(r, s'). k f r s'))"
    by (rule bind_mono) (use assms in \<open>auto split: prod.splits intro: option.const_mono\<close>)
  moreover have "attempt (m f) (k f) s = Option.bind (m f s) (\<lambda>(r, s'). k f r s')" for f
    by (simp add: attempt_def split: option.split prod.split)
  ultimately show ?thesis by simp
qed

lemma chk_mono [partial_function_mono]:
  assumes "mono_option (\<lambda>f. m f s)" and "\<And>v s. mono_option (\<lambda>f. k f v s)"
  shows "mono_option (\<lambda>f. chk (m f) (k f) s)"
  unfolding chk_def
proof (rule attempt_mono, rule assms(1))
  fix r s'
  show "mono_option (\<lambda>f. (case r of Inl e \<Rightarrow> raise e | Inr v \<Rightarrow> k f v) s')"
    by (cases r) (simp_all add: assms(2) option.const_mono)
qed

section \<open>Session\<close>

text \<open>\<^verbatim>\<open>%q\<close> of a name without characters that need escaping.\<close>

definition quoted :: "string \<Rightarrow> string" where
  "quoted s = [CHR 0x22] @ s @ [CHR 0x22]"

definition setVCDToken :: "('b, 'u) env \<Rightarrow> ('b gstate, unit) comp" where
  "setVCDToken env =
     (let org = Org (ig env) in
      attempt (perform env (SetToken org (Token (ig env)))) (\<lambda>r. case r of
        Inl (Panic rec) \<Rightarrow> raise (Fail (errors_New (''panic in SetToken: '' @ rec)))
      | Inl (Fail err) \<Rightarrow> raise (Fail (Errorf (''unable to authenticate to Org '' @ quoted org @ '': '' @ Error err) [err]))
      | Inr _ \<Rightarrow> ret ()))"

definition update_session :: "(session \<Rightarrow> session) \<Rightarrow> ('b gstate, unit) comp" where
  "update_session f = modify (\<lambda>s. s\<lparr>session := f (session s)\<rparr>)"

definition authenticateLocked :: "('b, 'u) env \<Rightarrow> ('b gstate, unit) comp" where
  "authenticateLocked env =
     attempt (setVCDToken env) (\<lambda>r. case r of
       Inl err \<Rightarrow> chk (update_session (\<lambda>x. x\<lparr>lastAuthenticated := zero_time\<rparr>)) (\<lambda>_. raise err)
     | Inr _ \<Rightarrow> chk (time_Now env) (\<lambda>t.
         update_session (\<lambda>x. x\<lparr>lastAuthenticated := t, authGeneration := authGeneration x + 1\<rparr>)))"

definition refresh_interval :: "'u InstanceGroup \<Rightarrow> duration" where
  "refresh_interval g =
     (if sessionRefreshInterval g \<le> 0 then defaultSessionRefreshInterval else sessionRefreshInterval g)"

definition sessionExpired :: "('b, 'u) env \<Rightarrow> ('b gstate, bool) comp" where
  "sessionExpired env =
     chk (time_Now env) (\<lambda>t.
     get (\<lambda>s. refresh_interval (ig env) \<le> time_sub t (lastAuthenticated (session s))))"

text \<open>\<^verbatim>\<open>return ctx.Err()\<close>\<close>

definition return_ctx_Err :: "('b, 'u) env \<Rightarrow> goctx \<Rightarrow> ('b gstate, unit) comp" where
  "return_ctx_Err env ctx =
     chk (ctx_Err env ctx) (\<lambda>e. case e of None \<Rightarrow> ret () | Some err \<Rightarrow> raise (Fail err))"

text \<open>
  \<^verbatim>\<open>lockSession\<close> returns with the read lock held, so no other goroutine changes the session until the
  caller is done with it.
\<close>

definition lockSession :: "('b, 'u) env \<Rightarrow> goctx \<Rightarrow> ('b gstate, 64 word) comp" where
  "lockSession env ctx =
     chk (lock_client env) (\<lambda>_.
     chk (return_ctx_Err env ctx) (\<lambda>_.
     chk (get (vcdClient \<circ> session)) (\<lambda>client.
     chk (if client then sessionExpired env else ret False) (\<lambda>expired.
     if \<not> expired then get (authGeneration \<circ> session)
     else
       chk (lock_client env) (\<lambda>_.
       chk (sessionExpired env) (\<lambda>expired.
       chk (if expired then authenticateLocked env else ret ()) (\<lambda>_.
       chk (lock_client env) (\<lambda>_.
       get (authGeneration \<circ> session)))))))))"

definition refreshSession :: "('b, 'u) env \<Rightarrow> goctx \<Rightarrow> 64 word \<Rightarrow> ('b gstate, unit) comp" where
  "refreshSession env ctx generation =
     chk (lock_client env) (\<lambda>_.
     chk (return_ctx_Err env ctx) (\<lambda>_.
     chk (get session) (\<lambda>x.
     if \<not> vcdClient x then raise (Fail (errors_New ''cannot renew VCD session before authentication''))
     else if authGeneration x \<noteq> generation then ret ()
     else authenticateLocked env)))"

text \<open>
  \<^verbatim>\<open>newVCDClient\<close>: the settings of the client and its first token. The SDK does the rest; the proxy is the
  environment's.
\<close>

definition vcdAPIVersion :: string where
  "vcdAPIVersion = ''38.1''"

record VCDClient =
  APIVersion :: string
  InsecureSkipVerify :: bool
  TLSHandshakeTimeout :: duration
  http_Timeout :: duration
  MaxRetryTimeout :: int

definition newVCDClient :: "('b, 'u) env \<Rightarrow> bool \<Rightarrow> ('b gstate, VCDClient) comp" where
  "newVCDClient env insecure =
     (let client = \<lparr>APIVersion = vcdAPIVersion, InsecureSkipVerify = insecure, TLSHandshakeTimeout = 120 * second,
            http_Timeout = 600 * second, MaxRetryTimeout = 60\<rparr>
      in chk (setVCDToken env) (\<lambda>_. ret client))"

definition getVCDClient :: "('b, 'u) env \<Rightarrow> ('b gstate, unit) comp" where
  "getVCDClient env =
     chk (lock_client env) (\<lambda>_.
     chk (get (vcdClient \<circ> session)) (\<lambda>client.
     chk (if client then sessionExpired env else ret True) (\<lambda>expired.
     if \<not> expired then ret ()
     else
       chk (lock_client env) (\<lambda>_.
       chk (get (vcdClient \<circ> session)) (\<lambda>client.
       if \<not> client then
         chk (newVCDClient env False) (\<lambda>client.
         chk (time_Now env) (\<lambda>t.
         update_session (\<lambda>x. x\<lparr>vcdClient := True, lastAuthenticated := t, authGeneration := authGeneration x + 1\<rparr>)))
       else
         chk (sessionExpired env) (\<lambda>expired.
         if expired then authenticateLocked env else ret ()))))))"

section \<open>Waiting\<close>

text \<open>\<^verbatim>\<open>sleepContext\<close>: if the context ends before the timer fires, its error.\<close>

definition sleepContext :: "('b, 'u) env \<Rightarrow> goctx \<Rightarrow> duration \<Rightarrow> ('b gstate, unit) comp" where
  "sleepContext env ctx d s =
     (let s = log_event (Sleep d) s
      in Some (case ctxErr env (history s) ctx of None \<Rightarrow> Inr () | Some err \<Rightarrow> Inl (Fail err), s))"

text \<open>\<^verbatim>\<open>throttled\<close> and \<^verbatim>\<open>wait\<close> of the gate, called by a goroutine that shares it with others.\<close>

definition gate_throttled :: "('b, 'u) env \<Rightarrow> ('b gstate, unit) comp" where
  "gate_throttled env =
     chk (lock_gate env) (\<lambda>_.
     chk (time_Now env) (\<lambda>t.
     modify (\<lambda>s. s\<lparr>gate := throttled (backoff env) t (gate s)\<rparr>)))"

partial_function (option) gate_wait :: "('b, 'u) env \<Rightarrow> goctx \<Rightarrow> ('b gstate, unit) comp" where
  "gate_wait env ctx s =
     chk (lock_gate env) (\<lambda>_.
     chk (time_Now env) (\<lambda>t.
     chk (get gate) (\<lambda>g.
     case g of
       None \<Rightarrow> return_ctx_Err env ctx
     | Some g \<Rightarrow> (\<lambda>s.
         if time_sub (pausedUntil g) t \<le> 0 then return_ctx_Err env ctx s
         else chk (sleepContext env ctx (time_sub (pausedUntil g) t)) (\<lambda>_ s. gate_wait env ctx s) s)))) s"

section \<open>Calls\<close>

fun recovered :: "string \<Rightarrow> exn \<Rightarrow> goerror" where
  "recovered desc (Fail err) = err"
| "recovered desc (Panic rec) = errors_New (''panic in '' @ desc @ '': '' @ rec)"

type_synonym 'b rollback = "'b gstate \<Rightarrow> 'b gstate"

text \<open>The result, an error included, and the generation of the session the attempt used.\<close>

definition vcdCallAttempt ::
    "('b, 'u) env \<Rightarrow> goctx \<Rightarrow> string \<Rightarrow> ('b gstate, response) comp \<Rightarrow> 'b rollback list
     \<Rightarrow> ('b gstate, (goerror + response) \<times> 64 word) comp" where
  "vcdCallAttempt env ctx desc fn restore =
     attempt (lockSession env ctx) (\<lambda>r. case r of
       Inl e \<Rightarrow> ret (Inl (recovered desc e), 0)
     | Inr generation \<Rightarrow>
         attempt fn (\<lambda>r. case r of
           Inr v \<Rightarrow> ret (Inr v, generation)
         | Inl e \<Rightarrow>
             chk (modify (fold (\<lambda>rollback s. rollback s) restore)) (\<lambda>_.
             ret (Inl (recovered desc e), generation))))"

text \<open>The loop that waits out the operation limit of vCD and repeats the attempt.\<close>

partial_function (option) vcdCall_limited ::
    "('b, 'u) env \<Rightarrow> goctx \<Rightarrow> string \<Rightarrow> ('b gstate, response) comp \<Rightarrow> 'b rollback list
     \<Rightarrow> (goerror + response) \<times> 64 word \<Rightarrow> ('b gstate, (goerror + response) \<times> 64 word) comp" where
  "vcdCall_limited env ctx desc fn restore x s =
     chk (get gate) (\<lambda>g.
     case fst x of
       Inr v \<Rightarrow> ret x
     | Inl opErr \<Rightarrow> (\<lambda>s.
         if g \<noteq> None \<and> isOperationLimitError (Some opErr) then
           chk (gate_throttled env) (\<lambda>_.
           attempt (gate_wait env ctx) (\<lambda>r. case r of
             Inl waitErr \<Rightarrow>
               raise (Fail (PermanentError (Errorf
                 (Error opErr @ ''; waiting for vCD operation limit: '' @ Error (recovered desc waitErr))
                 [opErr, recovered desc waitErr])))
           | Inr _ \<Rightarrow>
               chk (vcdCallAttempt env ctx desc fn restore) (\<lambda>x s. vcdCall_limited env ctx desc fn restore x s))) s
         else ret x s)) s"

definition vcdCall_finish :: "goerror + response \<Rightarrow> ('b gstate, response) comp" where
  "vcdCall_finish r =
     (case r of
        Inr v \<Rightarrow> ret v
      | Inl opErr \<Rightarrow> if isPermanentError (Some opErr) then raise (Fail (PermanentError opErr)) else raise (Fail opErr))"

definition vcdCall_op ::
    "('b, 'u) env \<Rightarrow> goctx \<Rightarrow> string \<Rightarrow> ('b gstate, response) comp \<Rightarrow> bool \<Rightarrow> 'b rollback list
     \<Rightarrow> ('b gstate, response) comp" where
  "vcdCall_op env ctx desc fn retry restore =
     chk (vcdCallAttempt env ctx desc fn restore) (\<lambda>x.
     chk (vcdCall_limited env ctx desc fn restore x) (\<lambda>(res, generation).
     case res of
       Inr v \<Rightarrow> vcdCall_finish res
     | Inl opErr \<Rightarrow>
         if isUnauthorizedError (Some opErr) then
           attempt (refreshSession env ctx generation) (\<lambda>r. case r of
             Inl authErr \<Rightarrow>
               raise (Fail (Errorf (Error opErr @ ''; session renewal failed: '' @ Error (recovered desc authErr)) [opErr]))
           | Inr _ \<Rightarrow>
               if retry then chk (vcdCallAttempt env ctx desc fn restore) (\<lambda>(res, _). vcdCall_finish res)
               else vcdCall_finish res)
         else vcdCall_finish res))"

definition safeCallInitialInterval :: duration where
  "safeCallInitialInterval = second"

definition vcdCall ::
    "('b, 'u) env \<Rightarrow> goctx \<Rightarrow> string \<Rightarrow> ('b gstate, response) comp \<Rightarrow> bool \<Rightarrow> 'b rollback list
     \<Rightarrow> ('b gstate, response) comp" where
  "vcdCall env ctx desc fn retry restore =
     (let op = vcdCall_op env ctx desc fn retry restore in
      if \<not> retry then op
      else RetryWithData env [WithMaxElapsedTime safeCallMaxElapsedTime, WithInitialInterval safeCallInitialInterval] ctx op)"

definition safeVCDCall ::
    "('b, 'u) env \<Rightarrow> goctx \<Rightarrow> string \<Rightarrow> ('b gstate, response) comp \<Rightarrow> 'b rollback list \<Rightarrow> ('b gstate, response) comp" where
  "safeVCDCall env ctx desc fn restore = vcdCall env ctx desc fn True restore"

definition singleVCDCall ::
    "('b, 'u) env \<Rightarrow> goctx \<Rightarrow> string \<Rightarrow> ('b gstate, response) comp \<Rightarrow> 'b rollback list \<Rightarrow> ('b gstate, response) comp" where
  "singleVCDCall env ctx desc fn restore = vcdCall env ctx desc fn False restore"

definition safeVCDCallVoid ::
    "('b, 'u) env \<Rightarrow> goctx \<Rightarrow> string \<Rightarrow> ('b gstate, response) comp \<Rightarrow> 'b rollback list \<Rightarrow> ('b gstate, unit) comp" where
  "safeVCDCallVoid env ctx desc fn restore = chk (safeVCDCall env ctx desc fn restore) (\<lambda>_. ret ())"

definition notFoundIsPermanent :: "('b gstate, 'a) comp \<Rightarrow> ('b gstate, 'a) comp" where
  "notFoundIsPermanent fn =
     attempt fn (\<lambda>r. case r of
       Inr v \<Rightarrow> ret v
     | Inl (Panic rec) \<Rightarrow> raise (Panic rec)
     | Inl (Fail err) \<Rightarrow>
         if isEntityNotFoundError (Some err) then raise (Fail (PermanentError err)) else raise (Fail err))"

text \<open>\<^verbatim>\<open>preserveVApp(vapp)\<close> and \<^verbatim>\<open>preserveVM(vm)\<close> capture the payload at the time of the call.\<close>

definition preserveVApp :: "'b gstate \<Rightarrow> 'b rollback" where
  "preserveVApp s = (\<lambda>s'. s'\<lparr>vapp := vapp s\<rparr>)"

definition preserveVM :: "'b gstate \<Rightarrow> 'b rollback" where
  "preserveVM s = (\<lambda>s'. s'\<lparr>vm := vm s\<rparr>)"

text \<open>The induction rule of the loop, with its arguments apart.\<close>

lemmas vcdCall_limited_induct =
  vcdCall_limited.raw_induct [where xa = "((((((env, ctx), desc), fn), restore), x), s)" for env ctx desc fn restore x s,
    simplified prod.case]

end
