(* ===== verification/Scripts.thy ===== *)
theory Scripts
  imports Prelude
begin

text \<open>
  The guest customization scripts, \<^verbatim>\<open>src/scripts.go\<close>, and how \<^verbatim>\<open>injectCredentials\<close> fills them in. The scripts are
  templates of \<^verbatim>\<open>text/template\<close>; of its language they use plain text and the field \<open>{{.PublicKey}}\<close>.
\<close>

section \<open>The scripts\<close>

abbreviation (input) tab :: string where "tab \<equiv> [CHR 0x09]"
abbreviation (input) newline :: string where "newline \<equiv> [CHR 0x0A]"
abbreviation (input) dquote :: string where "dquote \<equiv> [CHR 0x22]"
abbreviation (input) squote :: string where "squote \<equiv> [CHR 0x27]"
abbreviation (input) backslash :: string where "backslash \<equiv> [CHR 0x5C]"

fun join_lines :: "string list \<Rightarrow> string" where
  "join_lines [] = []"
| "join_lines [l] = l"
| "join_lines (l # ls) = l @ newline @ join_lines ls"

definition linuxGuestCustomizationScript :: string where
  "linuxGuestCustomizationScript = join_lines
    [''#!/bin/bash'',
     ''if [ x$1 == x'' @ dquote @ ''precustomization'' @ dquote @ '' ]; then'',
     tab @ ''echo '' @ squote @ ''Precustom'' @ squote,
     ''elif [ x$1 == x'' @ dquote @ ''postcustomization'' @ dquote @ '' ]; then'',
     tab @ ''mkdir -p /root/.ssh'',
     tab @ ''echo '' @ squote @ ''{{.PublicKey}}'' @ squote @ '' >> /root/.ssh/authorized_keys'',
     tab @ ''chmod -R go-rwx /root/.ssh'',
     ''fi'']"

definition windowsGuestCustomizationScript :: string where
  "windowsGuestCustomizationScript = join_lines
    [''@echo off'',
     ''if '' @ dquote @ ''%1'' @ dquote @ '' == '' @ dquote @ ''precustomization'' @ dquote @ '' ('',
     tab @ ''echo Performing precustomization tasks'',
     '') else if '' @ dquote @ ''%1'' @ dquote @ '' == '' @ dquote @ ''postcustomization'' @ dquote @ '' ('',
     tab @ ''echo Performing postcustomization tasks'',
     tab,
     tab @ ''REM Create the .ssh directory if it doesn'' @ squote @ ''t exist'',
     tab @ ''if not exist C:'' @ backslash @ ''Users'' @ backslash @ ''administrator'' @ backslash @ ''.ssh mkdir C:'' @ backslash @ ''Users'' @ backslash @ ''administrator'' @ backslash @ ''.ssh'',
     [],
     tab @ ''REM Add SSH public key'',
     tab @ ''echo {{.PublicKey}} > C:'' @ backslash @ ''Users'' @ backslash @ ''administrator'' @ backslash @ ''.ssh'' @ backslash @ ''authorized_keys'',
     tab,
     tab @ ''REM Set appropriate permissions on the authorized_keys file'',
     tab @ ''icacls C:'' @ backslash @ ''Users'' @ backslash @ ''administrator'' @ backslash @ ''.ssh'' @ backslash @ ''authorized_keys /inheritance:r /grant '' @ dquote @ ''Administrators:F'' @ dquote @ '' /grant '' @ dquote @ ''SYSTEM:F'' @ dquote @ tab,
     tab,
     tab @ ''REM Restart the SSH service'',
     tab @ ''net stop sshd'',
     tab @ ''net start sshd'',
     tab,
     tab @ ''REM Ensure the SSH service starts automatically'',
     tab @ ''sc config sshd start= auto'',
     tab,
     tab @ ''echo Postcustomization tasks completed'',
     '')'',
     []]"

section \<open>Templates\<close>

datatype node = TextNode string | FieldNode string

text \<open>\<^verbatim>\<open>strings.Cut\<close>.\<close>

fun cut :: "string \<Rightarrow> string \<Rightarrow> (string \<times> string) option" where
  "cut sep [] = (if sep = [] then Some ([], []) else None)"
| "cut sep (c # cs) =
     (if HasPrefix (c # cs) sep then Some ([], drop (length sep) (c # cs))
      else map_option (\<lambda>(before, after). (c # before, after)) (cut sep cs))"

lemma cut_shorter: "cut sep s = Some (a, b) \<Longrightarrow> length b + length sep \<le> length s"
  by (induction sep s arbitrary: a b rule: cut.induct)
    (fastforce split: if_splits dest: prefix_length_le)+

text \<open>
  \<^verbatim>\<open>template.Parse\<close> for texts whose actions are fields: \<open>None\<close> is an error, on which \<^verbatim>\<open>template.Must\<close> panics. An
  action that is not a field is not in this part of the language.
\<close>

function Parse :: "string \<Rightarrow> node list option" where
  "Parse s =
     (case cut ''{{'' s of
        None \<Rightarrow> Some (if s = [] then [] else [TextNode s])
      | Some (text, rest) \<Rightarrow>
          (case cut ''}}'' rest of
             None \<Rightarrow> None
           | Some (action, rest) \<Rightarrow>
               if HasPrefix action ''.'' \<and> length action > 1
               then map_option (\<lambda>ns. (if text = [] then [] else [TextNode text]) @ FieldNode (tl action) # ns) (Parse rest)
               else None))"
  by pat_completeness auto

termination
  by (relation "measure length") (auto dest!: cut_shorter)

declare Parse.simps [simp del]

text \<open>Executing with a map: a key that is missing prints as \<open><no value>\<close>.\<close>

fun Execute :: "node list \<Rightarrow> (string \<times> string) list \<Rightarrow> string" where
  "Execute [] data = []"
| "Execute (TextNode t # ns) data = t @ Execute ns data"
| "Execute (FieldNode f # ns) data =
     (case map_of data f of Some v \<Rightarrow> v | None \<Rightarrow> ''<no value>'') @ Execute ns data"

text \<open>\<^verbatim>\<open>strings.TrimSpace\<close>, for ASCII.\<close>

definition is_space :: "char \<Rightarrow> bool" where
  "is_space c \<longleftrightarrow> c \<in> {CHR '' '', CHR 0x09, CHR 0x0A, CHR 0x0B, CHR 0x0C, CHR 0x0D}"

definition TrimSpace :: "string \<Rightarrow> string" where
  "TrimSpace s = rev (dropWhile is_space (rev (dropWhile is_space s)))"

text \<open>The script for a guest: \<open>None\<close> is the panic of \<^verbatim>\<open>template.Must\<close>.\<close>

definition guest_script :: "bool \<Rightarrow> string \<Rightarrow> string option" where
  "guest_script windows marshalled =
     map_option (\<lambda>ns. Execute ns [(''PublicKey'', TrimSpace marshalled)])
       (Parse (if windows then windowsGuestCustomizationScript else linuxGuestCustomizationScript))"

section \<open>What the guest is told\<close>

text \<open>The line that stores the key, and the lines around it.\<close>

definition key_line :: "bool \<Rightarrow> string \<Rightarrow> string" where
  "key_line windows key =
     (if windows
      then tab @ ''echo '' @ key @ '' > C:'' @ backslash @ ''Users'' @ backslash @ ''administrator'' @ backslash @ ''.ssh'' @
        backslash @ ''authorized_keys''
      else tab @ ''echo '' @ squote @ key @ squote @ '' >> /root/.ssh/authorized_keys'')"

fun lines_of :: "string \<Rightarrow> string list" where
  "lines_of [] = [[]]"
| "lines_of (c # cs) = (if [c] = newline then [] # lines_of cs else (case lines_of cs of [] \<Rightarrow> [[c]] | l # ls \<Rightarrow> (c # l) # ls))"

lemma lines_of_not_Nil [simp]: "lines_of s \<noteq> []"
  by (cases s) (auto split: list.split)

lemma lines_of_append:
  "lines_of (s @ t) = butlast (lines_of s) @ (last (lines_of s) @ hd (lines_of t)) # tl (lines_of t)"
proof (induction s)
  case Nil
  then show ?case by (cases "lines_of t") (use lines_of_not_Nil [of t] in auto)
next
  case (Cons c s)
  then show ?case by (cases "lines_of s") (auto simp: neq_Nil_conv split: list.split)
qed

lemma lines_of_one: "CHR 0x0A \<notin> set s \<Longrightarrow> lines_of s = [s]"
  by (induction s) auto

lemma fill_in_line:
  assumes "CHR 0x0A \<notin> set k"
  shows "lines_of (p @ k @ q) =
    butlast (lines_of p) @ (last (lines_of p) @ k @ hd (lines_of q)) # tl (lines_of q)"
  by (simp add: lines_of_append lines_of_one [OF assms])

abbreviation template_of :: "bool \<Rightarrow> string" where
  "template_of windows \<equiv> (if windows then windowsGuestCustomizationScript else linuxGuestCustomizationScript)"

text \<open>Both templates are text, the key, text; and the text around the key is the key line's.\<close>

fun around_field :: "node list option \<Rightarrow> (string \<times> string \<times> string) option" where
  "around_field (Some [TextNode p, FieldNode f, TextNode q]) = Some (p, f, q)"
| "around_field _ = None"

lemma around_field_Some: "around_field ns = Some (p, f, q) \<longleftrightarrow> ns = Some [TextNode p, FieldNode f, TextNode q]"
  by (cases ns rule: around_field.cases) auto

definition key_template :: "bool \<Rightarrow> bool" where
  "key_template windows =
     (case around_field (Parse (template_of windows)) of
        Some (p, f, q) \<Rightarrow>
          f = ''PublicKey'' \<and> template_of windows = p @ ''{{.PublicKey}}'' @ q \<and>
          last (lines_of p) @ ''{{.PublicKey}}'' @ hd (lines_of q) = key_line windows ''{{.PublicKey}}'' \<and>
          length (last (lines_of p)) = (if windows then 6 else 7)
      | None \<Rightarrow> False)"

lemma key_templates: "key_template windows"
proof (cases windows)
  case True
  have "key_template True" by code_simp
  then show ?thesis using True by simp
next
  case False
  have "key_template False" by code_simp
  then show ?thesis using False by simp
qed

lemma key_line_frame:
  assumes "a @ ''{{.PublicKey}}'' @ b = key_line windows ''{{.PublicKey}}''" "length a = (if windows then 6 else 7)"
  shows "a @ k @ b = key_line windows k"
proof -
  have "a = take (length a) (a @ ''{{.PublicKey}}'' @ b)" "b = drop (length a + 14) (a @ ''{{.PublicKey}}'' @ b)" by simp_all
  then have "a = take (if windows then 6 else 7) (key_line windows ''{{.PublicKey}}'')"
    "b = drop ((if windows then 6 else 7) + 14) (key_line windows ''{{.PublicKey}}'')"
    unfolding assms by simp_all
  then show ?thesis by (cases windows) (simp_all add: key_line_def)
qed

text \<open>The filled-in script is the template with one line changed: the one that stores the key.\<close>

lemma guest_script_lines:
  assumes "CHR 0x0A \<notin> set (TrimSpace marshalled)"
  shows "\<exists>script before after. guest_script windows marshalled = Some script \<and>
    lines_of (template_of windows) = before @ key_line windows ''{{.PublicKey}}'' # after \<and>
    lines_of script = before @ key_line windows (TrimSpace marshalled) # after"
proof -
  let ?k = "TrimSpace marshalled"
  obtain p q where parse: "Parse (template_of windows) = Some [TextNode p, FieldNode ''PublicKey'', TextNode q]"
    and t: "template_of windows = p @ ''{{.PublicKey}}'' @ q"
    and l: "last (lines_of p) @ ''{{.PublicKey}}'' @ hd (lines_of q) = key_line windows ''{{.PublicKey}}''"
      "length (last (lines_of p)) = (if windows then 6 else 7)"
    using key_templates [of windows] unfolding key_template_def
    by (auto simp: around_field_Some split: option.split_asm)
  have "lines_of (template_of windows) = butlast (lines_of p) @ key_line windows ''{{.PublicKey}}'' # tl (lines_of q)"
    unfolding t by (subst fill_in_line) (simp_all only: l(1), simp_all)
  moreover have "lines_of (p @ ?k @ q) = butlast (lines_of p) @ key_line windows ?k # tl (lines_of q)"
    by (simp only: fill_in_line [OF assms] key_line_frame [OF l])
  moreover have "guest_script windows marshalled = Some (p @ ?k @ q)"
    using parse by (simp add: guest_script_def)
  ultimately show ?thesis by blast
qed

text \<open>A trimmed line has no newline, if the line has none but at its end.\<close>

lemma TrimSpace_line: "CHR 0x0A \<notin> set s \<Longrightarrow> CHR 0x0A \<notin> set (TrimSpace (s @ newline))"
proof -
  assume s: "CHR 0x0A \<notin> set s"
  have sp: "is_space (CHR 0x0A)" by (simp add: is_space_def)
  have "TrimSpace (s @ newline) = TrimSpace s"
    using sp by (cases "\<forall>x\<in>set s. is_space x") (auto simp: TrimSpace_def dropWhile_append dest!: set_dropWhileD)
  then show ?thesis using s by (auto simp: TrimSpace_def dest!: set_dropWhileD)
qed

end
