(* ===== verification/Go_Format.thy ===== *)
theory Go_Format
  imports Prelude "HOL-Library.Word"
begin

text \<open>
  How Go prints durations and times: \<^verbatim>\<open>Duration.Round\<close>, \<^verbatim>\<open>Duration.String\<close> and the layout \<^verbatim>\<open>time.RFC3339\<close> of
  the package \<^verbatim>\<open>time\<close>, with readers for both that serve as reference. The readers give back what was printed.
\<close>

section \<open>Integers\<close>

text \<open>The conversion to \<^verbatim>\<open>int64\<close>, and so the result of any \<^verbatim>\<open>int64\<close> operation: it wraps at 64 bits.\<close>

definition int64 :: "int \<Rightarrow> int" where
  "int64 x = sint (word_of_int x :: 64 word)"

lemma int64_id: "min_duration \<le> x \<Longrightarrow> x \<le> max_duration \<Longrightarrow> int64 x = x"
  by (simp add: int64_def min_duration_def max_duration_def sint_sbintrunc' signed_take_bit_int_eq_self)

section \<open>Durations\<close>

definition millisecond :: duration where
  "millisecond = 1000000"

text \<open>\<^verbatim>\<open>Duration.Round\<close>: half-way values go away from zero, results out of range are the end of the range.\<close>

definition Duration_Round :: "duration \<Rightarrow> duration \<Rightarrow> duration" where
  "Duration_Round d m =
     (if m \<le> 0 then d
      else if d < 0 then
        (let r = (- d) mod m in
         if r + r < m then d + r
         else (let d1 = int64 (d - m + r) in if d1 < d then d1 else min_duration))
      else
        (let r = d mod m in
         if r + r < m then d - r
         else (let d1 = int64 (d + m - r) in if d1 > d then d1 else max_duration)))"

text \<open>\<^verbatim>\<open>fmtFrac\<close>: the last \<open>prec\<close> digits as a fraction without trailing zeros, in front of \<open>out\<close>.\<close>

fun frac_digits :: "nat \<Rightarrow> nat \<Rightarrow> bool \<Rightarrow> string \<Rightarrow> string \<times> nat \<times> bool" where
  "frac_digits 0 v print out = (out, v, print)"
| "frac_digits (Suc n) v print out =
     (let digit = v mod 10; print = (print \<or> digit \<noteq> 0)
      in frac_digits n (v div 10) print (if print then char_of (48 + digit) # out else out))"

definition fmtFrac :: "nat \<Rightarrow> nat \<Rightarrow> string \<Rightarrow> string \<times> nat" where
  "fmtFrac v prec out =
     (let (ds, v, print) = frac_digits prec v False [] in (if print then ''.'' @ ds @ out else ds @ out, v))"

definition micro :: string where
  "micro = [CHR 0xC2, CHR 0xB5]"

text \<open>A duration below a second has one unit.\<close>

definition format_small :: "nat \<Rightarrow> nat \<Rightarrow> string \<Rightarrow> string" where
  "format_small u prec unit = (let (out, v) = fmtFrac u prec unit in decimal v @ out)"

definition format_large :: "nat \<Rightarrow> string" where
  "format_large u =
     (let (out, v) = fmtFrac u 9 ''s'';
          out = decimal (v mod 60) @ out; v = v div 60
      in if v = 0 then out
         else (let out = decimal (v mod 60) @ ''m'' @ out; v = v div 60
               in if v = 0 then out else decimal v @ ''h'' @ out))"

definition Duration_String :: "duration \<Rightarrow> string" where
  "Duration_String d =
     (let u = nat \<bar>d\<bar>;
          body = (if u = 0 then ''0s''
                  else if u < 1000 then format_small u 0 ''ns''
                  else if u < 1000000 then format_small u 3 (micro @ ''s'')
                  else if u < 1000000000 then format_small u 6 ''ms''
                  else format_large u)
      in if d < 0 then ''-'' @ body else body)"

section \<open>Reading durations\<close>

text \<open>\<^verbatim>\<open>time.ParseDuration\<close> for texts in range: groups of a decimal number and a unit, after an optional sign.\<close>

definition is_digit :: "char \<Rightarrow> bool" where
  "is_digit c \<longleftrightarrow> (of_char c :: nat) \<in> {48..57}"

definition digits_value :: "string \<Rightarrow> nat" where
  "digits_value = foldl (\<lambda>v c. v * 10 + (of_char c - 48)) 0"

definition unit_value :: "string \<Rightarrow> nat option" where
  "unit_value = map_of [(''ns'', 1), (''us'', 1000), (micro @ ''s'', 1000), (''ms'', 10 ^ 6), (''s'', 10 ^ 9),
     (''m'', 60 * 10 ^ 9), (''h'', 3600 * 10 ^ 9)]"

definition fraction_part :: "string \<Rightarrow> string \<times> string" where
  "fraction_part s =
     (case s of [] \<Rightarrow> ([], [])
      | c # r \<Rightarrow> if c = CHR ''.'' then (takeWhile is_digit r, dropWhile is_digit r) else ([], s))"

definition in_unit :: "char \<Rightarrow> bool" where
  "in_unit c \<longleftrightarrow> \<not> is_digit c \<and> c \<noteq> CHR ''.''"

definition read_group :: "string \<Rightarrow> (nat \<times> string) option" where
  "read_group s =
     (let ds = takeWhile is_digit s; (fs, r) = fraction_part (dropWhile is_digit s)
      in if ds = [] \<and> fs = [] then None
         else map_option (\<lambda>u. (digits_value ds * u + digits_value fs * u div 10 ^ length fs, dropWhile in_unit r))
                (unit_value (takeWhile in_unit r)))"

lemma length_split: "length (takeWhile P s) + length (dropWhile P s) = length s"
  by (metis length_append takeWhile_dropWhile_id)

lemma fraction_part_length: "fraction_part s = (fs, r) \<Longrightarrow> length r + length fs \<le> length s"
  using length_split [of is_digit] by (auto simp: fraction_part_def split: list.splits if_splits) (metis add.commute le_SucI order_refl)

lemma read_group_shorter:
  assumes "read_group s = Some (v, r)"
  shows "length r < length s"
proof -
  obtain fs r' where f: "fraction_part (dropWhile is_digit s) = (fs, r')" by fastforce
  have "length r \<le> length r'" "takeWhile is_digit s \<noteq> [] \<or> fs \<noteq> []"
    using assms by (auto simp: read_group_def f Let_def length_dropWhile_le split: if_splits)
  then show ?thesis
    using fraction_part_length [OF f] length_split [of is_digit s] by (auto simp flip: length_greater_0_conv)
qed

function read_groups :: "string \<Rightarrow> nat option" where
  "read_groups s =
     (if s = [] then Some 0
      else case read_group s of
             None \<Rightarrow> None
           | Some (v, r) \<Rightarrow> map_option ((+) v) (read_groups r))"
  by pat_completeness auto

termination
  by (relation "measure length") (auto simp: read_group_shorter)

declare read_groups.simps [simp del]

definition read_duration :: "string \<Rightarrow> duration option" where
  "read_duration s =
     (if s = [] then None
      else if hd s = CHR ''-'' then (if tl s = [] then None else map_option (\<lambda>v. - int v) (read_groups (tl s)))
      else map_option int (read_groups s))"

section \<open>A printed duration is read back\<close>

abbreviation all_digits :: "string \<Rightarrow> bool" where
  "all_digits s \<equiv> list_all is_digit s"

lemma of_char_digit [simp]: "n < 10 \<Longrightarrow> of_char (char_of (48 + n) :: char) = (48 + n :: nat)"
  by simp

lemma is_digit_digit [simp]: "(n :: nat) < 10 \<Longrightarrow> is_digit (char_of (48 + n))"
  by (simp add: is_digit_def)

lemma digits_value_Nil [simp]: "digits_value [] = 0"
  by (simp add: digits_value_def)

lemma digits_value_snoc: "digits_value (s @ [c]) = digits_value s * 10 + (of_char c - 48)"
  by (simp add: digits_value_def)

lemma digits_value_Cons: "digits_value (c # s) = (of_char c - 48) * 10 ^ length s + digits_value s"
proof (induction s rule: rev_induct)
  case (snoc x s)
  have "digits_value (c # s @ [x]) = digits_value ((c # s) @ [x])" by simp
  then show ?case using snoc by (simp only: digits_value_snoc) (simp add: algebra_simps)
qed (simp add: digits_value_def)

lemma digits_value_zeros [simp]: "digits_value (replicate n (CHR ''0'') @ s) = digits_value s"
  by (induction n) (simp_all add: digits_value_Cons)

lemma decimal_digits [simp]: "all_digits (decimal n)" "decimal n \<noteq> []" "digits_value (decimal n) = n"
proof -
  have "all_digits (decimal n) \<and> decimal n \<noteq> [] \<and> digits_value (decimal n) = n"
  proof (induction n rule: decimal.induct)
    case (1 n)
    then show ?case
      by (subst (1 2 3) decimal.simps) (auto simp: digits_value_snoc digits_value_Cons)
  qed
  then show "all_digits (decimal n)" "decimal n \<noteq> []" "digits_value (decimal n) = n" by auto
qed

text \<open>\<open>out\<close> holds the low \<open>j\<close> digits \<open>w\<close> less \<open>t\<close> trailing zeros.\<close>

lemma frac_digits_value:
  assumes "frac_digits n v print out = (out', v', print')" and "print \<longleftrightarrow> out \<noteq> []" and "all_digits out"
    and "length out + t = j" and "digits_value out * 10 ^ t = w"
  shows "v' = v div 10 ^ n \<and> (print' \<longleftrightarrow> out' \<noteq> []) \<and> all_digits out' \<and>
         (\<exists>t. length out' + t = j + n \<and> digits_value out' * 10 ^ t = w + (v mod 10 ^ n) * 10 ^ j)"
  using assms
proof (induction n v print out arbitrary: t j w rule: frac_digits.induct)
  case (2 n v print out)
  define d where "d = v mod 10"
  define out1 where "out1 = (if print \<or> d \<noteq> 0 then char_of (48 + d) # out else out)"
  define t1 where "t1 = (if print \<or> d \<noteq> 0 then t else Suc t)"
  have d: "d < 10" by (simp add: d_def)
  have "frac_digits n (v div 10) (print \<or> d \<noteq> 0) out1 = (out', v', print')"
    using 2(2) unfolding out1_def d_def by (simp only: frac_digits.simps Let_def)
  moreover have "(print \<or> d \<noteq> 0) \<longleftrightarrow> out1 \<noteq> []" "all_digits out1" "length out1 + t1 = Suc j"
    using 2(3-5) d by (auto simp: out1_def t1_def)
  moreover have "digits_value out1 * 10 ^ t1 = w + d * 10 ^ j"
    using 2(3,5,6) d by (auto simp: out1_def t1_def digits_value_Cons algebra_simps power_add)
  ultimately have IH: "v' = v div 10 div 10 ^ n \<and> (print' \<longleftrightarrow> out' \<noteq> []) \<and> all_digits out' \<and>
      (\<exists>t. length out' + t = Suc j + n \<and> digits_value out' * 10 ^ t = w + d * 10 ^ j + (v div 10 mod 10 ^ n) * 10 ^ Suc j)"
    using 2(1) [OF refl refl] unfolding d_def [symmetric] out1_def [symmetric] by blast
  have "v mod 10 ^ Suc n = d + v div 10 mod 10 ^ n * 10"
    by (simp add: d_def mod_mult2_eq)
  then have "(v mod 10 ^ Suc n) * 10 ^ j = d * 10 ^ j + (v div 10 mod 10 ^ n) * 10 ^ Suc j"
    by (simp add: algebra_simps)
  then show ?case using IH by (simp add: div_mult2_eq add.assoc)
qed auto

lemma fmtFrac_value:
  obtains fs where "fmtFrac v prec out = ((if fs = [] then [] else ''.'' @ fs) @ out, v div 10 ^ prec)" "all_digits fs"
    "digits_value fs * 10 ^ prec div 10 ^ length fs = v mod 10 ^ prec"
proof -
  obtain fs v' print where run: "frac_digits prec v False [] = (fs, v', print)" by (metis prod_cases3)
  from frac_digits_value [OF this, of 0 0 0] obtain t where
    *: "v' = v div 10 ^ prec" "print \<longleftrightarrow> fs \<noteq> []" "all_digits fs" "length fs + t = prec" "digits_value fs * 10 ^ t = v mod 10 ^ prec"
    by auto
  have "digits_value fs * 10 ^ prec div 10 ^ length fs = v mod 10 ^ prec"
    unfolding *(5) [symmetric] unfolding *(4) [symmetric] by (simp add: power_add)
  then show thesis using that [of fs] run * by (auto simp: fmtFrac_def)
qed

text \<open>One group, when what follows starts with a digit.\<close>

definition starts_group :: "string \<Rightarrow> bool" where
  "starts_group s \<longleftrightarrow> s = [] \<or> is_digit (hd s)"

lemma takeWhile_prefix: "list_all P s \<Longrightarrow> r = [] \<or> \<not> P (hd r) \<Longrightarrow> takeWhile P (s @ r) = s \<and> dropWhile P (s @ r) = r"
  by (induction s) (cases r, auto)

lemma read_group_printed:
  assumes "all_digits ds" "ds \<noteq> []" "all_digits fs" "list_all in_unit us" "us \<noteq> []" "starts_group r" "unit_value us = Some u"
  shows "read_group (ds @ (if fs = [] then [] else ''.'' @ fs) @ us @ r) =
         Some (digits_value ds * u + digits_value fs * u div 10 ^ length fs, r)"
proof -
  have us: "\<not> is_digit (hd us)" "hd us \<noteq> CHR ''.''" using assms(4,5) by (cases us; simp add: in_unit_def)+
  let ?rest = "(if fs = [] then [] else ''.'' @ fs) @ us @ r"
  have "?rest = [] \<or> \<not> is_digit (hd ?rest)" using us assms(5) by (simp add: is_digit_def)
  with assms(1) have ds: "takeWhile is_digit (ds @ ?rest) = ds" "dropWhile is_digit (ds @ ?rest) = ?rest"
    using takeWhile_prefix by blast+
  have "takeWhile is_digit (fs @ us @ r) = fs \<and> dropWhile is_digit (fs @ us @ r) = us @ r"
    using assms(3,5) us by (intro takeWhile_prefix) auto
  then have fs: "fraction_part ?rest = (fs, us @ r)"
    using assms(5) us by (cases us) (auto simp: fraction_part_def split: list.splits)
  have "takeWhile in_unit (us @ r) = us \<and> dropWhile in_unit (us @ r) = r"
    using assms(4,6) by (intro takeWhile_prefix) (auto simp: starts_group_def in_unit_def)
  then show ?thesis unfolding read_group_def ds fs using assms(2,7) by simp
qed

lemmas read_whole = read_group_printed [where fs = "[]", simplified]

lemma read_groups_step:
  "read_group s = Some (v, r) \<Longrightarrow> read_groups r = Some w \<Longrightarrow> read_groups s = Some (v + w)"
  by (subst read_groups.simps) (auto simp: read_group_def fraction_part_def)

lemma starts_decimal [simp]: "starts_group (decimal n @ s)" "starts_group []"
  by (cases "decimal n"; use decimal_digits(1,2) [of n] in \<open>simp add: starts_group_def\<close>) (simp add: starts_group_def)

lemma read_groups_Nil [simp]: "read_groups [] = Some 0"
  by (simp add: read_groups.simps)

lemma in_units:
  "list_all in_unit ''ns''" "list_all in_unit (micro @ ''s'')" "list_all in_unit ''ms''"
  "list_all in_unit ''s''" "list_all in_unit ''m''" "list_all in_unit ''h''"
  by (simp_all add: in_unit_def is_digit_def micro_def)

lemma unit_values [simp]:
  "unit_value ''ns'' = Some 1" "unit_value (micro @ ''s'') = Some 1000" "unit_value ''ms'' = Some (10 ^ 6)"
  "unit_value ''s'' = Some (10 ^ 9)" "unit_value ''m'' = Some (60 * 10 ^ 9)" "unit_value ''h'' = Some (3600 * 10 ^ 9)"
  by (simp_all add: unit_value_def micro_def)

lemma read_small:
  assumes "unit_value us = Some (10 ^ prec)" "list_all in_unit us" "us \<noteq> []"
  shows "read_groups (format_small u prec us) = Some u"
proof -
  obtain fs where fs: "fmtFrac u prec us = ((if fs = [] then [] else ''.'' @ fs) @ us, u div 10 ^ prec)" "all_digits fs"
    "digits_value fs * 10 ^ prec div 10 ^ length fs = u mod 10 ^ prec"
    by (rule fmtFrac_value)
  have "read_group (format_small u prec us) = Some (u, [])"
    using read_group_printed [OF decimal_digits(1,2) fs(2) assms(2,3) starts_decimal(2) assms(1)] fs
    by (simp add: format_small_def div_mult_mod_eq)
  from read_groups_step [OF this read_groups_Nil] show ?thesis by simp
qed

lemma read_smalls:
  "read_groups (format_small u 0 ''ns'') = Some u"
  "read_groups (format_small u 3 (micro @ ''s'')) = Some u"
  "read_groups (format_small u 6 ''ms'') = Some u"
  by (intro read_small in_units; simp)+

lemma read_minutes:
  "read_groups s = Some w \<Longrightarrow> starts_group s \<Longrightarrow> read_groups (decimal n @ ''m'' @ s) = Some (n * (60 * 10 ^ 9) + w)"
  using read_groups_step [OF read_whole [OF decimal_digits(1,2) in_units(5) _ _ unit_values(5)]] by simp

lemma read_hours:
  "read_groups s = Some w \<Longrightarrow> starts_group s \<Longrightarrow> read_groups (decimal n @ ''h'' @ s) = Some (n * (3600 * 10 ^ 9) + w)"
  using read_groups_step [OF read_whole [OF decimal_digits(1,2) in_units(6) _ _ unit_values(6)]] by simp

lemma mixed_radix:
  fixes u :: nat
  assumes "u = v * n + f" "v = q * 60 + s" "q = h * 60 + m"
  shows "u = h * (3600 * n) + (m * (60 * n) + (s * n + f))"
  by (simp add: assms algebra_simps)

lemma read_large: "read_groups (format_large u) = Some u"
proof -
  obtain fs where fs: "fmtFrac u 9 ''s'' = ((if fs = [] then [] else ''.'' @ fs) @ ''s'', u div 10 ^ 9)" "all_digits fs"
    "digits_value fs * 10 ^ 9 div 10 ^ length fs = u mod 10 ^ 9"
    by (rule fmtFrac_value)
  define v where "v = u div 10 ^ 9"
  define secs where "secs = decimal (v mod 60) @ fst (fmtFrac u 9 ''s'')"
  have "read_group secs = Some (v mod 60 * 10 ^ 9 + u mod 10 ^ 9, [])"
    using read_group_printed [OF decimal_digits(1,2) fs(2) in_units(4) _ starts_decimal(2) unit_values(4)] fs
    by (simp add: secs_def v_def)
  from read_groups_step [OF this read_groups_Nil] have secs: "read_groups secs = Some (v mod 60 * 10 ^ 9 + u mod 10 ^ 9)"
    by simp
  have u: "u = v div 60 div 60 * (3600 * 10 ^ 9) + (v div 60 mod 60 * (60 * 10 ^ 9) + (v mod 60 * 10 ^ 9 + u mod 10 ^ 9))"
    by (rule mixed_radix [where v = v]) (simp_all add: v_def div_mult_mod_eq)
  have "starts_group secs" by (simp add: secs_def)
  note mins = read_minutes [OF secs this, of "v div 60 mod 60"]
  note hours = read_hours [OF mins starts_decimal(1), of "v div 60 div 60"]
  have "format_large u =
      (if v div 60 = 0 then secs
       else if v div 60 div 60 = 0 then decimal (v div 60 mod 60) @ ''m'' @ secs
       else decimal (v div 60 div 60) @ ''h'' @ decimal (v div 60 mod 60) @ ''m'' @ secs)"
    by (simp add: format_large_def fs(1) secs_def v_def Let_def)
  then show ?thesis using secs mins hours u by auto
qed

text \<open>Every duration is read back from its text.\<close>

lemma Duration_String_read: "read_duration (Duration_String d) = Some d"
proof -
  define u where "u = nat \<bar>d\<bar>"
  define body where "body = (if u = 0 then ''0s'' else if u < 1000 then format_small u 0 ''ns''
     else if u < 1000000 then format_small u 3 (micro @ ''s'') else if u < 1000000000 then format_small u 6 ''ms''
     else format_large u)"
  have "read_groups ''0s'' = Some 0"
    using read_groups_step [OF read_whole [of "''0''" "''s''" "[]" "10 ^ 9"] read_groups_Nil]
    by (simp add: is_digit_def in_unit_def starts_group_def digits_value_def)
  then have read: "read_groups body = Some u"
    by (auto simp: body_def read_smalls read_large)
  have ne: "s @ r \<noteq> [] \<and> hd (s @ r) \<noteq> CHR ''-''" if "all_digits s" "s \<noteq> []" for s r
    using that by (cases s) (auto simp: is_digit_def)
  have body: "body \<noteq> [] \<and> hd body \<noteq> CHR ''-''"
    using ne [OF decimal_digits(1,2)]
    by (auto simp: body_def format_small_def format_large_def Let_def split: prod.split)
  have "Duration_String d = (if d < 0 then ''-'' @ body else body)"
    by (simp add: Duration_String_def Let_def u_def body_def)
  then show ?thesis using read body by (auto simp: read_duration_def u_def)
qed

text \<open>Rounding moves a duration by at most half the unit, when the result is in range.\<close>

lemma Duration_Round_near:
  assumes "0 < m" and "\<bar>d\<bar> + m \<le> max_duration"
  shows "m dvd Duration_Round d m \<and> 2 * \<bar>Duration_Round d m - d\<bar> \<le> m"
proof (cases "d < 0")
  case True
  define r where "r = (- d) mod m"
  have r: "0 \<le> r" "r < m" using assms(1) by (simp_all add: r_def)
  have "d - m + r = - (m * (- d div m + 1))" "d + r = - (m * (- d div m))"
    using div_mult_mod_eq [of "- d" m] unfolding r_def by (simp_all only: distrib_left mult.commute [of m] mult_1_left)
  then have dv: "m dvd d - m + r" "m dvd d + r" by simp_all
  have wrap: "int64 (d - m + r) = d - m + r"
    using True assms(2) r by (intro int64_id; unfold min_duration_def max_duration_def; linarith)
  have "Duration_Round d m = (if r + r < m then d + r else d - m + r)"
    using True assms(1) r by (simp add: Duration_Round_def Let_def r_def [symmetric] wrap)
  then show ?thesis using dv r by auto
next
  case False
  define r where "r = d mod m"
  have r: "0 \<le> r" "r < m" using assms(1) by (simp_all add: r_def)
  have "d + m - r = m * (d div m + 1)" "d - r = m * (d div m)"
    using div_mult_mod_eq [of d m] unfolding r_def by (simp_all only: distrib_left mult.commute [of m] mult_1_left)
  then have dv: "m dvd d + m - r" "m dvd d - r" by simp_all
  have wrap: "int64 (d + m - r) = d + m - r"
    using False assms(2) r by (intro int64_id; unfold min_duration_def max_duration_def; linarith)
  have "Duration_Round d m = (if r + r < m then d - r else d + m - r)"
    using False assms(1) r by (simp add: Duration_Round_def Let_def r_def [symmetric] wrap)
  then show ?thesis using dv r by auto
qed

lemma Duration_Round_zero_le: "0 \<le> d \<Longrightarrow> 0 \<le> Duration_Round d m"
  by (cases "m \<le> 0") (auto simp: Duration_Round_def Let_def max_duration_def zmod_le_nonneg_dividend)

section \<open>Times\<close>

text \<open>
  The calendar of \<^verbatim>\<open>Time.Date\<close> (Gregorian, extended to all years): days are counted from 1 January of year 1.
  400 years have 146097 days; inside them the last century, and inside four years the last year, is a day longer.
\<close>

definition leap :: "int \<Rightarrow> bool" where
  "leap y \<longleftrightarrow> y mod 4 = 0 \<and> (y mod 100 \<noteq> 0 \<or> y mod 400 = 0)"

definition month_lengths :: "bool \<Rightarrow> int list" where
  "month_lengths l = [31, if l then 29 else 28, 31, 30, 31, 30, 31, 31, 30, 31, 30, 31]"

fun find_month :: "int list \<Rightarrow> nat \<Rightarrow> int \<Rightarrow> nat \<times> int" where
  "find_month (len # lens) m d = (if d < len \<or> lens = [] then (m, d) else find_month lens (m + 1) (d - len))"
| "find_month [] m d = (m, d)"

definition year_day :: "int \<Rightarrow> int \<times> int" where
  "year_day n =
     (let a = n div 146097; r = n mod 146097;
          c = min 3 (r div 36524); r = r - c * 36524;
          q = r div 1461; r = r mod 1461;
          y = min 3 (r div 365); r = r - y * 365
      in (400 * a + 100 * c + 4 * q + y + 1, r))"

definition pad :: "nat \<Rightarrow> nat \<Rightarrow> string" where
  "pad w n = replicate (w - length (decimal n)) (CHR ''0'') @ decimal n"

definition pad_int :: "nat \<Rightarrow> int \<Rightarrow> string" where
  "pad_int w i = (if i < 0 then ''-'' @ pad w (nat (- i)) else pad w (nat i))"

text \<open>\<^verbatim>\<open>t.UTC().Format(time.RFC3339)\<close>; fractions of a second are not printed.\<close>

definition Format_RFC3339 :: "time \<Rightarrow> string" where
  "Format_RFC3339 t =
     (let s = t div second; day = s div 86400; s = s mod 86400;
          (y, yd) = year_day day; (m, d) = find_month (month_lengths (leap y)) 1 yd
      in pad_int 4 y @ ''-'' @ pad 2 m @ ''-'' @ pad 2 (nat (d + 1)) @ ''T'' @
         pad 2 (nat (s div 3600)) @ '':'' @ pad 2 (nat (s mod 3600 div 60)) @ '':'' @ pad 2 (nat (s mod 60)) @ ''Z'')"

text \<open>The reader, for years of four digits: the second after 1 January of year 1 that the text names.\<close>

definition days_before :: "int \<Rightarrow> nat \<Rightarrow> nat \<Rightarrow> int" where
  "days_before y m d =
     365 * (y - 1) + (y - 1) div 4 - (y - 1) div 100 + (y - 1) div 400 +
     sum_list (take (m - 1) (month_lengths (leap y))) + int d - 1"

definition field :: "nat \<Rightarrow> nat \<Rightarrow> string \<Rightarrow> nat" where
  "field i n s = digits_value (take n (drop i s))"

definition read_RFC3339 :: "string \<Rightarrow> int" where
  "read_RFC3339 s =
     days_before (int (field 0 4 s)) (field 5 2 s) (field 8 2 s) * 86400 +
     int (field 11 2 s) * 3600 + int (field 14 2 s) * 60 + int (field 17 2 s)"

section \<open>A printed time is read back\<close>

lemma cycle_parts:
  fixes a c q y :: int
  assumes "0 \<le> c" "c \<le> 3" "0 \<le> q" "q \<le> 24" "0 \<le> y" "y \<le> 3"
  shows "(400 * a + 100 * c + 4 * q + y) div 4 = 100 * a + 25 * c + q"
    "(400 * a + 100 * c + 4 * q + y) div 100 = 4 * a + c"
    "(400 * a + 100 * c + 4 * q + y) div 400 = a"
  using assms by linarith+

lemma leap_parts:
  fixes a c q y :: int
  assumes "0 \<le> c" "c \<le> 3" "0 \<le> q" "q \<le> 24" "0 \<le> y" "y \<le> 3"
  shows "leap (400 * a + 100 * c + 4 * q + y + 1) \<longleftrightarrow> y = 3 \<and> (q \<noteq> 24 \<or> c = 3)"
proof -
  let ?x = "400 * a + 100 * c + 4 * q + y + 1"
  have "?x mod 4 = (if y = 3 then 0 else y + 1)"
    using assms int_mod_pos_eq [of ?x 4 "100 * a + 25 * c + q + (if y = 3 then 1 else 0)"] by simp
  moreover have "?x mod 100 = (if q = 24 \<and> y = 3 then 0 else 4 * q + y + 1)"
    using assms int_mod_pos_eq [of ?x 100 "4 * a + c + (if q = 24 \<and> y = 3 then 1 else 0)"] by auto
  moreover have "?x mod 400 = (if c = 3 \<and> q = 24 \<and> y = 3 then 0 else 100 * c + 4 * q + y + 1)"
    using assms int_mod_pos_eq [of ?x 400 "a + (if c = 3 \<and> q = 24 \<and> y = 3 then 1 else 0)"] by auto
  ultimately show ?thesis using assms by (auto simp: leap_def split: if_splits)
qed

text \<open>Four periods of \<open>k\<close> days, the last one a day longer.\<close>

lemma four_periods:
  fixes r k :: int
  assumes "0 \<le> r" "r < 4 * k + 1" "0 < k" and c: "c = min 3 (r div k)"
  shows "0 \<le> c" "c \<le> 3" "0 \<le> r - c * k" "r - c * k < k \<or> c = 3 \<and> r - c * k < k + 1"
proof -
  show "0 \<le> c" "c \<le> 3" using assms by (simp_all add: pos_imp_zdiv_nonneg_iff)
  have "0 \<le> r - c * k \<and> (r - c * k < k \<or> c = 3 \<and> r - c * k < k + 1)"
  proof (cases "r div k \<le> 3")
    case True
    then have "r - c * k = r mod k" by (simp add: c minus_div_mult_eq_mod)
    then show ?thesis using assms(3) by simp
  next
    case False
    then have "3 * k \<le> r" using assms(3) zdiv_mono1 [of r "3 * k" k] by (cases "3 * k \<le> r") auto
    then show ?thesis using False assms(2) by (simp add: c)
  qed
  then show "0 \<le> r - c * k" "r - c * k < k \<or> c = 3 \<and> r - c * k < k + 1" by simp_all
qed

lemma year_day_spec:
  assumes "year_day n = (y, d)"
  shows "n = 365 * (y - 1) + (y - 1) div 4 - (y - 1) div 100 + (y - 1) div 400 + d"
    and "0 \<le> d" and "d < (if leap y then 366 else 365)"
proof -
  define a r c r1 q r2 z where defs: "a = n div 146097" "r = n mod 146097" "c = min 3 (r div 36524)"
    "r1 = r - c * 36524" "q = r1 div 1461" "r2 = r1 mod 1461" "z = min 3 (r2 div 365)"
  have yd: "y = 400 * a + 100 * c + 4 * q + z + 1" "d = r2 - z * 365"
    using assms unfolding year_day_def Let_def defs by (simp_all only: prod.inject)
  have n: "n = 146097 * a + r" by (simp add: defs)
  have r: "0 \<le> r" "r < 146097" by (simp_all add: defs)
  have "r < 4 * 36524 + 1" using r by simp
  note C = four_periods [OF r(1) this _ defs(3), simplified]
  note c = C(1,2)
  have r1: "0 \<le> r1" "r1 < 36524 \<or> c = 3 \<and> r1 < 36525" using C(3,4) defs(4) by simp_all
  have r2: "r1 = 1461 * q + r2" "0 \<le> r2" "r2 < 4 * 365 + 1" by (simp_all add: defs(5,6))
  have q: "0 \<le> q" "q \<le> 24" using r1 r2 by linarith+
  note Z = four_periods [OF r2(2,3) _ defs(7), simplified]
  note z = Z(1,2)
  show "0 \<le> d" using Z(3) yd(2) by simp
  have "d < 365 \<or> z = 3 \<and> d < 366" using Z(4) yd(2) by simp
  moreover have "d < 365" if "q = 24" "c \<noteq> 3" using that r1 r2(1) calculation yd(2) by linarith
  ultimately show "d < (if leap y then 366 else 365)"
    unfolding yd(1) leap_parts [OF c q z] by auto
  have "y - 1 = 400 * a + 100 * c + 4 * q + z" by (simp add: yd)
  then show "n = 365 * (y - 1) + (y - 1) div 4 - (y - 1) div 100 + (y - 1) div 400 + d"
    using n r2(1) defs(4) by (simp add: cycle_parts [OF c q z] yd(2))
qed

lemma find_month_spec:
  "find_month lens m d = (m', k) \<Longrightarrow> lens \<noteq> [] \<Longrightarrow> 0 \<le> d \<Longrightarrow> d < sum_list lens \<Longrightarrow>
     m \<le> m' \<and> m' < m + length lens \<and> d = sum_list (take (m' - m) lens) + k \<and> 0 \<le> k \<and> k < lens ! (m' - m)"
proof (induction lens m d rule: find_month.induct)
  case (1 len lens m d)
  show ?case
  proof (cases "d < len \<or> lens = []")
    case False
    then have "Suc m \<le> m' \<and> m' < Suc m + length lens \<and> d - len = sum_list (take (m' - Suc m) lens) + k \<and>
        0 \<le> k \<and> k < lens ! (m' - Suc m)"
      using 1 by simp
    moreover from this have "m' - m = Suc (m' - Suc m)" by linarith
    ultimately show ?thesis by simp
  qed (use 1 in auto)
qed simp

lemma month_lengths_sum: "sum_list (month_lengths l) = (if l then 366 else 365)"
  by (simp add: month_lengths_def)

lemma month_lengths_le: "m < 12 \<Longrightarrow> month_lengths l ! m \<le> 31"
proof -
  have "\<forall>x\<in>set (month_lengths l). x \<le> 31" "length (month_lengths l) = 12" by (simp_all add: month_lengths_def)
  then show "m < 12 \<Longrightarrow> ?thesis" using nth_mem by metis
qed

lemma length_decimal: "n < 10 ^ Suc w \<Longrightarrow> length (decimal n) \<le> Suc w"
proof (induction w arbitrary: n)
  case (Suc w)
  then show ?case by (subst decimal.simps) (auto simp: less_mult_imp_div_less mult.commute)
qed (simp add: decimal.simps)

lemma pad_digits [simp]:
  "digits_value (pad w n) = n" "0 < w \<Longrightarrow> n < 10 ^ w \<Longrightarrow> length (pad w n) = w"
  using length_decimal [of n "w - 1"] by (auto simp: pad_def)

text \<open>What a text of this layout reads as.\<close>

lemma read_layout:
  assumes "length ys = 4" "length ms = 2" "length ds = 2" "length hs = 2" "length mins = 2" "length ss = 2"
  shows "read_RFC3339 (ys @ ''-'' @ ms @ ''-'' @ ds @ ''T'' @ hs @ '':'' @ mins @ '':'' @ ss @ ''Z'') =
    days_before (int (digits_value ys)) (digits_value ms) (digits_value ds) * 86400 +
    int (digits_value hs) * 3600 + int (digits_value mins) * 60 + int (digits_value ss)"
  using assms by (simp add: read_RFC3339_def field_def)

lemma read_padded:
  assumes "y < 10000" "m < 100" "d < 100" "h < 100" "mi < 100" "sec < 100"
  shows "read_RFC3339 (pad 4 y @ ''-'' @ pad 2 m @ ''-'' @ pad 2 d @ ''T'' @ pad 2 h @ '':'' @ pad 2 mi @ '':'' @ pad 2 sec @ ''Z'') =
    days_before (int y) m d * 86400 + int h * 3600 + int mi * 60 + int sec"
  using assms by (subst read_layout) simp_all

lemma days_before_early:
  fixes z :: int
  assumes "z \<le> - 2"
  shows "365 * z + z div 4 - z div 100 + z div 400 \<le> - 366"
proof -
  define p q r where "p = z div 4" and "q = z div 100" and "r = z div 400"
  have "p \<le> 0" "r \<le> 0" "z - 99 \<le> 100 * q" using assms by (simp_all add: p_def q_def r_def)
  then have "365 * z + p - q + r \<le> - 366" using assms by linarith
  then show ?thesis by (simp only: p_def q_def r_def)
qed

lemma days_before_late:
  fixes z :: int
  assumes "10000 \<le> z"
  shows "3652059 \<le> 365 * z + z div 4 - z div 100 + z div 400"
proof -
  define p q r where "p = z div 4" and "q = z div 100" and "r = z div 400"
  have "z - 3 \<le> 4 * p" "100 * q \<le> z" "0 \<le> r" using assms by (simp_all add: p_def q_def r_def)
  then have "3652059 \<le> 365 * z + p - q + r" using assms by linarith
  then show ?thesis by (simp only: p_def q_def r_def)
qed

lemma year_bounds:
  assumes "year_day n = (y, d)" "0 \<le> n" "n < 3652059"
  shows "1 \<le> y" "y \<le> 9999"
proof -
  note s = year_day_spec [OF assms(1)]
  have "d < 366" using s(3) by (auto split: if_splits)
  show "1 \<le> y"
  proof (rule ccontr)
    assume "\<not> 1 \<le> y"
    then consider "y = 0" | "y - 1 \<le> - 2" by linarith
    then have "365 * (y - 1) + (y - 1) div 4 - (y - 1) div 100 + (y - 1) div 400 \<le> - 366"
    proof cases
      case 2
      then show ?thesis by (rule days_before_early)
    qed simp
    with s(1) assms(2) \<open>d < 366\<close> show False by linarith
  qed
  show "y \<le> 9999"
  proof (rule ccontr)
    assume "\<not> y \<le> 9999"
    then consider "y = 10000" | "10000 \<le> y - 1" by linarith
    then have "3652059 \<le> 365 * (y - 1) + (y - 1) div 4 - (y - 1) div 100 + (y - 1) div 400"
      by cases (simp, rule days_before_late)
    with s(1,2) assms(3) show False by linarith
  qed
qed

lemma seconds_of_day:
  fixes s :: int
  shows "s div 86400 * 86400 + s mod 86400 div 3600 * 3600 + s mod 86400 mod 3600 div 60 * 60 + s mod 86400 mod 60 = s"
proof -
  define r where "r = s mod 86400"
  have "r mod 3600 mod 60 = r mod 60" by (simp add: mod_mod_cancel)
  then have "r mod 3600 div 60 * 60 + r mod 60 = r mod 3600" using div_mult_mod_eq [of "r mod 3600" 60] by simp
  then show ?thesis
    using div_mult_mod_eq [of s 86400] div_mult_mod_eq [of r 3600] by (simp only: r_def [symmetric] add.assoc)
qed

text \<open>The text of a time of the years 1 to 9999 names its second.\<close>

lemma Format_RFC3339_read:
  assumes "0 \<le> t" and "t < 3652059 * 86400 * second"
  shows "read_RFC3339 (Format_RFC3339 t) = t div second"
proof -
  define s where "s = t div second"
  obtain y yd where yd: "year_day (s div 86400) = (y, yd)" by fastforce
  obtain m d where md: "find_month (month_lengths (leap y)) 1 yd = (m, d)" by fastforce
  have s: "0 \<le> s" "s < 3652059 * 86400" using assms by (simp_all add: s_def second_def)
  then have "0 \<le> s div 86400" "s div 86400 < 3652059" by simp_all
  note y = year_bounds [OF yd this] and n = year_day_spec [OF yd]
  have "m \<ge> 1 \<and> m < 13 \<and> yd = sum_list (take (m - 1) (month_lengths (leap y))) + d \<and> 0 \<le> d \<and> d < month_lengths (leap y) ! (m - 1)"
    using find_month_spec [OF md] n(2,3) by (auto simp: month_lengths_sum) (simp_all add: month_lengths_def)
  then have m: "1 \<le> m" "m < 13" "yd = sum_list (take (m - 1) (month_lengths (leap y))) + d" "0 \<le> d" "d < 31"
    using month_lengths_le [of "m - 1" "leap y"] by linarith+
  define h mi sec where "h = s mod 86400 div 3600" and "mi = s mod 86400 mod 3600 div 60" and "sec = s mod 86400 mod 60"
  have bounds: "0 \<le> h" "h < 100" "0 \<le> mi" "mi < 100" "0 \<le> sec" "sec < 100"
    using s by (simp_all add: h_def mi_def sec_def)
  have days: "days_before y m (nat (d + 1)) = s div 86400"
    using n(1) m by (simp add: days_before_def)
  have nats: "nat y < 10000" "m < 100" "nat (d + 1) < 100" "nat h < 100" "nat mi < 100" "nat sec < 100"
    using y m bounds by simp_all
  have fmt: "Format_RFC3339 t = pad 4 (nat y) @ ''-'' @ pad 2 m @ ''-'' @ pad 2 (nat (d + 1)) @ ''T'' @
      pad 2 (nat h) @ '':'' @ pad 2 (nat mi) @ '':'' @ pad 2 (nat sec) @ ''Z''"
    using y by (simp add: Format_RFC3339_def Let_def s_def [symmetric] yd md [simplified] pad_int_def h_def mi_def sec_def)
  have "read_RFC3339 (Format_RFC3339 t) = s div 86400 * 86400 + h * 3600 + mi * 60 + sec"
    unfolding fmt read_padded [OF nats] using y bounds by (simp add: days)
  also have "\<dots> = s" unfolding h_def mi_def sec_def by (rule seconds_of_day)
  finally show ?thesis by (simp add: s_def)
qed

end
