(* ===== verification/Vcd.thy ===== *)
theory Vcd
  imports Calls Scripts Go_Format
begin

text \<open>
  The operations on vCD: \<^verbatim>\<open>src/vcd_create.go\<close> and \<^verbatim>\<open>src/vcd.go\<close>. Each definition is the Go function of
  its name, as a computation over the group's state. Log calls are left out.
\<close>

section \<open>Reading answers\<close>

fun vdc_HREF :: "response \<Rightarrow> string" where
  "vdc_HREF (AVdc href _) = href"
| "vdc_HREF _ = []"

fun DefaultComputePolicy :: "response \<Rightarrow> string option" where
  "DefaultComputePolicy (AVdc _ policy) = policy"
| "DefaultComputePolicy _ = None"

definition blank_task :: TaskInfo where
  "blank_task = \<lparr>task_HREF = [], task_Status = [], task_Error = []\<rparr>"

definition blank_vapp :: VAppObj where
  "blank_vapp = \<lparr>vapp_HREF = [], vapp_Name = [], vapp_Status = 0, vapp_Children = None, vapp_Tasks = None\<rparr>"

definition blank_vm :: VMObj where
  "blank_vm = \<lparr>vm_HREF = [], vm_Name = [], vm_Status = 0, VmSpecSection = None, NetworkConnectionSection = None,
     GuestCustomizationSection = None, vm_Tasks = None\<rparr>"

fun task_of :: "response \<Rightarrow> TaskInfo" where
  "task_of (ATask t) = t"
| "task_of _ = blank_task"

fun vapp_of :: "response \<Rightarrow> VAppObj" where
  "vapp_of (AVApp p) = p"
| "vapp_of _ = blank_vapp"

fun string_of :: "response \<Rightarrow> string" where
  "string_of (AString t) = t"
| "string_of _ = []"

fun found_of :: "response \<Rightarrow> (string \<times> string) list" where
  "found_of (ASearch l) = l"
| "found_of _ = []"

definition nil_dereference :: exn where
  "nil_dereference = Panic ''runtime error: invalid memory address or nil pointer dereference''"

section \<open>Calls on the objects\<close>

text \<open>The wrappers with the object's payload preserved, as the operations use them.\<close>

definition safe_vapp :: "('b, 'u) env \<Rightarrow> goctx \<Rightarrow> string \<Rightarrow> (string \<Rightarrow> request) \<Rightarrow> ('b gstate, response) comp" where
  "safe_vapp env ctx desc method s =
     safeVCDCall env ctx desc (perform_vapp env method) [preserveVApp s] s"

definition single_vapp :: "('b, 'u) env \<Rightarrow> goctx \<Rightarrow> string \<Rightarrow> (string \<Rightarrow> request) \<Rightarrow> ('b gstate, response) comp" where
  "single_vapp env ctx desc method s =
     singleVCDCall env ctx desc (perform_vapp env method) [preserveVApp s] s"

definition safe_vm :: "('b, 'u) env \<Rightarrow> goctx \<Rightarrow> string \<Rightarrow> (string \<Rightarrow> request) \<Rightarrow> ('b gstate, response) comp" where
  "safe_vm env ctx desc method s =
     safeVCDCall env ctx desc (perform_vm env method) [preserveVM s] s"

section \<open>Tasks\<close>

definition task_running :: "string \<Rightarrow> bool" where
  "task_running st \<longleftrightarrow> st \<in> {''queued'', ''preRunning'', ''running''}"

partial_function (option) waitTaskCompletion_loop :: "('b, 'u) env \<Rightarrow> goctx \<Rightarrow> ('b gstate, unit) comp" where
  "waitTaskCompletion_loop env ctx s =
     chk (safeVCDCallVoid env ctx ''Refresh task'' (perform_task env RefreshTask) []) (\<lambda>_.
     chk (get task) (\<lambda>t s.
     if task_Status t = ''success'' then ret () s
     else if task_running (task_Status t) then
       chk (sleepContext env ctx (3 * second)) (\<lambda>_ s. waitTaskCompletion_loop env ctx s) s
     else raise (Fail (errors_New (''task '' @ task_HREF t @ '' ended with status '' @ task_Status t @ '': '' @ task_Error t))) s)) s"

definition waitTaskCompletion :: "('b, 'u) env \<Rightarrow> goctx \<Rightarrow> TaskInfo \<Rightarrow> ('b gstate, unit) comp" where
  "waitTaskCompletion env ctx t =
     chk (modify (\<lambda>s. s\<lparr>task := t\<rparr>)) (\<lambda>_.
     chk (time_Now env) (\<lambda>start.
     waitTaskCompletion_loop env (WithTimeout ctx (60 * minute) start)))"

text \<open>The tasks attached to an object; a nil entry is skipped here, but not in \<^verbatim>\<open>hasRunningTasks\<close>.\<close>

fun waitTasks :: "('b, 'u) env \<Rightarrow> goctx \<Rightarrow> TaskInfo option list \<Rightarrow> ('b gstate, unit) comp" where
  "waitTasks env ctx [] = ret ()"
| "waitTasks env ctx (None # ts) = waitTasks env ctx ts"
| "waitTasks env ctx (Some t # ts) = chk (waitTaskCompletion env ctx t) (\<lambda>_. waitTasks env ctx ts)"

fun hasRunningTasks_loop :: "TaskInfo option list \<Rightarrow> exn + bool" where
  "hasRunningTasks_loop [] = Inr False"
| "hasRunningTasks_loop (None # ts) = Inl nil_dereference"
| "hasRunningTasks_loop (Some t # ts) =
     (if task_Status t \<noteq> ''success'' \<and> task_Status t \<noteq> ''error'' \<and> task_Status t \<noteq> ''aborted'' then Inr True
      else hasRunningTasks_loop ts)"

definition hasRunningTasks :: "TaskInfo option list option \<Rightarrow> exn + bool" where
  "hasRunningTasks tasks = (case tasks of None \<Rightarrow> Inr False | Some ts \<Rightarrow> hasRunningTasks_loop ts)"

definition lift_result :: "exn + 'a \<Rightarrow> ('s, 'a) comp" where
  "lift_result r s = Some (r, s)"

partial_function (option) waitForTasksCompletion :: "('b, 'u) env \<Rightarrow> goctx \<Rightarrow> ('b gstate, unit) comp" where
  "waitForTasksCompletion env ctx s =
     chk (get (\<lambda>s. hasRunningTasks (vapp_Tasks (vapp s)))) (\<lambda>r.
     chk (lift_result r) (\<lambda>running.
     chk (get (\<lambda>s. if running then Inr True else hasRunningTasks (vm_Tasks (vm s)))) (\<lambda>r.
     chk (lift_result r) (\<lambda>running s.
     if \<not> running then ret () s
     else
       chk (sleepContext env ctx (10 * second)) (\<lambda>_.
       chk (safe_vapp env ctx ''Refresh vApp(waitTasks)'' RefreshVApp) (\<lambda>_.
       chk (safe_vm env ctx ''Refresh VM(waitTasks)'' RefreshVM) (\<lambda>_ s.
       waitForTasksCompletion env ctx s))) s)))) s"

section \<open>Creating an empty vApp\<close>

text \<open>\<^verbatim>\<open>strings.TrimRight(path, "/")\<close>; \<^verbatim>\<open>url.ParseRequestURI\<close> gives what comes before the path, and the path.\<close>

definition trim_slashes :: "string \<Rightarrow> string" where
  "trim_slashes p = rev (dropWhile (\<lambda>c. c = CHR ''/'') (rev p))"

definition composeVApp :: "('b, 'u) env \<Rightarrow> string \<Rightarrow> string \<Rightarrow> string \<Rightarrow> ('b gstate, response) comp" where
  "composeVApp env href name description =
     (case ParseRequestURI env href of
        Inl err \<Rightarrow> raise (Fail (Errorf (''invalid VDC HREF: '' @ Error err) [err]))
      | Inr (base, path) \<Rightarrow> perform env (ComposeVApp (base @ trim_slashes path @ ''/action/composeVApp'') name description))"

text \<open>The recovery after an ambiguous failure only looks the vApp up; it never posts again.\<close>

definition createRawVApp_recover ::
    "('b, 'u) env \<Rightarrow> goctx \<Rightarrow> string \<Rightarrow> goerror \<Rightarrow> ('b gstate, VAppObj) comp" where
  "createRawVApp_recover env ctx name createErr =
     (if isPermanentError (Some createErr) \<and> \<not> Contains (ToLower (Error createErr)) ''already exists''
      then raise (Fail createErr)
      else attempt (safeVCDCall env ctx ''GetVAppByName(recover create)'' (perform env (GetVAppByName name)) []) (\<lambda>r.
        case r of
          Inr v \<Rightarrow> ret (vapp_of v)
        | Inl lookupErr \<Rightarrow>
            raise (Fail (Errorf (''create vApp '' @ quoted name @ '': '' @ Error createErr @
              ''; recovery lookup failed: '' @ Error (recovered [] lookupErr)) [createErr]))))"

definition createRawVApp ::
    "('b, 'u) env \<Rightarrow> goctx \<Rightarrow> string \<Rightarrow> string \<Rightarrow> string \<Rightarrow> ('b gstate, unit) comp" where
  "createRawVApp env ctx href name description =
     chk (attempt (singleVCDCall env ctx ''CreateRawVApp'' (composeVApp env href name description) []) (\<lambda>r.
       case r of
         Inr v \<Rightarrow> ret (vapp_of v)
       | Inl (Panic p) \<Rightarrow> raise (Panic p)
       | Inl (Fail createErr) \<Rightarrow> createRawVApp_recover env ctx name createErr)) (\<lambda>p.
     chk (modify (\<lambda>s. s\<lparr>vapp := p\<rparr>)) (\<lambda>_.
     chk (case vapp_Tasks p of None \<Rightarrow> ret () | Some ts \<Rightarrow> waitTasks env ctx ts) (\<lambda>_.
     chk (safe_vapp env ctx ''Refresh vApp(create)'' RefreshVApp) (\<lambda>_.
     chk (get (\<lambda>s. hasVM (VApp.truncate (vapp s)))) (\<lambda>filled.
     if filled then raise (Fail (errors_New (''recovered vApp '' @ quoted name @ '' is not empty'')))
     else ret ())))))"

section \<open>Looking up what a create needs\<close>

definition getVAppTemplate :: "('b, 'u) env \<Rightarrow> goctx \<Rightarrow> ('b gstate, unit) comp" where
  "getVAppTemplate env ctx =
     chk (getVCDClient env) (\<lambda>_.
     chk (safeVCDCall env ctx ''GetOrgByName(template)'' (perform env (GetOrgByName (Org (ig env)))) []) (\<lambda>_.
     chk (safeVCDCall env ctx ''GetCatalogByName'' (perform env (GetCatalogByName (Catalog (ig env)))) []) (\<lambda>_.
     chk (safeVCDCall env ctx ''GetCatalogItemByName'' (perform env (GetCatalogItemByName (Template (ig env)))) []) (\<lambda>_.
     chk (safeVCDCall env ctx ''GetVAppTemplate'' (perform env GetVAppTemplate) []) (\<lambda>r.
     if r \<noteq> ATemplate 8 then raise (Fail (Sentinel errTemplateNotReady ''template not ready (status != 8)''))
     else ret ())))))"

definition getStorageProfile :: "('b, 'u) env \<Rightarrow> goctx \<Rightarrow> ('b gstate, unit) comp" where
  "getStorageProfile env ctx =
     chk (getVCDClient env) (\<lambda>_.
     chk (safeVCDCall env ctx ''GetOrgByName(storage)'' (perform env (GetOrgByName (Org (ig env)))) []) (\<lambda>_.
     chk (safeVCDCall env ctx ''GetVDCByName(storage)'' (perform env (GetVDCByName (VirtualDatacenter (ig env)) False)) []) (\<lambda>_.
     chk (safeVCDCall env ctx ''FindStorageProfileReference''
            (perform env (FindStorageProfileReference (StorageProfile (ig env)))) []) (\<lambda>_.
     ret ()))))"

definition getDefaultComputePolicy :: "('b, 'u) env \<Rightarrow> goctx \<Rightarrow> ('b gstate, unit) comp" where
  "getDefaultComputePolicy env ctx =
     chk (getVCDClient env) (\<lambda>_.
     chk (safeVCDCall env ctx ''GetOrgByName(computePolicy)'' (perform env (GetOrgByName (Org (ig env)))) []) (\<lambda>_.
     chk (safeVCDCall env ctx ''GetVDCByName(computePolicy)''
            (perform env (GetVDCByName (VirtualDatacenter (ig env)) True)) []) (\<lambda>vdc.
     case DefaultComputePolicy vdc of
       None \<Rightarrow> raise (Fail (errors_New ''default compute policy not found''))
     | Some policy \<Rightarrow>
         attempt (safeVCDCall env ctx ''GetVdcComputePolicyById(computePolicy)''
                   (perform env (GetVdcComputePolicyById policy)) []) (\<lambda>r. case r of
           Inl (Fail err) \<Rightarrow> raise (Fail (Errorf (''error getting compute policy: '' @ Error err) [err]))
         | Inl (Panic p) \<Rightarrow> raise (Panic p)
         | Inr _ \<Rightarrow> ret ()))))"

definition IPAllocationModeDHCP :: string where "IPAllocationModeDHCP = ''DHCP''"
definition IPAllocationModePool :: string where "IPAllocationModePool = ''POOL''"

definition getVMNetworkConnectionSection :: "'u InstanceGroup \<Rightarrow> goerror + NetConn list" where
  "getVMNetworkConnectionSection g =
     (case (if IPAllocationMode g = ''DHCP'' then Inr IPAllocationModeDHCP
            else if IPAllocationMode g = ''POOL'' then Inr IPAllocationModePool
            else Inl (errors_New (''invalid IP allocation mode: '' @ IPAllocationMode g))) of
        Inl err \<Rightarrow> Inl err
      | Inr mode \<Rightarrow> Inr [\<lparr>nc_Network = Network g, NetworkConnectionIndex = 0, IPAddressAllocationMode = mode,
                       IsConnected = True, NeedsCustomization = True, nc_IPAddress = []\<rparr>])"

definition getPrimaryIPAddress :: "VMObj \<Rightarrow> goerror + string" where
  "getPrimaryIPAddress v =
     (case NetworkConnectionSection v of
        None \<Rightarrow> Inl (errors_New ''network connection section not found'')
      | Some networks \<Rightarrow>
          (case find (\<lambda>n. IsConnected n \<and> nc_IPAddress n \<noteq> []) networks of
             Some n \<Rightarrow> Inr (nc_IPAddress n)
           | None \<Rightarrow> Inl (errors_New ''no primary IP address found'')))"

definition lift_err :: "goerror + 'a \<Rightarrow> ('s, 'a) comp" where
  "lift_err r = (case r of Inl err \<Rightarrow> raise (Fail err) | Inr v \<Rightarrow> ret v)"

section \<open>Configuring the VM\<close>

partial_function (option) waitPoweredOff :: "('b, 'u) env \<Rightarrow> goctx \<Rightarrow> ('b gstate, unit) comp" where
  "waitPoweredOff env ctx s =
     chk (safe_vm env ctx ''GetStatus(waitCreate)'' GetStatus) (\<lambda>r s.
     if string_of r = ''POWERED_OFF'' then ret () s
     else chk (sleepContext env ctx (5 * second)) (\<lambda>_ s. waitPoweredOff env ctx s) s) s"

partial_function (option) waitNoTasks :: "('b, 'u) env \<Rightarrow> goctx \<Rightarrow> ('b gstate, unit) comp" where
  "waitNoTasks env ctx s =
     chk (safe_vapp env ctx ''Refresh vApp(waitCreate)'' RefreshVApp) (\<lambda>_.
     chk (get (vapp_Tasks \<circ> vapp)) (\<lambda>tasks s.
     if tasks = None then ret () s
     else chk (sleepContext env ctx (5 * second)) (\<lambda>_ s. waitNoTasks env ctx s) s)) s"

definition waitForVMCreation :: "('b, 'u) env \<Rightarrow> goctx \<Rightarrow> ('b gstate, unit) comp" where
  "waitForVMCreation env ctx =
     chk (modify (\<lambda>s. s\<lparr>vm := blank_vm\<lparr>vm_HREF := vm_HREF (firstVM (VApp.truncate (vapp s)))\<rparr>\<rparr>)) (\<lambda>_.
     chk (safe_vm env ctx ''Refresh VM(waitCreate)'' RefreshVM) (\<lambda>_.
     chk (waitPoweredOff env ctx) (\<lambda>_.
     chk (waitNoTasks env ctx) (\<lambda>_.
     chk (sleepContext env ctx (15 * second)) (\<lambda>_.
     chk (get (VmSpecSection \<circ> vm)) (\<lambda>spec.
     if spec = None then raise (Fail (errors_New ''VM spec section not found''))
     else chk (safe_vm env ctx ''Refresh VM(waitCreate final)'' RefreshVM) (\<lambda>_. ret ())))))))"

definition boolPointer :: "bool \<Rightarrow> bool option" where
  [simp]: "boolPointer value = Some value"

definition set_password :: "string \<Rightarrow> GuestCustomization \<Rightarrow> GuestCustomization" where
  "set_password pw c = c\<lparr>Enabled := boolPointer True, AdminPassword := pw, AdminPasswordEnabled := boolPointer True,
     AdminPasswordAuto := boolPointer False, ResetPasswordRequired := boolPointer False\<rparr>"

text \<open>A change of the guest customization section; it panics when the SDK left none.\<close>

definition customize :: "(GuestCustomization \<Rightarrow> GuestCustomization) \<Rightarrow> ('b gstate, unit) comp" where
  "customize f =
     chk (get (GuestCustomizationSection \<circ> vm)) (\<lambda>c.
     case c of
       None \<Rightarrow> raise nil_dereference
     | Some c \<Rightarrow> modify (\<lambda>s. s\<lparr>vm := (vm s)\<lparr>GuestCustomizationSection := Some (f c)\<rparr>\<rparr>))"

definition injectKey :: "('b, 'u) env \<Rightarrow> string \<Rightarrow> ('b gstate, unit) comp" where
  "injectKey env key =
     (case ssh_public_key env key of
        BadKey err \<Rightarrow> raise (Fail (Errorf (''reading private key: '' @ Error err) [err]))
      | NoPublicKey \<Rightarrow> raise (Fail (errors_New (''key doesn'' @ [CHR 0x27] @ ''t export PublicKey()'')))
      | BadPublicKey err \<Rightarrow> raise (Fail (Errorf (''generating ssh public key: '' @ Error err) [err]))
      | AuthorizedKey line \<Rightarrow>
          chk (get (VmSpecSection \<circ> vm)) (\<lambda>spec.
          case spec of
            None \<Rightarrow> raise nil_dereference
          | Some spec \<Rightarrow>
              (case guest_script (Contains (OsType spec) ''windows'') line of
                 None \<Rightarrow> raise (Panic ''template.Must'')
               | Some script \<Rightarrow> customize (\<lambda>c. c\<lparr>Enabled := boolPointer True, CustomizationScript := script\<rparr>))))"

definition injectCredentials :: "('b, 'u) env \<Rightarrow> goctx \<Rightarrow> ('b gstate, unit) comp" where
  "injectCredentials env ctx =
     (let st = settings (ig env) in
      if \<not> UseStaticCredentials st then raise (Fail (errors_New ''dynamic credentials are not supported yet''))
      else
        chk (if Password st \<noteq> [] then customize (set_password (Password st)) else ret ()) (\<lambda>_.
        chk (case Key st of None \<Rightarrow> ret () | Some key \<Rightarrow> injectKey env key) (\<lambda>_.
        chk (get (GuestCustomizationSection \<circ> vm)) (\<lambda>c.
        chk (safe_vm env ctx ''SetGuestCustomizationSection'' (\<lambda>h. SetGuestCustomizationSection h c)) (\<lambda>_. ret ())))))"

text \<open>\<^verbatim>\<open>int64(g.DiskSizeGB) * 1024\<close> wraps at 64 bits.\<close>

definition changeDiskSize :: "('b, 'u) env \<Rightarrow> goctx \<Rightarrow> ('b gstate, unit) comp" where
  "changeDiskSize env ctx =
     chk (get (VmSpecSection \<circ> vm)) (\<lambda>spec.
     case spec of
       None \<Rightarrow> raise nil_dereference
     | Some spec \<Rightarrow>
         (case DiskSection spec of
            None \<Rightarrow> raise (Fail (Sentinel errDiskSectionNotFound ''disk section not found''))
          | Some [] \<Rightarrow> raise (Fail (Sentinel errDiskSectionNotFound ''disk section not found''))
          | Some (mb # rest) \<Rightarrow>
              (let want = int64 (DiskSizeGB (ig env) * 1024); spec' = spec\<lparr>DiskSection := Some (want # rest)\<rparr> in
               if want \<le> mb then ret ()
               else
                 chk (modify (\<lambda>s. s\<lparr>vm := (vm s)\<lparr>VmSpecSection := Some spec'\<rparr>\<rparr>)) (\<lambda>_.
                 chk (safe_vm env ctx ''UpdateVmSpecSection(disk)'' (\<lambda>h. UpdateVmSpecSection h spec')) (\<lambda>_.
                 chk (safe_vm env ctx ''Refresh VM(disk)'' RefreshVM) (\<lambda>_. ret ()))))))"

definition renameVM :: "('b, 'u) env \<Rightarrow> string \<Rightarrow> ('b gstate, unit) comp" where
  "renameVM env name =
     chk (customize (\<lambda>c. c\<lparr>ComputerName := name\<rparr>)) (\<lambda>_.
     chk (get (GuestCustomizationSection \<circ> vm)) (\<lambda>c.
     chk (safe_vm env Background ''SetGuestCustomizationSection(rename)'' (\<lambda>h. SetGuestCustomizationSection h c)) (\<lambda>_.
     chk (get (vm_HREF \<circ> vm)) (\<lambda>href.
     chk (safeVCDCall env Background ''ExecuteTaskRequest(rename)''
            (case ParseRequestURI env (href @ ''/action/reconfigureVm'') of
               Inl err \<Rightarrow> raise nil_dereference
             | Inr (base, path) \<Rightarrow> perform env (ReconfigureVM (base @ path) name)) []) (\<lambda>r.
     chk (waitTaskCompletion env Background (task_of r)) (\<lambda>_.
     chk (safe_vm env Background ''Refresh VM(rename)'' RefreshVM) (\<lambda>_.
     ret ())))))))"

definition vmRequiresTPM :: "VMObj \<Rightarrow> exn + bool" where
  "vmRequiresTPM v =
     (case VmSpecSection v of
        None \<Rightarrow> Inl nil_dereference
      | Some spec \<Rightarrow> Inr (Contains (ToLower (OsType spec)) ''windows11''))"

definition changeVMTpm :: "('b, 'u) env \<Rightarrow> goctx \<Rightarrow> bool \<Rightarrow> ('b gstate, TaskInfo) comp" where
  "changeVMTpm env ctx tpmPresent =
     chk (get (vm_HREF \<circ> vm)) (\<lambda>href.
     attempt (safeVCDCall env ctx ''ExecuteTaskRequest(TPM)''
               (perform env (EditTrustedPlatformModule (href @ ''/action/editTrustedPlatformModule'') tpmPresent)) []) (\<lambda>r.
     case r of
       Inl (Panic p) \<Rightarrow> raise (Panic p)
     | Inl (Fail err) \<Rightarrow> raise (Fail (Sentinel errCouldNotExecuteTaskRequest ''could not execute task request''))
     | Inr v \<Rightarrow> ret (task_of v)))"

section \<open>SSH readiness\<close>

definition sshReadinessTimeout :: duration where "sshReadinessTimeout = 5 * minute"
definition sshReadinessRetryInterval :: duration where "sshReadinessRetryInterval = 5 * second"

definition ssh_addr :: "'u InstanceGroup \<Rightarrow> string \<Rightarrow> string" where
  "ssh_addr g ip = (let port = (if ProtocolPort (settings g) = 0 then 22 else ProtocolPort (settings g))
                    in ip @ '':'' @ (if port < 0 then ''-'' @ decimal (nat (- port)) else decimal (nat port)))"

definition ssh_username :: "'u InstanceGroup \<Rightarrow> string" where
  "ssh_username g = (if Contains (ToLower (OS (settings g))) ''windows'' then ''Administrator'' else ''root'')"

partial_function (option) waitForSSHReadiness_loop ::
    "('b, 'u) env \<Rightarrow> goctx \<Rightarrow> string \<Rightarrow> string \<Rightarrow> ('b gstate, unit) comp" where
  "waitForSSHReadiness_loop env ctx addr username s =
     attempt (chk (perform env (DialContext addr)) (\<lambda>_. perform env (NewClientConn addr username))) (\<lambda>r.
     case r of
       Inr _ \<Rightarrow> ret ()
     | Inl (Panic p) \<Rightarrow> raise (Panic p)
     | Inl (Fail lastErr) \<Rightarrow>
         attempt (sleepContext env ctx sshReadinessRetryInterval) (\<lambda>r.
         case r of
           Inr _ \<Rightarrow> (\<lambda>s. waitForSSHReadiness_loop env ctx addr username s)
         | Inl waitErr \<Rightarrow>
             raise (Fail (Errorf (''SSH readiness check for '' @ addr @ '': '' @ Error (recovered [] waitErr) @
               '' (last error: '' @ Error lastErr @ '')'') [recovered [] waitErr])))) s"

definition waitForSSHReadiness :: "('b, 'u) env \<Rightarrow> goctx \<Rightarrow> string \<Rightarrow> ('b gstate, unit) comp" where
  "waitForSSHReadiness env ctx ipAddress =
     (let st = settings (ig env) in
      case (case Key st of None \<Rightarrow> None | Some key \<Rightarrow> ssh_ParsePrivateKey env key) of
        Some err \<Rightarrow> raise (Fail (Errorf (''failed to parse SSH key for readiness check: '' @ Error err) [err]))
      | None \<Rightarrow>
          if Password st = [] \<and> Key st = None then ret ()
          else
            chk (time_Now env) (\<lambda>t.
            waitForSSHReadiness_loop env (WithTimeout ctx sshReadinessTimeout t) (ssh_addr (ig env) ipAddress)
              (ssh_username (ig env))))"

section \<open>Creating an instance\<close>

definition instanceGroupMetadataKey :: string where
  "instanceGroupMetadataKey = ''vcd-instance-group''"

text \<open>What is looked up before a name is chosen: the HREF of the virtual data center.\<close>

definition create_prepare :: "('b, 'u) env \<Rightarrow> goctx \<Rightarrow> ('b gstate, string) comp" where
  "create_prepare env ctx =
     chk (getVCDClient env) (\<lambda>_.
     chk (safeVCDCall env ctx ''GetOrgByName'' (perform env (GetOrgByName (Org (ig env)))) []) (\<lambda>_.
     chk (safeVCDCall env ctx ''GetVDCByName'' (perform env (GetVDCByName (VirtualDatacenter (ig env)) True)) []) (\<lambda>vdc.
     chk (getVAppTemplate env ctx) (\<lambda>_.
     chk (safeVCDCall env ctx ''GetOrgVdcNetworkByName'' (perform env (GetOrgVdcNetworkByName (Network (ig env)))) []) (\<lambda>_.
     chk (getStorageProfile env ctx) (\<lambda>_.
     ret (vdc_HREF vdc)))))))"

definition create_name :: "('b, 'u) env \<Rightarrow> ('b gstate, string) comp" where
  "create_name env s =
     (case generateVMName (randomness env (history s)) (VAppNamePrefix (ig env)) of
        None \<Rightarrow> None
      | Some (Inl err) \<Rightarrow> Some (Inl (Fail err), log_event ReadRandom s)
      | Some (Inr name) \<Rightarrow> Some (Inr name, log_event ReadRandom s))"

text \<open>The vApp: empty, tagged with the group, with its network.\<close>

definition create_vapp :: "('b, 'u) env \<Rightarrow> goctx \<Rightarrow> string \<Rightarrow> string \<Rightarrow> ('b gstate, unit) comp" where
  "create_vapp env ctx href name =
     chk (createRawVApp env ctx href name (''VM created by the '' @ ig_Name (ig env) @ '' GitLab Fleeting runner'')) (\<lambda>_.
     chk (safe_vapp env ctx ''AddMetadataEntryWithVisibility''
            (\<lambda>h. AddMetadataEntryWithVisibility h instanceGroupMetadataKey (InstanceGroupName (ig env)))) (\<lambda>_.
     chk (single_vapp env ctx ''AddRAWNetworkConfig'' (\<lambda>h. AddRAWNetworkConfig h (Network (ig env)))) (\<lambda>r.
     waitTaskCompletion env ctx (task_of r))))"

text \<open>The VM: added from the template, and the vApp read again; there must be exactly one.\<close>

definition create_vm :: "('b, 'u) env \<Rightarrow> goctx \<Rightarrow> string \<Rightarrow> ('b gstate, unit) comp" where
  "create_vm env ctx name =
     chk (lift_err (getVMNetworkConnectionSection (ig env))) (\<lambda>netSection.
     attempt (getDefaultComputePolicy env ctx) (\<lambda>r. case r of
       Inl (Panic p) \<Rightarrow> raise (Panic p)
     | _ \<Rightarrow>
     chk (single_vapp env ctx ''AddNewVMWithStorageProfile'' (\<lambda>h. AddNewVMWithComputePolicy h name netSection (\<not> isl r))) (\<lambda>t.
     chk (waitTaskCompletion env ctx (task_of t)) (\<lambda>_.
     chk (safe_vapp env ctx ''Refresh vApp after AddVM'' RefreshVApp) (\<lambda>_.
     chk (get (vapp_Children \<circ> vapp)) (\<lambda>children.
     if (case children of None \<Rightarrow> True | Some vms \<Rightarrow> length vms \<noteq> 1)
     then raise (Fail (Sentinel errUnexpectedNumberOfVMs ''unexpected number of VMs in template''))
     else ret ()))))))"

definition create_configure :: "('b, 'u) env \<Rightarrow> goctx \<Rightarrow> ('b gstate, unit) comp" where
  "create_configure env ctx =
     chk (waitForVMCreation env ctx) (\<lambda>_.
     chk (injectCredentials env ctx) (\<lambda>_.
     chk (get (vmRequiresTPM \<circ> vm)) (\<lambda>r.
     chk (lift_result r) (\<lambda>tpm.
     chk (if tpm then chk (changeVMTpm env ctx True) (waitTaskCompletion env ctx) else ret ()) (\<lambda>_.
     chk (safe_vm env ctx ''Refresh VM'' RefreshVM) (\<lambda>_.
     chk (safe_vm env ctx ''ChangeCPUAndCoreCount''
            (\<lambda>h. ChangeCPUAndCoreCount h (CPUCount (ig env)) (CoresPerSocket (ig env)))) (\<lambda>_.
     chk (safe_vm env ctx ''ChangeMemory'' (\<lambda>h. ChangeMemory h (MemoryMB (ig env)))) (\<lambda>_.
     chk (changeDiskSize env ctx) (\<lambda>_.
     chk (safe_vm env ctx ''Refresh VM after disk'' RefreshVM) (\<lambda>_.
     ret ()))))))))))"

text \<open>The VM must report that it is on and answer an SSH handshake.\<close>

definition create_verify :: "('b, 'u) env \<Rightarrow> goctx \<Rightarrow> string \<Rightarrow> ('b gstate, string) comp" where
  "create_verify env ctx ipAddress =
     attempt (safe_vm env ctx ''GetStatus'' GetStatus) (\<lambda>r.
     chk (get (vm_Name \<circ> vm)) (\<lambda>name.
     case r of
       Inl (Panic p) \<Rightarrow> raise (Panic p)
     | Inl (Fail err) \<Rightarrow> raise (Fail (errors_New (''vm '' @ name @ '' is not powered on: status= err='' @ Error err)))
     | Inr v \<Rightarrow>
         if string_of v \<noteq> ''POWERED_ON''
         then raise (Fail (errors_New (''vm '' @ name @ '' is not powered on: status='' @ string_of v @ '' err=<nil>'')))
         else
           attempt (waitForSSHReadiness env ctx ipAddress) (\<lambda>r. case r of
             Inl (Fail err) \<Rightarrow> raise (Fail (Errorf (''VM powered on but not reachable via SSH: '' @ Error err) [err]))
           | Inl (Panic p) \<Rightarrow> raise (Panic p)
           | Inr _ \<Rightarrow> ret ipAddress)))"

text \<open>Power on, and wait until the VM answers; the result is its address.\<close>

definition create_start :: "('b, 'u) env \<Rightarrow> goctx \<Rightarrow> ('b gstate, string) comp" where
  "create_start env ctx =
     chk (get (getPrimaryIPAddress \<circ> vm)) (\<lambda>r.
     chk (lift_err r) (\<lambda>ipAddress.
     chk (safe_vm env ctx ''PowerOn'' PowerOn) (\<lambda>t.
     chk (waitTaskCompletion env ctx (task_of t)) (\<lambda>_.
     create_verify env ctx ipAddress))))"

definition os_of :: "VMObj \<Rightarrow> string" where
  "os_of v = (case VmSpecSection v of None \<Rightarrow> [] | Some spec \<Rightarrow> OsType spec)"

definition create_named :: "('b, 'u) env \<Rightarrow> goctx \<Rightarrow> string \<Rightarrow> string \<Rightarrow> ('b gstate, createResult) comp" where
  "create_named env ctx href name =
     chk (create_vapp env ctx href name) (\<lambda>_.
     chk (create_vm env ctx name) (\<lambda>_.
     chk (create_configure env ctx) (\<lambda>_.
     chk (create_start env ctx) (\<lambda>ipAddress.
     get (\<lambda>s. \<lparr>VAppHREF = vapp_HREF (vapp s), VAppName = vapp_Name (vapp s), res_VMName = vm_Name (vm s),
               res_IPAddress = ipAddress, res_OSType = os_of (vm s)\<rparr>)))))"

text \<open>The deferred function of \<^verbatim>\<open>createInstance\<close>: a create that failed after it chose its name hands the name over.\<close>

definition LoadOrStore :: "string \<Rightarrow> 'v \<Rightarrow> 'v gomap \<Rightarrow> 'v gomap" where
  "LoadOrStore k v m = (case map_of m k of Some _ \<Rightarrow> m | None \<Rightarrow> AList.update k v m)"

definition create_handover :: "('b, 'u) env \<Rightarrow> string \<Rightarrow> exn \<Rightarrow> ('b gstate, 'a) comp" where
  "create_handover env name e =
     chk (time_Now env) (\<lambda>t.
     chk (modify (\<lambda>s. s\<lparr>cleanups := LoadOrStore name t (cleanups s)\<rparr>)) (\<lambda>_.
     chk (modify (\<lambda>s. s\<lparr>inflight := removeAll name (inflight s)\<rparr>)) (\<lambda>_.
     raise (Fail (recovered ''createInstance'' e)))))"

definition createInstance :: "('b, 'u) env \<Rightarrow> goctx \<Rightarrow> ('b gstate, createResult) comp" where
  "createInstance env ctx =
     attempt (chk (create_prepare env ctx) (\<lambda>href. chk (create_name env) (\<lambda>name. ret (href, name)))) (\<lambda>r.
     case r of
       Inl e \<Rightarrow> raise (Fail (recovered ''createInstance'' e))
     | Inr (href, name) \<Rightarrow>
         chk (modify (\<lambda>s. s\<lparr>inflight := name # inflight s\<rparr>)) (\<lambda>_.
         attempt (create_named env ctx href name) (\<lambda>r.
         case r of Inr result \<Rightarrow> ret result | Inl e \<Rightarrow> create_handover env name e)))"

section \<open>Listing the group\<close>

fun readListedVApps ::
    "(string \<Rightarrow> ('s, VAppObj) comp) \<Rightarrow> (string \<times> string) list \<Rightarrow> ('s, VAppObj list \<times> string list) comp" where
  "readListedVApps read [] = ret ([], [])"
| "readListedVApps read ((href, name) # rest) =
     attempt (read href) (\<lambda>r. case r of
       Inr v \<Rightarrow> chk (readListedVApps read rest) (\<lambda>(vApps, unread). ret (v # vApps, unread))
     | Inl (Panic p) \<Rightarrow> raise (Panic p)
     | Inl (Fail err) \<Rightarrow>
         if isEntityNotFoundError (Some err) then readListedVApps read rest
         else ret ([], map fst ((href, name) # rest)))"

text \<open>A read for the poll, with its own deadline.\<close>

definition poll_read ::
    "('b, 'u) env \<Rightarrow> goctx \<Rightarrow> string \<Rightarrow> ('b gstate, response) comp \<Rightarrow> ('b gstate, response) comp" where
  "poll_read env ctx desc fn =
     chk (time_Now env) (\<lambda>t. safeVCDCall env (WithTimeout ctx pollReadTimeout t) desc fn [])"

definition read_vapp :: "('b, 'u) env \<Rightarrow> goctx \<Rightarrow> string \<Rightarrow> ('b gstate, VAppObj) comp" where
  "read_vapp env ctx href =
     chk (poll_read env ctx ''GetVAppByHref(poll)'' (notFoundIsPermanent (perform env (GetVAppByHref href)))) (\<lambda>r.
     ret (vapp_of r))"

definition list_group :: "('b, 'u) env \<Rightarrow> goctx \<Rightarrow> ('b gstate, VAppObj list \<times> string list) comp" where
  "list_group env ctx =
     chk (getVCDClient env) (\<lambda>_.
     chk (poll_read env ctx ''GetOrgByName(poll)'' (perform env (GetOrgByName (Org (ig env))))) (\<lambda>_.
     chk (poll_read env ctx ''GetVDCByName(poll)'' (perform env (GetVDCByName (VirtualDatacenter (ig env)) True))) (\<lambda>_.
     chk (poll_read env ctx ''SearchByFilter''
            (perform env (SearchByFilter (''^'' @ VAppNamePrefix (ig env)) instanceGroupMetadataKey (InstanceGroupName (ig env))))) (\<lambda>sr.
     readListedVApps (read_vapp env ctx) (found_of sr)))))"

definition getInstancesInInstanceGroup ::
    "('b, 'u) env \<Rightarrow> goctx \<Rightarrow> ('b gstate, VAppObj list \<times> string list) comp" where
  "getInstancesInInstanceGroup env ctx =
     attempt (list_group env ctx) (\<lambda>r. case r of
       Inl (Panic p) \<Rightarrow> raise (Fail (errors_New (''panic listing instance group vApps: '' @ p)))
     | Inl (Fail err) \<Rightarrow> raise (Fail err)
     | Inr l \<Rightarrow> ret l)"

definition refresh_polled :: "('b, 'u) env \<Rightarrow> string \<Rightarrow> ('b gstate, response) comp" where
  "refresh_polled env vmHREF =
     chk (modify (\<lambda>s. s\<lparr>vm := blank_vm\<lparr>vm_HREF := vmHREF\<rparr>\<rparr>)) (\<lambda>_.
     chk (notFoundIsPermanent (perform_vm env RefreshVM)) (\<lambda>_.
     get (\<lambda>s. APoll (case getPrimaryIPAddress (vm s) of Inl _ \<Rightarrow> [] | Inr ip \<Rightarrow> ip) (os_of (vm s)))))"

fun poll_of :: "response \<Rightarrow> vmPollResult" where
  "poll_of (APoll ip os) = \<lparr>poll_IP = ip, poll_OSType = os\<rparr>"
| "poll_of _ = \<lparr>poll_IP = [], poll_OSType = []\<rparr>"

definition pollVM :: "('b, 'u) env \<Rightarrow> goctx \<Rightarrow> string \<Rightarrow> ('b gstate, vmPollResult) comp" where
  "pollVM env ctx vmHREF =
     chk (getVCDClient env) (\<lambda>_.
     chk (safeVCDCall env ctx ''refresh VM for poll'' (refresh_polled env vmHREF) []) (\<lambda>r. ret (poll_of r)))"

section \<open>Deleting\<close>

definition deleteInstanceTimeout :: duration where "deleteInstanceTimeout = 60 * minute"
definition refreshBackoffMaxInterval :: duration where "refreshBackoffMaxInterval = minute"
definition refreshBackoffMaxElapsedTime :: duration where "refreshBackoffMaxElapsedTime = 20 * minute"

definition refreshVappOp :: "('b, 'u) env \<Rightarrow> string \<Rightarrow> ('b gstate, unit) comp" where
  "refreshVappOp env href =
     chk (modify (\<lambda>s. s\<lparr>vapp := blank_vapp\<lparr>vapp_HREF := href\<rparr>\<rparr>)) (\<lambda>_.
     attempt (safe_vapp env Background ''Refresh vApp(delete)'' RefreshVApp) (\<lambda>r. case r of
       Inr _ \<Rightarrow> ret ()
     | Inl (Panic p) \<Rightarrow> raise (Panic p)
     | Inl (Fail err) \<Rightarrow> if isEntityNotFoundError (Some err) then ret () else raise (Fail err)))"

text \<open>Start the deletion of the vApp and wait for it.\<close>

definition delete_vapp :: "('b, 'u) env \<Rightarrow> string \<Rightarrow> ('b gstate, unit) comp" where
  "delete_vapp env desc =
     chk (safe_vapp env Background desc DeleteVApp) (\<lambda>r. waitTaskCompletion env Background (task_of r))"

text \<open>Power off and undeploy: a refusal is taken to mean that it is already off.\<close>

definition stop_vapp :: "('b, 'u) env \<Rightarrow> string \<Rightarrow> (string \<Rightarrow> request) \<Rightarrow> ('b gstate, unit) comp" where
  "stop_vapp env desc method =
     attempt (safe_vapp env Background desc method) (\<lambda>r. case r of
       Inr t \<Rightarrow> waitTaskCompletion env Background (task_of t)
     | Inl (Panic p) \<Rightarrow> raise (Panic p)
     | Inl (Fail err) \<Rightarrow> ret ())"

definition delete_vapp_with_vm :: "('b, 'u) env \<Rightarrow> string \<Rightarrow> ('b gstate, unit) comp" where
  "delete_vapp_with_vm env vmHREF =
     chk (modify (\<lambda>s. s\<lparr>vm := blank_vm\<lparr>vm_HREF := vmHREF\<rparr>\<rparr>)) (\<lambda>_.
     attempt (safe_vm env Background ''Refresh VM for delete'' RefreshVM) (\<lambda>r. case r of
       Inl (Panic p) \<Rightarrow> raise (Panic p)
     | Inl (Fail err) \<Rightarrow> delete_vapp env ''Delete(fallback)''
     | Inr _ \<Rightarrow>
         chk (time_Now env) (\<lambda>t.
         chk (waitForTasksCompletion env (WithTimeout Background deleteInstanceTimeout t)) (\<lambda>_.
         chk (stop_vapp env ''PowerOff'' PowerOff) (\<lambda>_.
         chk (stop_vapp env ''Undeploy'' Undeploy) (\<lambda>_.
         delete_vapp env ''Delete''))))))"

definition deleteInstance :: "('b, 'u) env \<Rightarrow> string \<Rightarrow> ('b gstate, unit) comp" where
  "deleteInstance env href =
     chk (getVCDClient env) (\<lambda>_.
     chk (Retry env [WithMaxElapsedTime refreshBackoffMaxElapsedTime, WithMaxInterval refreshBackoffMaxInterval]
            (refreshVappOp env href)) (\<lambda>_.
     chk (get vapp) (\<lambda>p.
     if vapp_Name p = [] then ret ()
     else
       (case vapp_Children p of
          None \<Rightarrow> delete_vapp env ''Delete(emptyVApp)''
        | Some [] \<Rightarrow> delete_vapp env ''Delete(emptyVApp)''
        | Some [v] \<Rightarrow> delete_vapp_with_vm env (vm_HREF v)
        | Some _ \<Rightarrow> raise (Fail (Sentinel errUnexpectedNumberOfVMs ''unexpected number of VMs in template''))))))"

definition lookup_for_cleanup :: "('b, 'u) env \<Rightarrow> string \<Rightarrow> ('b gstate, response) comp" where
  "lookup_for_cleanup env name =
     attempt (perform env (GetVAppByName name)) (\<lambda>r. case r of
       Inr v \<Rightarrow> ret v
     | Inl (Panic p) \<Rightarrow> raise (Panic p)
     | Inl (Fail err) \<Rightarrow>
         if errors_Is err ErrorEntityNotFound then raise (Fail (PermanentError err)) else raise (Fail err))"

definition cleanUpInstanceByName :: "('b, 'u) env \<Rightarrow> string \<Rightarrow> ('b gstate, unit) comp" where
  "cleanUpInstanceByName env name =
     chk (getVCDClient env) (\<lambda>_.
     chk (safeVCDCall env Background ''GetOrgByName(cleanup)'' (perform env (GetOrgByName (Org (ig env)))) []) (\<lambda>_.
     chk (safeVCDCall env Background ''GetVDCByName(cleanup)''
            (perform env (GetVDCByName (VirtualDatacenter (ig env)) True)) []) (\<lambda>_.
     chk (safeVCDCall env Background ''GetVAppByName(cleanup)'' (lookup_for_cleanup env name) []) (\<lambda>r.
     deleteInstance env (vapp_HREF (vapp_of r))))))"

definition getVMFromVAppHREF :: "('b, 'u) env \<Rightarrow> string \<Rightarrow> ('b gstate, VMObj) comp" where
  "getVMFromVAppHREF env href =
     chk (getVCDClient env) (\<lambda>_.
     chk (modify (\<lambda>s. s\<lparr>vapp := blank_vapp\<lparr>vapp_HREF := href\<rparr>\<rparr>)) (\<lambda>_.
     chk (safe_vapp env Background ''Refresh vApp(getVM)'' RefreshVApp) (\<lambda>_.
     chk (get (vapp_Children \<circ> vapp)) (\<lambda>children.
     case children of
       None \<Rightarrow> raise (Fail (errors_New (''vApp '' @ href @ '' has no VMs (creation may still be in progress)'')))
     | Some [] \<Rightarrow> raise (Fail (errors_New (''vApp '' @ href @ '' has no VMs (creation may still be in progress)'')))
     | Some [v] \<Rightarrow>
         chk (modify (\<lambda>s. s\<lparr>vm := blank_vm\<lparr>vm_HREF := vm_HREF v\<rparr>\<rparr>)) (\<lambda>_.
         chk (safe_vm env Background ''Refresh VM(getVM)'' RefreshVM) (\<lambda>_.
         get vm))
     | Some _ \<Rightarrow> raise (Fail (Sentinel errUnexpectedNumberOfVMs ''unexpected number of VMs in template''))))))"

end
