(* ===== verification/Call_Logic.thy ===== *)
theory Call_Logic
  imports Vcd
begin

text \<open>
  Reasoning about computations. A relation between the states before and after that every elementary
  action obeys is respected by every operation on vCD; the locale \<open>call_frame\<close> proves that once, and
  its interpretations instantiate the relation. What the plugin relies on of the retry library is the
  hypothesis \<open>retry_documented\<close>.
\<close>

section \<open>The retry library\<close>

text \<open>The first \<^verbatim>\<open>*PermanentError\<close> in the tree of wrapped errors, as \<^verbatim>\<open>errors.As\<close> finds it.\<close>

fun find_permanent :: "goerror \<Rightarrow> goerror option" where
  "find_permanent (Sentinel _ _) = None"
| "find_permanent (PermanentError e) = Some e"
| "find_permanent (Errorf _ es) = foldr (\<lambda>e found. case find_permanent e of Some p \<Rightarrow> Some p | None \<Rightarrow> found) es None"

definition context_error :: "goerror \<Rightarrow> bool" where
  "context_error e \<longleftrightarrow> e = Sentinel ContextCanceled ''context canceled'' \<or>
     e = Sentinel ContextDeadlineExceeded ''context deadline exceeded''"

definition reported :: "goerror \<Rightarrow> goerror \<Rightarrow> bool" where
  "reported e e' \<longleftrightarrow> (case find_permanent e of Some p \<Rightarrow> e' = p | None \<Rightarrow> e' = e \<or> context_error e')"

text \<open>Between two runs the library only sleeps and looks at the context.\<close>

definition idle_event :: "event \<Rightarrow> bool" where
  "idle_event e = (case e of Sleep _ \<Rightarrow> True | AskContext _ \<Rightarrow> True | _ \<Rightarrow> False)"

definition idle :: "'b gstate \<Rightarrow> 'b gstate \<Rightarrow> bool" where
  "idle s t \<longleftrightarrow> (\<exists>es. list_all idle_event es \<and> t = s\<lparr>history := es @ history s\<rparr>)"

text \<open>
  From the documentation of \<^verbatim>\<open>backoff.Retry\<close>: the operation runs at least once and again after an error,
  unless the error is permanent, the policy stops or the context ends; a permanent error is unwrapped,
  else the last error or the context's is returned.
\<close>

inductive retries :: "('b gstate, 'a) comp \<Rightarrow> 'b gstate \<Rightarrow> exn + 'a \<Rightarrow> 'b gstate \<Rightarrow> bool"
  for op :: "('b gstate, 'a) comp" where
  returns: "op s = Some (Inr v, t) \<Longrightarrow> retries op s (Inr v) t"
| panics: "op s = Some (Inl (Panic p), t) \<Longrightarrow> retries op s (Inl (Panic p)) t"
| gives_up: "op s = Some (Inl (Fail e), t) \<Longrightarrow> reported e e' \<Longrightarrow> idle t u \<Longrightarrow> retries op s (Inl (Fail e')) u"
| again: "op s = Some (Inl (Fail e), t) \<Longrightarrow> find_permanent e = None \<Longrightarrow> idle t u \<Longrightarrow> retries op u r w \<Longrightarrow>
     retries op s r w"

definition retry_documented :: "('b, 'u) env \<Rightarrow> bool" where
  "retry_documented env \<longleftrightarrow>
     (\<forall>opts ctx op s r t. RetryWithData env opts ctx op s = Some (r, t) \<longrightarrow> retries op s r t) \<and>
     (\<forall>opts op s r t. Retry env opts op s = Some (r, t) \<longrightarrow> retries op s r t)"

section \<open>Relations that computations respect\<close>

named_theorems obeys_intros "an operation obeys a relation between the states before and after"

definition obeys :: "('s \<Rightarrow> 's \<Rightarrow> bool) \<Rightarrow> ('s, 'a) comp \<Rightarrow> bool" where
  "obeys R m \<longleftrightarrow> (\<forall>s r t. m s = Some (r, t) \<longrightarrow> R s t)"

lemma obeysD: "obeys R m \<Longrightarrow> m s = Some (r, t) \<Longrightarrow> R s t"
  by (auto simp: obeys_def)

lemma obeysD': "obeys R m \<Longrightarrow> m s = Some y \<Longrightarrow> R s (snd y)"
  by (cases y) (auto simp: obeys_def)

lemma obeysI: "(\<And>s y. m s = Some y \<Longrightarrow> R s (snd y)) \<Longrightarrow> obeys R m"
  by (fastforce simp: obeys_def)

lemma obeys_split [obeys_intros]:
  "(b \<Longrightarrow> obeys R m) \<Longrightarrow> (\<not> b \<Longrightarrow> obeys R k) \<Longrightarrow> obeys R (if b then m else k)"
  "(\<And>v. obeys R (f v)) \<Longrightarrow> (\<And>v. obeys R (g v)) \<Longrightarrow> obeys R (case x of Inl v \<Rightarrow> f v | Inr v \<Rightarrow> g v)"
  "obeys R m \<Longrightarrow> (\<And>v. obeys R (h v)) \<Longrightarrow> obeys R (case y of None \<Rightarrow> m | Some v \<Rightarrow> h v)"
  "(\<And>v w. obeys R (p v w)) \<Longrightarrow> obeys R (case z of (v, w) \<Rightarrow> p v w)"
  "(\<And>v. obeys R (q v)) \<Longrightarrow> (\<And>v. obeys R (q' v)) \<Longrightarrow> obeys R (case e of Fail v \<Rightarrow> q v | Panic v \<Rightarrow> q' v)"
  "obeys R m' \<Longrightarrow> (\<And>v w. obeys R (l v w)) \<Longrightarrow> obeys R (case xs of [] \<Rightarrow> m' | v # w \<Rightarrow> l v w)"
  by (simp_all split: sum.split option.split prod.split exn.split list.split)

lemma obeys_if [obeys_intros]:
  "(b \<Longrightarrow> obeys R m) \<Longrightarrow> (\<not> b \<Longrightarrow> obeys R k) \<Longrightarrow> obeys R (\<lambda>s. if b then m s else k s)"
  by (cases b) simp_all

lemma obeys_chkD: "obeys R (chk m k) \<Longrightarrow> chk m k s = Some y \<Longrightarrow> R s (snd y)"
  by (rule obeysD')

lemma obeys_attemptD: "obeys R (attempt m k) \<Longrightarrow> attempt m k s = Some y \<Longrightarrow> R s (snd y)"
  by (rule obeysD')

text \<open>The requests that must never be replayed: those the plugin sends through \<^verbatim>\<open>singleVCDCall\<close>.\<close>

datatype single_kind = Composing | AddingNetwork | AddingVM

fun kind_of :: "request \<Rightarrow> single_kind option" where
  "kind_of (ComposeVApp _ _ _) = Some Composing"
| "kind_of (AddRAWNetworkConfig _ _) = Some AddingNetwork"
| "kind_of (AddNewVMWithComputePolicy _ _ _ _) = Some AddingVM"
| "kind_of _ = None"

definition single_request :: "request \<Rightarrow> bool" where
  "single_request q \<longleftrightarrow> kind_of q \<noteq> None"

lemma single_request_simps [simp]:
  "kind_of q = None \<Longrightarrow> \<not> single_request q" "kind_of q = Some k \<Longrightarrow> single_request q"
  by (simp_all add: single_request_def)

text \<open>What the session, the gate and the call wrappers do by themselves.\<close>

locale session_frame =
  fixes R :: "'b gstate \<Rightarrow> 'b gstate \<Rightarrow> bool" and allowed :: "request \<Rightarrow> bool"
  assumes refl: "R s s" and trans: "R s t \<Longrightarrow> R t u \<Longrightarrow> R s u"
    and quiet: "(\<And>q a. e \<noteq> Request q a) \<Longrightarrow> R s (log_event e s)"
    and asks: "allowed q \<Longrightarrow> R s (log_event (Request q a) s)"
    and shared: "R s (s\<lparr>session := x\<rparr>)" "R s (s\<lparr>gate := g\<rparr>)"
    and token: "allowed (SetToken oname tok)"
begin

lemma basic [obeys_intros]:
  "obeys R (ret v)" "obeys R (raise e)" "obeys R (get f)" "obeys R (lift_result r)"
  "obeys R (lift_err r')"
  by (auto simp: obeys_def ret_def raise_def get_def lift_result_def lift_err_def refl split: sum.splits)

lemma attempt_obeys [obeys_intros]:
  "obeys R m \<Longrightarrow> (\<And>r. obeys R (k r)) \<Longrightarrow> obeys R (attempt m k)"
  unfolding obeys_def attempt_def by (force split: option.splits intro: trans)

lemma chk_obeys [obeys_intros]:
  "obeys R m \<Longrightarrow> (\<And>v. obeys R (k v)) \<Longrightarrow> obeys R (chk m k)"
  unfolding chk_def by (intro obeys_intros)

lemma modify_obeys: "(\<And>s. R s (f s)) \<Longrightarrow> obeys R (modify f)"
  by (simp add: obeys_def modify_def)

lemma questions [obeys_intros]:
  "obeys R (time_Now env)" "obeys R (ctx_Err env ctx)" "obeys R (lock_client env)" "obeys R (lock_gate env)"
  "obeys R (sleepContext env ctx d)" "obeys R (create_name env)"
proof -
  have "R s (log_event Lock (s\<lparr>session := x\<rparr>))" "R s (log_event Lock (s\<lparr>gate := g\<rparr>))" for s x g
    by (rule trans [OF shared(1) quiet], simp) (rule trans [OF shared(2) quiet], simp)
  then show "obeys R (lock_client env)" "obeys R (lock_gate env)"
    by (simp_all add: obeys_def lock_client_def lock_gate_def)
qed (auto simp: obeys_def time_Now_def ctx_Err_def sleepContext_def create_name_def Let_def quiet
    split: option.splits sum.splits)

lemma shared_modify [obeys_intros]:
  "obeys R (update_session h)" "obeys R (modify (\<lambda>s. s\<lparr>gate := g s\<rparr>))"
  by (simp_all add: obeys_def modify_def update_session_def shared)

lemma perform_obeys [obeys_intros]: "allowed q \<Longrightarrow> obeys R (perform env q)"
  by (auto simp: obeys_def perform_def Let_def intro: asks)

lemma session_obeys [obeys_intros]:
  "obeys R (setVCDToken env)" "obeys R (authenticateLocked env)" "obeys R (sessionExpired env)"
  "obeys R (return_ctx_Err env ctx)" "obeys R (lockSession env ctx)" "obeys R (refreshSession env ctx n)"
  "obeys R (getVCDClient env)"
proof -
  show *: "obeys R (setVCDToken env)" "obeys R (sessionExpired env)" "obeys R (return_ctx_Err env ctx)"
    unfolding setVCDToken_def sessionExpired_def return_ctx_Err_def Let_def by (intro obeys_intros token)+
  show **: "obeys R (authenticateLocked env)" unfolding authenticateLocked_def by (intro obeys_intros *)
  show "obeys R (lockSession env ctx)" "obeys R (refreshSession env ctx n)" "obeys R (getVCDClient env)"
    unfolding lockSession_def refreshSession_def getVCDClient_def newVCDClient_def Let_def by (intro obeys_intros * **)+
qed

lemma gate_wait_obeys [obeys_intros]: "obeys R (gate_wait env ctx)"
proof (rule obeysI, erule gate_wait.raw_induct [where P = "\<lambda>env ctx s y. R s (snd y)", rotated])
  fix f env ctx s y
  assume IH: "\<And>env ctx s y. f env ctx s = Some y \<Longrightarrow> R s (snd y)"
    and body: "chk (lock_gate env) (\<lambda>_. chk (time_Now env) (\<lambda>t. chk (get gate) (\<lambda>g. case g of
       None \<Rightarrow> return_ctx_Err env ctx
     | Some g \<Rightarrow> (\<lambda>s. if time_sub (pausedUntil g) t \<le> 0 then return_ctx_Err env ctx s
         else chk (sleepContext env ctx (time_sub (pausedUntil g) t)) (\<lambda>_. f env ctx) s)))) s = Some y"
  have "obeys R (f env ctx)" by (rule obeysI) (rule IH)
  then show "R s (snd y)" by (intro obeys_chkD [where R = R, OF _ body] obeys_intros)
qed

text \<open>The call wrappers, for a function and rollbacks that obey the relation.\<close>

definition undoes :: "'b rollback list \<Rightarrow> bool" where
  "undoes restore \<longleftrightarrow> (\<forall>rb \<in> set restore. \<forall>s. R s (rb s))"

lemma undoes_Nil [obeys_intros]: "undoes []"
  by (simp add: undoes_def)

lemma rollback: "undoes restore \<Longrightarrow> R s (fold (\<lambda>rb s. rb s) restore s)"
  by (induction restore arbitrary: s) (auto simp: undoes_def refl intro: trans)

lemma vcdCallAttempt_obeys [obeys_intros]:
  "obeys R fn \<Longrightarrow> undoes restore \<Longrightarrow> obeys R (vcdCallAttempt env ctx desc fn restore)"
  unfolding vcdCallAttempt_def by (intro obeys_intros modify_obeys rollback)

lemma gate_throttled_obeys [obeys_intros]: "obeys R (gate_throttled env)"
  unfolding gate_throttled_def by (intro obeys_intros)

lemma vcdCall_limited_obeys [obeys_intros]:
  assumes fn: "obeys R fn" "undoes restore"
  shows "obeys R (vcdCall_limited env ctx desc fn restore x)"
proof (rule obeysI)
  fix s y
  assume "vcdCall_limited env ctx desc fn restore x s = Some y"
  then have "obeys R fn \<longrightarrow> undoes restore \<longrightarrow> R s (snd y)"
  proof (rule vcdCall_limited_induct
      [where P = "\<lambda>env ctx desc fn restore x s y. obeys R fn \<longrightarrow> undoes restore \<longrightarrow> R s (snd y)", rotated], intro impI)
    fix f env ctx desc fn restore x s y
    assume IH: "\<And>env ctx desc fn restore x s y. f env ctx desc fn restore x s = Some y \<Longrightarrow>
        obeys R fn \<longrightarrow> undoes restore \<longrightarrow> R s (snd y)"
      and body: "chk (get gate) (\<lambda>g. case fst x of
         Inl opErr \<Rightarrow> (\<lambda>s.
         if g \<noteq> None \<and> isOperationLimitError (Some opErr) then
           chk (gate_throttled env) (\<lambda>_.
           attempt (gate_wait env ctx) (\<lambda>r. case r of
             Inl waitErr \<Rightarrow>
               raise (Fail (PermanentError (Errorf
                 (Error opErr @ ''; waiting for vCD operation limit: '' @ Error (recovered desc waitErr))
                 [opErr, recovered desc waitErr])))
           | Inr _ \<Rightarrow> chk (vcdCallAttempt env ctx desc fn restore) (f env ctx desc fn restore))) s
         else ret x s)
       | Inr v \<Rightarrow> ret x) s = Some y"
      and fn: "obeys R fn" "undoes restore"
    have "obeys R (f env ctx desc fn restore x)" for x by (rule obeysI) (use IH fn in blast)
    then show "R s (snd y)" by (intro obeys_chkD [where R = R, OF _ body] obeys_intros fn)
  qed
  then show "R s (snd y)" using fn by blast
qed

lemma vcdCall_op_obeys [obeys_intros]:
  "obeys R fn \<Longrightarrow> undoes restore \<Longrightarrow> obeys R (vcdCall_op env ctx desc fn retry restore)"
  unfolding vcdCall_op_def vcdCall_finish_def by (intro obeys_intros)

lemma idle_obeys: "idle s t \<Longrightarrow> R s t"
proof -
  have "R s (s\<lparr>history := es @ history s\<rparr>)" if "list_all idle_event es" for es
    using that
  proof (induction es)
    case (Cons e es)
    have "R (s\<lparr>history := es @ history s\<rparr>) (log_event e (s\<lparr>history := es @ history s\<rparr>))"
      by (rule quiet) (use Cons.prems in \<open>auto simp: idle_event_def\<close>)
    then show ?case using Cons by (auto simp: log_event_def intro: trans)
  qed (simp add: refl)
  then show "idle s t \<Longrightarrow> R s t" by (auto simp: idle_def)
qed

lemma retries_obeys: "retries op s r t \<Longrightarrow> obeys R op \<Longrightarrow> R s t"
  by (induction rule: retries.induct) (meson idle_obeys obeysD trans)+

lemma retry_obeys [obeys_intros]:
  "retry_documented env \<Longrightarrow> obeys R op \<Longrightarrow> obeys R (RetryWithData env opts ctx op)"
  "retry_documented env \<Longrightarrow> obeys R op' \<Longrightarrow> obeys R (Retry env opts op')"
  unfolding obeys_def [of R "RetryWithData env opts ctx op"] obeys_def [of R "Retry env opts op'"] retry_documented_def
  using retries_obeys by blast+

lemma calls_obey [obeys_intros]:
  assumes "retry_documented env"
  shows "obeys R fn \<Longrightarrow> undoes restore \<Longrightarrow> obeys R (safeVCDCall env ctx desc fn restore)"
    and "obeys R fn \<Longrightarrow> undoes restore \<Longrightarrow> obeys R (singleVCDCall env ctx desc fn restore)"
    and "obeys R fn \<Longrightarrow> undoes restore \<Longrightarrow> obeys R (safeVCDCallVoid env ctx desc fn restore)"
  by (auto simp: safeVCDCall_def singleVCDCall_def safeVCDCallVoid_def vcdCall_def Let_def
      intro!: obeys_intros assms)

end

text \<open>With the objects: every operation on vCD, but for the guarded requests.\<close>

locale call_frame = session_frame R allowed
    for R :: "'b gstate \<Rightarrow> 'b gstate \<Rightarrow> bool" and allowed :: "request \<Rightarrow> bool" +
  assumes objects: "R s (s\<lparr>vapp := p\<rparr>)" "R s (s\<lparr>vm := v\<rparr>)" "R s (s\<lparr>task := k\<rparr>)"
    and repeatable: "\<not> single_request q \<Longrightarrow> allowed q"
begin

lemma object_modify [obeys_intros]:
  "obeys R (modify (\<lambda>s. s\<lparr>vapp := f s\<rparr>))" "obeys R (modify (\<lambda>s. s\<lparr>vm := f' s\<rparr>))"
  "obeys R (modify (\<lambda>s. s\<lparr>task := f'' s\<rparr>))"
  by (simp_all add: obeys_def modify_def objects)

lemma perform_object_obeys [obeys_intros]:
  "(\<And>h. allowed (method h)) \<Longrightarrow> obeys R (perform_vapp env method)"
  "(\<And>h. allowed (method h)) \<Longrightarrow> obeys R (perform_vm env method)"
  "(\<And>h. allowed (method h)) \<Longrightarrow> obeys R (perform_task env method)"
  by (auto simp: obeys_def perform_vapp_def perform_vm_def perform_task_def Let_def
      intro: trans [OF objects(1) asks] trans [OF objects(2) asks] trans [OF objects(3) asks])

lemma undoes_object [obeys_intros]: "undoes [preserveVApp s]" "undoes [preserveVM s]"
  by (simp_all add: undoes_def preserveVApp_def preserveVM_def objects)

lemma object_calls_obey [obeys_intros]:
  assumes "retry_documented env" and "\<And>h. allowed (method h)"
  shows "obeys R (safe_vapp env ctx desc method)" "obeys R (single_vapp env ctx desc method)"
    "obeys R (safe_vm env ctx desc method)"
proof -
  have "obeys R (safeVCDCall env ctx desc (perform_vapp env method) [preserveVApp s])"
    "obeys R (singleVCDCall env ctx desc (perform_vapp env method) [preserveVApp s])"
    "obeys R (safeVCDCall env ctx desc (perform_vm env method) [preserveVM s])" for s
    by (intro obeys_intros assms)+
  then show "obeys R (safe_vapp env ctx desc method)" "obeys R (single_vapp env ctx desc method)"
    "obeys R (safe_vm env ctx desc method)"
    by (auto simp: safe_vapp_def single_vapp_def safe_vm_def obeys_def)
qed

text \<open>
  A loop obeys the relation if its body does, with calls that obey in place of the recursive call.
\<close>

definition loop_ok :: "('b, 'u) env \<Rightarrow> 'b gstate \<Rightarrow> (exn + 'a) \<times> 'b gstate \<Rightarrow> bool" where
  "loop_ok env s y \<longleftrightarrow> (retry_documented env \<longrightarrow> R s (snd y))"

lemma loop_obeys:
  "(\<And>s y. m s = Some y \<Longrightarrow> loop_ok env s y) \<Longrightarrow> retry_documented env \<Longrightarrow> obeys R m"
  by (rule obeysI) (simp add: loop_ok_def)

lemma loop_chkI:
  "chk m k s = Some y \<Longrightarrow> (retry_documented env \<Longrightarrow> obeys R (chk m k)) \<Longrightarrow> loop_ok env s y"
  using obeys_chkD [of R m k s y] by (auto simp: loop_ok_def)

lemma loop_attemptI:
  "attempt m k s = Some y \<Longrightarrow> (retry_documented env \<Longrightarrow> obeys R (attempt m k)) \<Longrightarrow> loop_ok env s y"
  using obeys_attemptD [of R m k s y] by (auto simp: loop_ok_def)

lemma waitTaskCompletion_loop_obeys [obeys_intros]:
  "retry_documented env \<Longrightarrow> obeys R (waitTaskCompletion_loop env ctx)"
proof (rule loop_obeys, erule waitTaskCompletion_loop.raw_induct [where P = "\<lambda>env ctx. loop_ok env", rotated], goal_cases)
  case (1 s0 y0 f env ctx s y)
  have f: "retry_documented env \<Longrightarrow> obeys R (f env ctx)" by (rule loop_obeys [OF 1(2)])
  show ?case by (auto intro!: loop_chkI [OF 1(3)] obeys_intros repeatable f)
qed

lemma waitPoweredOff_obeys [obeys_intros]: "retry_documented env \<Longrightarrow> obeys R (waitPoweredOff env ctx)"
proof (rule loop_obeys, erule waitPoweredOff.raw_induct [where P = "\<lambda>env ctx. loop_ok env", rotated], goal_cases)
  case (1 s0 y0 f env ctx s y)
  have f: "retry_documented env \<Longrightarrow> obeys R (f env ctx)" by (rule loop_obeys [OF 1(2)])
  show ?case by (auto intro!: loop_chkI [OF 1(3)] obeys_intros repeatable f)
qed

lemma waitNoTasks_obeys [obeys_intros]: "retry_documented env \<Longrightarrow> obeys R (waitNoTasks env ctx)"
proof (rule loop_obeys, erule waitNoTasks.raw_induct [where P = "\<lambda>env ctx. loop_ok env", rotated], goal_cases)
  case (1 s0 y0 f env ctx s y)
  have f: "retry_documented env \<Longrightarrow> obeys R (f env ctx)" by (rule loop_obeys [OF 1(2)])
  show ?case by (auto intro!: loop_chkI [OF 1(3)] obeys_intros repeatable f)
qed

lemma waitForTasksCompletion_obeys [obeys_intros]:
  "retry_documented env \<Longrightarrow> obeys R (waitForTasksCompletion env ctx)"
proof (rule loop_obeys, erule waitForTasksCompletion.raw_induct [where P = "\<lambda>env ctx. loop_ok env", rotated], goal_cases)
  case (1 s0 y0 f env ctx s y)
  have f: "retry_documented env \<Longrightarrow> obeys R (f env ctx)" by (rule loop_obeys [OF 1(2)])
  show ?case by (auto intro!: loop_chkI [OF 1(3)] obeys_intros repeatable f)
qed

lemma waitForSSHReadiness_loop_obeys [obeys_intros]:
  "retry_documented env \<Longrightarrow> obeys R (waitForSSHReadiness_loop env ctx addr username)"
proof (rule loop_obeys, erule waitForSSHReadiness_loop.raw_induct
    [where P = "\<lambda>env ctx addr username. loop_ok env", rotated], goal_cases)
  case (1 s0 y0 f env ctx addr username s y)
  have f: "retry_documented env \<Longrightarrow> obeys R (f env ctx addr username)" by (rule loop_obeys [OF 1(2)])
  show ?case by (auto intro!: loop_attemptI [OF 1(3)] obeys_intros repeatable f)
qed

lemma notFoundIsPermanent_obeys [obeys_intros]: "obeys R fn \<Longrightarrow> obeys R (notFoundIsPermanent fn)"
  unfolding notFoundIsPermanent_def by (intro obeys_intros)

lemma repeatable_calls:
  assumes "retry_documented env" and "\<not> single_request q"
  shows "obeys R (safeVCDCall env ctx desc (perform env q) [])"
  by (intro obeys_intros repeatable assms)

lemma lookups_obey [obeys_intros]:
  assumes "retry_documented env"
  shows "obeys R (getVAppTemplate env ctx)" "obeys R (getStorageProfile env ctx)"
    "obeys R (getDefaultComputePolicy env ctx)" "obeys R (create_prepare env ctx)"
proof -
  show *: "obeys R (getVAppTemplate env ctx)" "obeys R (getStorageProfile env ctx)"
    unfolding getVAppTemplate_def getStorageProfile_def by (intro obeys_intros repeatable_calls assms; simp)+
  show "obeys R (getDefaultComputePolicy env ctx)" "obeys R (create_prepare env ctx)"
    unfolding getDefaultComputePolicy_def create_prepare_def by (intro obeys_intros repeatable_calls assms *; simp)+
qed

lemma configure_obeys [obeys_intros]:
  assumes "retry_documented env"
  shows "obeys R (waitTaskCompletion env ctx t)" "obeys R (waitForVMCreation env ctx)" "obeys R (customize f)"
    "obeys R (injectKey env key)" "obeys R (injectCredentials env ctx)" "obeys R (changeDiskSize env ctx)"
    "obeys R (changeVMTpm env ctx b)" "obeys R (waitForSSHReadiness env ctx ip)"
proof -
  show a: "obeys R (waitTaskCompletion env ctx t)" "obeys R (waitForVMCreation env ctx)" "obeys R (changeVMTpm env ctx b)"
    unfolding waitTaskCompletion_def waitForVMCreation_def changeVMTpm_def
    by (intro obeys_intros repeatable assms; simp)+
  show c: "obeys R (customize f)" for f unfolding customize_def by (intro obeys_intros)
  show k: "obeys R (injectKey env key)" for key
    unfolding injectKey_def by (cases "ssh_public_key env key") (simp_all, (intro obeys_intros c)+)
  show "obeys R (injectCredentials env ctx)" "obeys R (changeDiskSize env ctx)" "obeys R (waitForSSHReadiness env ctx ip)"
    unfolding injectCredentials_def changeDiskSize_def waitForSSHReadiness_def Let_def
    by (intro obeys_intros repeatable assms c k; simp)+
qed

lemma waitTasks_obeys [obeys_intros]: "retry_documented env \<Longrightarrow> obeys R (waitTasks env ctx ts)"
  by (induction ts rule: waitTasks.induct) (auto intro!: obeys_intros)

lemma create_steps_obey [obeys_intros]:
  assumes "retry_documented env"
  shows "obeys R (create_configure env ctx)" "obeys R (create_start env ctx)"
    "obeys R (createRawVApp_recover env ctx name e)"
  unfolding create_configure_def create_start_def create_verify_def createRawVApp_recover_def
  by (intro obeys_intros repeatable_calls repeatable assms; simp)+

lemma createRawVApp_obeys:
  assumes "retry_documented env" and "\<And>e n d. allowed (ComposeVApp e n d)"
  shows "obeys R (createRawVApp env ctx href name description)"
proof -
  have "obeys R (composeVApp env href name description)"
    unfolding composeVApp_def by (intro obeys_intros assms)
  then show ?thesis unfolding createRawVApp_def by (intro obeys_intros repeatable assms; simp)
qed

lemma create_named_obeys:
  assumes "retry_documented env" and all: "\<And>q. allowed q"
  shows "obeys R (create_named env ctx href name)"
  unfolding create_named_def create_vapp_def create_vm_def
  by (intro obeys_intros createRawVApp_obeys assms)

lemma delete_obeys [obeys_intros]:
  assumes "retry_documented env"
  shows "obeys R (refreshVappOp env href)" "obeys R (delete_vapp env desc)" "obeys R (stop_vapp env desc PowerOff)"
    "obeys R (stop_vapp env desc Undeploy)" "obeys R (delete_vapp_with_vm env v)" "obeys R (deleteInstance env href)"
    "obeys R (cleanUpInstanceByName env name)"
proof -
  show a: "obeys R (refreshVappOp env href)" "obeys R (delete_vapp env desc)" "obeys R (stop_vapp env desc PowerOff)"
    "obeys R (stop_vapp env desc Undeploy)" for desc href
    unfolding refreshVappOp_def delete_vapp_def stop_vapp_def by (intro obeys_intros repeatable assms; simp)+
  show b: "obeys R (delete_vapp_with_vm env v)" for v
    unfolding delete_vapp_with_vm_def by (intro obeys_intros repeatable assms a; simp)
  show c: "obeys R (deleteInstance env href)" for href
    unfolding deleteInstance_def by (intro obeys_intros assms a b)
  show "obeys R (cleanUpInstanceByName env name)"
    unfolding cleanUpInstanceByName_def lookup_for_cleanup_def
    by (intro obeys_intros repeatable_calls repeatable assms c; simp)
qed

end

end
