(* ===== verification/Vcd_Demo.thy ===== *)
theory Vcd_Demo
  imports Call_Logic
begin

text \<open>
  A concrete environment, for a given IP allocation mode in the configuration: a vCD that answers every request, a clock that stands still, contexts that do
  not end, no other goroutines, and a retry library that never retries, which its documentation allows.
  The witnesses of the properties of the vCD operations run in it.
\<close>

section \<open>A retry library that gives up at once\<close>

definition no_retry :: "('b gstate, 'a) comp \<Rightarrow> ('b gstate, 'a) comp" where
  "no_retry op s =
     (case op s of
        Some (Inl (Fail e), t) \<Rightarrow> Some (Inl (Fail (case find_permanent e of Some p \<Rightarrow> p | None \<Rightarrow> e)), t)
      | r \<Rightarrow> r)"

lemma no_retry_retries: "no_retry op s = Some (r, t) \<Longrightarrow> retries op s r t"
proof (cases "op s")
  case (Some y)
  obtain a u where y: "y = (a, u)" by fastforce
  assume run: "no_retry op s = Some (r, t)"
  show ?thesis
  proof (cases a)
    case (Inl ex)
    show ?thesis
    proof (cases ex)
      case (Fail e)
      have "idle u u" by (simp add: idle_def exI [of _ "[]"])
      moreover have "reported e (case find_permanent e of Some p \<Rightarrow> p | None \<Rightarrow> e)"
        by (simp add: reported_def split: option.split)
      ultimately show ?thesis
        using run Some y Inl Fail retries.gives_up [of op s e u] by (auto simp: no_retry_def)
    qed (use run Some y Inl retries.panics [of op s] in \<open>auto simp: no_retry_def\<close>)
  qed (use run Some y retries.returns [of op s] in \<open>auto simp: no_retry_def\<close>)
qed (simp add: no_retry_def)

section \<open>The environment\<close>

definition demo_ig :: "string \<Rightarrow> unit InstanceGroup" where
  "demo_ig mode = \<lparr>ig_Name = ''ci'', StrURL = ''u'', Org = ''o'', Token = ''t'', VirtualDatacenter = ''d'', Network = ''n'',
     IPAllocationMode = mode, InstanceGroupName = ''g'', VAppNamePrefix = ''ci'', Catalog = ''c'', Template = ''w'',
     StorageProfile = ''s'', CPUCount = 2, CoresPerSocket = 1, MemoryMB = 4096, DiskSizeGB = 10, DebugServerAddr = [],
     ig_MaxConcurrentCreates = 3, ig_MaxConcurrentDeletes = 5, ig_MaxConcurrentOperations = 4,
     ig_CreateTimeout = [], createTimeout = 1, ig_StartupCleanupTimeout = [], startupCleanupTimeout = 1,
     SessionRefreshInterval = [], sessionRefreshInterval = 0, parsedURL = Some (),
     settings = \<lparr>OS = ''linux'', Protocol = ''ssh'', ProtocolPort = 22, Username = ''root'', Password = ''pw'', Key = Some ''key'',
       UseStaticCredentials = True\<rparr>\<rparr>"

definition demo_key :: string where
  "demo_key = ''ssh-ed25519 AAAA''"

definition demo_vm :: VMObj where
  "demo_vm = \<lparr>vm_HREF = ''m'', vm_Name = ''ci-1'', vm_Status = 8,
     VmSpecSection = Some \<lparr>OsType = ''ubuntu'', DiskSection = Some [20480]\<rparr>,
     NetworkConnectionSection = Some [\<lparr>nc_Network = ''n'', NetworkConnectionIndex = 0, IPAddressAllocationMode = ''DHCP'', IsConnected = True,
       NeedsCustomization = False, nc_IPAddress = ''10.0.0.7''\<rparr>],
     GuestCustomizationSection = Some \<lparr>Enabled = None, AdminPassword = [], AdminPasswordEnabled = None,
       AdminPasswordAuto = None, ResetPasswordRequired = None, CustomizationScript = [], ComputerName = []\<rparr>,
     vm_Tasks = None\<rparr>"

definition demo_vapp :: "bool \<Rightarrow> VAppObj" where
  "demo_vapp filled = \<lparr>vapp_HREF = ''v'', vapp_Name = ''ci-1'', vapp_Status = 8,
     vapp_Children = (if filled then Some [\<lparr>vm_HREF = ''m'', vm_Name = ''ci-1'', vm_Status = 8\<rparr>] else None), vapp_Tasks = None\<rparr>"

definition demo_task :: TaskInfo where
  "demo_task = \<lparr>task_HREF = ''k'', task_Status = ''success'', task_Error = []\<rparr>"

text \<open>The vApp has a VM once one was added, and the VM is on once it was powered on.\<close>

definition saw :: "(request \<Rightarrow> bool) \<Rightarrow> event list \<Rightarrow> bool" where
  "saw P h = list_ex (\<lambda>e. case e of Request q a \<Rightarrow> P q | _ \<Rightarrow> False) h"

definition is_add :: "request \<Rightarrow> bool" where
  "is_add q \<longleftrightarrow> kind_of q = Some AddingVM"

fun is_on :: "request \<Rightarrow> bool" where
  "is_on (PowerOn _) = True"
| "is_on _ = False"

fun demo_answer :: "bool \<Rightarrow> bool \<Rightarrow> request \<Rightarrow> response" where
  "demo_answer added on (GetVDCByName _ _) = AVdc ''/vdc/'' None"
| "demo_answer added on GetVAppTemplate = ATemplate 8"
| "demo_answer added on (ComposeVApp _ _ _) = AVApp (demo_vapp False)"
| "demo_answer added on (RefreshVApp _) = AVApp (demo_vapp added)"
| "demo_answer added on (RefreshVM _) = AVM demo_vm"
| "demo_answer added on (GetStatus _) = AString (if on then ''POWERED_ON'' else ''POWERED_OFF'')"
| "demo_answer added on (RefreshTask _) = ATask demo_task"
| "demo_answer added on (AddRAWNetworkConfig _ _) = ATask demo_task"
| "demo_answer added on (AddNewVMWithComputePolicy _ _ _ _) = ATask demo_task"
| "demo_answer added on (PowerOn _) = ATask demo_task"
| "demo_answer added on (DeleteVApp _) = ATask demo_task"
| "demo_answer added on _ = Done"

definition answer :: "event list \<Rightarrow> request \<Rightarrow> response" where
  "answer h q = demo_answer (saw is_add h) (saw is_on h) q"

definition demo_env :: "string \<Rightarrow> (duration, unit) env" where
  "demo_env mode = \<lparr>ig = demo_ig mode, sdk = (\<lambda>h q. Inr (answer h q)), vapp_after = (\<lambda>h q. demo_vapp (saw is_add h)),
     vm_after = (\<lambda>h q. demo_vm), task_after = (\<lambda>h q. demo_task), clock = (\<lambda>h. 1), ctxErr = (\<lambda>h c. None),
     others_session = (\<lambda>h x. x), others_gate = (\<lambda>h g. g), randomness = (\<lambda>h k. Inr (\<lambda>i. 90)),
     backoff = plain_backoff throttleInitialPause throttleMaxPause, ParseRequestURI = (\<lambda>u. Inr ([], u)),
     ssh_public_key = (\<lambda>k. AuthorizedKey (demo_key @ newline)), ssh_ParsePrivateKey = (\<lambda>k. None),
     RetryWithData = (\<lambda>opts ctx. no_retry), Retry = (\<lambda>opts. no_retry)\<rparr>"

lemma demo_env_documented: "retry_documented (demo_env mode)"
  by (simp add: retry_documented_def demo_env_def no_retry_retries)

section \<open>Running in it\<close>

text \<open>A state of a run: an authenticated session, no gate.\<close>

definition st :: "event list \<Rightarrow> time gomap \<Rightarrow> string list \<Rightarrow> VAppObj \<Rightarrow> VMObj \<Rightarrow> TaskInfo \<Rightarrow> duration gstate" where
  "st h cl fl p v k = \<lparr>history = h, session = \<lparr>vcdClient = True, lastAuthenticated = 1, authGeneration = 1\<rparr>, gate = None,
     cleanups = cl, inflight = fl, vapp = p, vm = v, task = k\<rparr>"

definition locked :: "goctx \<Rightarrow> event list \<Rightarrow> event list" where
  "locked ctx h = ReadClock # AskContext ctx # Lock # h"

definition called :: "goctx \<Rightarrow> request \<Rightarrow> event list \<Rightarrow> event list" where
  "called ctx q h = Request q (Inr (answer (locked ctx h) q)) # locked ctx h"

lemma saw_simps [simp]:
  "saw P [] = False" "saw P (locked ctx h) = saw P h" "saw P (called ctx q h) = (P q \<or> saw P h)"
  "saw P (ReadClock # h) = saw P h" "saw P (Lock # h) = saw P h" "saw P (Sleep d # h) = saw P h"
  "saw P (ReadRandom # h) = saw P h" "saw P (Request q a # h) = (P q \<or> saw P h)"
  by (simp_all add: saw_def called_def locked_def)

lemma run_elementary:
  "time_Now (demo_env mode) (st h cl fl p v k) = Some (Inr 1, st (ReadClock # h) cl fl p v k)"
  "sleepContext (demo_env mode) ctx d (st h cl fl p v k) = Some (Inr (), st (Sleep d # h) cl fl p v k)"
  "get f (st h cl fl p v k) = Some (Inr (f (st h cl fl p v k)), st h cl fl p v k)"
  "perform (demo_env mode) q (st h cl fl p v k) = Some (Inr (answer h q), st (Request q (Inr (answer h q)) # h) cl fl p v k)"
  by (simp_all add: time_Now_def sleepContext_def get_def perform_def log_event_def st_def demo_env_def Let_def)

lemma run_lockSession:
  "lockSession (demo_env mode) ctx (st h cl fl p v k) = Some (Inr 1, st (locked ctx h) cl fl p v k)"
  by (simp add: lockSession_def chk_def attempt_def lock_client_def return_ctx_Err_def ctx_Err_def get_def ret_def
      sessionExpired_def time_Now_def log_event_def st_def locked_def demo_env_def demo_ig_def refresh_interval_def
      defaultSessionRefreshInterval_def time_sub_def max_duration_def min_duration_def time_consts)

lemma run_getVCDClient:
  "getVCDClient (demo_env mode) (st h cl fl p v k) = Some (Inr (), st (ReadClock # Lock # h) cl fl p v k)"
  by (simp add: getVCDClient_def chk_def attempt_def lock_client_def get_def ret_def
      sessionExpired_def time_Now_def log_event_def st_def demo_env_def demo_ig_def refresh_interval_def
      defaultSessionRefreshInterval_def time_sub_def max_duration_def min_duration_def time_consts)

lemma run_op:
  assumes "fn (st (locked ctx h) cl fl p v k) = Some (Inr r, t)" and "gate t = None"
  shows "vcdCall_op (demo_env mode) ctx desc fn retry restore (st h cl fl p v k) = Some (Inr r, t)"
  using assms
  by (simp add: vcdCall_op_def vcdCallAttempt_def attempt_def chk_def run_lockSession ret_def
      vcdCall_limited.simps get_def vcdCall_finish_def)

lemma run_call:
  assumes "fn (st (locked ctx h) cl fl p v k) = Some (Inr r, t)" and "gate t = None"
  shows "safeVCDCall (demo_env mode) ctx desc fn restore (st h cl fl p v k) = Some (Inr r, t)"
    and "singleVCDCall (demo_env mode) ctx desc fn restore (st h cl fl p v k) = Some (Inr r, t)"
  using run_op [where fn = fn, OF assms]
  by (simp_all add: safeVCDCall_def singleVCDCall_def vcdCall_def Let_def no_retry_def demo_env_def)

lemma gate_st [simp]: "gate (st h cl fl p v k) = None"
  by (simp add: st_def)

lemma run_perform:
  "safeVCDCall (demo_env mode) ctx desc (perform (demo_env mode) q) restore (st h cl fl p v k) =
     Some (Inr (answer (locked ctx h) q), st (called ctx q h) cl fl p v k)"
  by (rule run_call) (simp_all add: run_elementary called_def)

definition read_vapp_obj :: "event list \<Rightarrow> request \<Rightarrow> VAppObj" where
  "read_vapp_obj h q = (case answer h q of AVApp p \<Rightarrow> p | _ \<Rightarrow> demo_vapp (saw is_add h))"

lemma run_vapp_call:
  "safe_vapp (demo_env mode) ctx desc method (st h cl fl p v k) =
     Some (Inr (answer (locked ctx h) (method (vapp_HREF p))),
           st (called ctx (method (vapp_HREF p)) h) cl fl (read_vapp_obj h (method (vapp_HREF p))) v k)"
  "single_vapp (demo_env mode) ctx desc method (st h cl fl p v k) =
     Some (Inr (answer (locked ctx h) (method (vapp_HREF p))),
           st (called ctx (method (vapp_HREF p)) h) cl fl (read_vapp_obj h (method (vapp_HREF p))) v k)"
proof -
  have a: "answer (locked ctx h) q = answer h q" for q by (simp add: answer_def)
  have *: "perform_vapp (demo_env mode) method (st (locked ctx h) cl fl p v k) =
     Some (Inr (answer (locked ctx h) (method (vapp_HREF p))),
           st (called ctx (method (vapp_HREF p)) h) cl fl (read_vapp_obj h (method (vapp_HREF p))) v k)"
    by (simp add: perform_vapp_def read_vapp_obj_def a Let_def st_def demo_env_def log_event_def called_def
        split: response.split)
  show "safe_vapp (demo_env mode) ctx desc method (st h cl fl p v k) =
     Some (Inr (answer (locked ctx h) (method (vapp_HREF p))),
           st (called ctx (method (vapp_HREF p)) h) cl fl (read_vapp_obj h (method (vapp_HREF p))) v k)"
    "single_vapp (demo_env mode) ctx desc method (st h cl fl p v k) =
     Some (Inr (answer (locked ctx h) (method (vapp_HREF p))),
           st (called ctx (method (vapp_HREF p)) h) cl fl (read_vapp_obj h (method (vapp_HREF p))) v k)"
    unfolding safe_vapp_def single_vapp_def by (rule run_call [where fn = "perform_vapp (demo_env mode) method", OF *]; simp)+
qed

lemma run_vm:
  "safe_vm (demo_env mode) ctx desc method (st h cl fl p v k) =
     Some (Inr (answer (locked ctx h) (method (vm_HREF v))), st (called ctx (method (vm_HREF v)) h) cl fl p demo_vm k)"
proof -
  have "perform_vm (demo_env mode) method (st (locked ctx h) cl fl p v k) =
     Some (Inr (answer (locked ctx h) (method (vm_HREF v))), st (called ctx (method (vm_HREF v)) h) cl fl p demo_vm k)"
    by (cases "method (vm_HREF v)")
      (simp_all add: perform_vm_def answer_def Let_def st_def demo_env_def log_event_def called_def)
  then show ?thesis unfolding safe_vm_def by (rule run_call) simp
qed

definition waited :: "goctx \<Rightarrow> string \<Rightarrow> event list \<Rightarrow> event list" where
  "waited ctx href h = called (WithTimeout ctx (60 * minute) 1) (RefreshTask href) (ReadClock # h)"

lemma saw_waited [simp]: "saw P (waited ctx href h) = (P (RefreshTask href) \<or> saw P h)"
  by (simp add: waited_def)

lemma run_task:
  "waitTaskCompletion (demo_env mode) ctx tk (st h cl fl p v k) = Some (Inr (), st (waited ctx (task_HREF tk) h) cl fl p v demo_task)"
proof -
  have "perform_task (demo_env mode) RefreshTask (st (locked c h) cl fl p v tk) =
      Some (Inr (ATask demo_task), st (called c (RefreshTask (task_HREF tk)) h) cl fl p v demo_task)" for c h
    by (simp add: perform_task_def answer_def Let_def st_def demo_env_def log_event_def called_def)
  note call = run_call(1) [where fn = "perform_task (demo_env mode) RefreshTask", OF this gate_st]
  have u: "(st h cl fl p v k)\<lparr>task := tk\<rparr> = st h cl fl p v tk" by (simp add: st_def)
  show ?thesis
    by (simp add: waitTaskCompletion_def chk_def [of "modify _"] chk_def [of "time_Now _"] attempt_def modify_def u run_elementary
        waitTaskCompletion_loop.simps [of "demo_env mode" "WithTimeout ctx (60 * minute) 1"] safeVCDCallVoid_def
        chk_def call ret_def get_def demo_task_def waited_def) (simp add: st_def)
qed

lemma demo_name: "generateVMName (\<lambda>k. Inr (\<lambda>i. 90)) prfx = Some (Inr (prfx @ ''-wlpawlpa''))"
proof -
  have n: "name_letters ''WlpaWlpaWlo'' = ''wlpawlpawlo''" by code_simp
  have "GenerateRandomStringVMNameSafe (\<lambda>k. Inr (\<lambda>i. 90)) 8 = Some (Inr (take 8 ''wlpawlpawlo''))"
    unfolding GenerateRandomStringVMNameSafe_def
    by (simp add: GenerateRandomStringVMNameSafe_loop.simps [where k = 0]
        GenerateRandomStringVMNameSafe_loop.simps [where k = "Suc 0"] demo_reads n)
  then show ?thesis by (simp add: generateVMName_def)
qed

lemmas run_simps = chk_def attempt_def ret_def raise_def modify_def run_elementary run_getVCDClient run_perform run_vapp_call
  run_vm run_task answer_def is_add_def lift_err_def lift_result_def

lemma st_update [simp]:
  "(st h cl fl p v k)\<lparr>vapp := p'\<rparr> = st h cl fl p' v k" "(st h cl fl p v k)\<lparr>vm := v'\<rparr> = st h cl fl p v' k"
  "(st h cl fl p v k)\<lparr>inflight := fl'\<rparr> = st h cl fl' p v k" "vapp (st h cl fl p v k) = p" "vm (st h cl fl p v k) = v"
  "inflight (st h cl fl p v k) = fl" "cleanups (st h cl fl p v k) = cl" "history (st h cl fl p v k) = h"
  "task (st h cl fl p v k) = k"
  by (simp_all add: st_def)

lemma demo_ig_simps [simp]: "ig (demo_env mode) = (demo_ig mode)" "IPAllocationMode (demo_ig mode) = mode"
  "UseStaticCredentials (settings (demo_ig mode)) = True" "Password (settings (demo_ig mode)) = ''pw''" "Key (settings (demo_ig mode)) = Some ''key''"
  "ssh_public_key (demo_env mode) = (\<lambda>k. AuthorizedKey (demo_key @ newline))" "ssh_ParsePrivateKey (demo_env mode) = (\<lambda>k. None)"
  "DiskSizeGB (demo_ig mode) = 10"
  by (simp_all add: demo_env_def demo_ig_def)

definition demo_start :: "duration gstate" where
  "demo_start = st [] [] [] blank_vapp blank_vm blank_task"

text \<open>The steps of a create, each in the state the one before it leaves.\<close>

lemma st_exI: "P h \<Longrightarrow> \<exists>h'. st h cl fl p v k = st h' cl fl p v k \<and> P h'"
  by blast

lemma st_ex [simp]: "\<exists>h'. st h cl fl p v k = st h' cl fl p v k"
  by blast

lemma run_create_prepare:
  "\<exists>h'. create_prepare (demo_env mode) ctx (st h cl fl p v k) = Some (Inr ''/vdc/'', st h' cl fl p v k) \<and>
     saw is_add h' = saw is_add h \<and> saw is_on h' = saw is_on h"
  by (simp add: create_prepare_def getVAppTemplate_def getStorageProfile_def run_simps, rule st_exI, simp add: is_add_def)

lemma run_create_name:
  "create_name (demo_env mode) (st h cl fl p v k) = Some (Inr ''ci-wlpawlpa'', st (ReadRandom # h) cl fl p v k)"
  by (simp add: create_name_def demo_env_def demo_name demo_ig_def log_event_def st_def)

lemma run_compose:
  "\<exists>q. singleVCDCall (demo_env mode) ctx desc (composeVApp (demo_env mode) href name d) restore (st h cl fl p v k) =
     Some (Inr (AVApp (demo_vapp False)), st (called ctx q h) cl fl p v k) \<and> kind_of q = Some Composing"
proof -
  let ?q = "ComposeVApp (trim_slashes href @ ''/action/composeVApp'') name d"
  have "composeVApp (demo_env mode) href name d (st (locked ctx h) cl fl p v k) =
      Some (Inr (AVApp (demo_vapp False)), st (called ctx ?q h) cl fl p v k)"
    by (simp add: composeVApp_def demo_env_def perform_def Let_def called_def log_event_def st_def answer_def)
  then have "singleVCDCall (demo_env mode) ctx desc (composeVApp (demo_env mode) href name d) restore (st h cl fl p v k) =
     Some (Inr (AVApp (demo_vapp False)), st (called ctx ?q h) cl fl p v k)"
    by (rule run_call) simp
  then show ?thesis by (intro exI [of _ ?q]) simp
qed

lemma demo_vapp_simps [simp]:
  "vapp_HREF (demo_vapp b) = ''v''" "vapp_Tasks (demo_vapp b) = None" "hasVM (VApp.truncate (demo_vapp b)) = b"
  "vapp_Children (demo_vapp b) = (if b then Some [\<lparr>vm_HREF = ''m'', vm_Name = ''ci-1'', vm_Status = 8\<rparr>] else None)"
  by (simp_all add: demo_vapp_def hasVM_def VApp.truncate_def)

lemma kind_not_on: "kind_of q = Some j \<Longrightarrow> \<not> is_on q"
  by (cases q) auto

lemma run_create_vapp:
  assumes "\<not> saw is_add h"
  shows "\<exists>h'. create_vapp (demo_env mode) ctx ''/vdc/'' name (st h cl fl p v k) =
       Some (Inr (), st h' cl fl (demo_vapp False) v demo_task) \<and> \<not> saw is_add h' \<and> saw is_on h' = saw is_on h"
proof -
  obtain q where q: "singleVCDCall (demo_env mode) ctx ''CreateRawVApp''
      (composeVApp (demo_env mode) ''/vdc/'' name (''VM created by the '' @ ig_Name (ig (demo_env mode)) @ '' GitLab Fleeting runner''))
      [] (st h cl fl p v k) = Some (Inr (AVApp (demo_vapp False)), st (called ctx q h) cl fl p v k)" "kind_of q = Some Composing"
    using run_compose by metis
  then have "\<not> saw is_add (called ctx q h)" using assms by (simp add: is_add_def)
  then show ?thesis
    using q assms kind_not_on [OF q(2)]
    by (simp add: create_vapp_def createRawVApp_def run_simps read_vapp_obj_def, intro st_exI) (simp add: is_add_def)
qed

lemma run_create_vm:
  assumes "\<not> saw is_add h"
  shows "\<exists>h'. create_vm (demo_env ''DHCP'') ctx name (st h cl fl (demo_vapp False) v k) =
       Some (Inr (), st h' cl fl (demo_vapp True) v demo_task) \<and> saw is_add h' \<and> saw is_on h' = saw is_on h"
  using assms
  by (simp add: create_vm_def getVMNetworkConnectionSection_def getDefaultComputePolicy_def run_simps read_vapp_obj_def,
      intro st_exI) (simp add: is_add_def)

lemma demo_vm_simps [simp]:
  "vm_HREF demo_vm = ''m''" "vm_HREF (firstVM (VApp.truncate (demo_vapp True))) = ''m''"
  "VmSpecSection demo_vm = Some \<lparr>OsType = ''ubuntu'', DiskSection = Some [20480]\<rparr>"
  "getPrimaryIPAddress demo_vm = Inr ''10.0.0.7''" "vmRequiresTPM demo_vm = Inr False"
proof -
  show "vmRequiresTPM demo_vm = Inr False" by code_simp
  show "getPrimaryIPAddress demo_vm = Inr ''10.0.0.7''" by (simp add: demo_vm_def getPrimaryIPAddress_def)
qed (simp_all add: demo_vm_def demo_vapp_def firstVM_def VApp.truncate_def)

lemma demo_script:
  obtains script where "guest_script False (demo_key @ newline) = Some script"
proof -
  have "CHR 0x0A \<notin> set (TrimSpace (demo_key @ newline))" by (rule TrimSpace_line) (simp add: demo_key_def)
  then show thesis using guest_script_lines [of "demo_key @ newline" False] that by blast
qed

lemma run_credentials:
  "\<exists>h'. injectCredentials (demo_env mode) ctx (st h cl fl p demo_vm k) = Some (Inr (), st h' cl fl p demo_vm k) \<and>
     saw is_add h' = saw is_add h \<and> saw is_on h' = saw is_on h"
proof -
  obtain script where script: "guest_script False (demo_key @ newline) = Some script" by (rule demo_script)
  have os: "\<not> Contains ''ubuntu'' ''windows''" by code_simp
  show ?thesis
    by (simp add: injectCredentials_def injectKey_def customize_def Let_def run_simps demo_vm_def script os, intro st_exI)
      (simp add: is_add_def)
qed

lemma run_disk: "changeDiskSize (demo_env mode) ctx (st h cl fl p demo_vm k) = Some (Inr (), st h cl fl p demo_vm k)"
  by (simp add: changeDiskSize_def run_simps int64_def)

lemma run_create_configure:
  assumes "saw is_add h" "\<not> saw is_on h"
  shows "\<exists>h'. create_configure (demo_env mode) ctx (st h cl fl (demo_vapp True) v k) =
       Some (Inr (), st h' cl fl (demo_vapp True) demo_vm k) \<and> saw is_add h' \<and> \<not> saw is_on h'"
proof -
  have w: "\<exists>h'. waitForVMCreation (demo_env mode) ctx (st h cl fl (demo_vapp True) v k) =
       Some (Inr (), st h' cl fl (demo_vapp True) demo_vm k) \<and> saw is_add h' \<and> \<not> saw is_on h'"
    using assms
    by (simp add: waitForVMCreation_def run_simps read_vapp_obj_def
        waitPoweredOff.simps [of "demo_env mode" ctx] waitNoTasks.simps [of "demo_env mode" ctx], intro st_exI) (simp add: is_add_def)
  then obtain h1 where h1: "waitForVMCreation (demo_env mode) ctx (st h cl fl (demo_vapp True) v k) =
       Some (Inr (), st h1 cl fl (demo_vapp True) demo_vm k)" "saw is_add h1" "\<not> saw is_on h1" by blast
  obtain h2 where h2: "injectCredentials (demo_env mode) ctx (st h1 cl fl (demo_vapp True) demo_vm k) =
       Some (Inr (), st h2 cl fl (demo_vapp True) demo_vm k)" "saw is_add h2" "\<not> saw is_on h2"
    using run_credentials h1(2,3) by metis
  show ?thesis
    using h2(2,3) by (simp add: create_configure_def run_simps h1(1) h2(1) run_disk, intro st_exI) (simp add: is_add_def)
qed

lemma run_create_start:
  "\<exists>h'. create_start (demo_env mode) ctx (st h cl fl p demo_vm k) = Some (Inr ''10.0.0.7'', st h' cl fl p demo_vm demo_task)"
  by (simp add: create_start_def create_verify_def waitForSSHReadiness_def Let_def run_simps
      waitForSSHReadiness_loop.simps [of "demo_env mode"] exI)

lemma demo_create:
  "\<exists>v h. createInstance (demo_env ''DHCP'') ctx demo_start =
     Some (Inr v, st h [] [''ci-wlpawlpa''] (demo_vapp True) demo_vm demo_task) \<and> res_IPAddress v = ''10.0.0.7''"
proof -
  let ?E = "demo_env ''DHCP''" and ?n = "''ci-wlpawlpa''"
  obtain h1 where h1: "create_prepare ?E ctx demo_start = Some (Inr ''/vdc/'', st h1 [] [] blank_vapp blank_vm blank_task)"
    "\<not> saw is_add h1" "\<not> saw is_on h1"
    using run_create_prepare [of "''DHCP''" ctx "[]" "[]" "[]" blank_vapp blank_vm blank_task] by (auto simp: demo_start_def)
  obtain h2 where h2: "create_vapp ?E ctx ''/vdc/'' ?n (st (ReadRandom # h1) [] [?n] blank_vapp blank_vm blank_task) =
      Some (Inr (), st h2 [] [?n] (demo_vapp False) blank_vm demo_task)" "\<not> saw is_add h2" "\<not> saw is_on h2"
    using run_create_vapp [of "ReadRandom # h1" "''DHCP''" ctx ?n "[]" "[?n]" blank_vapp blank_vm blank_task] h1 by auto
  obtain h3 where h3: "create_vm ?E ctx ?n (st h2 [] [?n] (demo_vapp False) blank_vm demo_task) =
      Some (Inr (), st h3 [] [?n] (demo_vapp True) blank_vm demo_task)" "saw is_add h3" "\<not> saw is_on h3"
    using run_create_vm [of h2 ctx ?n "[]" "[?n]" blank_vm demo_task] h2 by auto
  obtain h4 where h4: "create_configure ?E ctx (st h3 [] [?n] (demo_vapp True) blank_vm demo_task) =
      Some (Inr (), st h4 [] [?n] (demo_vapp True) demo_vm demo_task)"
    using run_create_configure [of h3 "''DHCP''" ctx "[]" "[?n]" blank_vm demo_task] h3 by auto
  obtain h5 where h5: "create_start ?E ctx (st h4 [] [?n] (demo_vapp True) demo_vm demo_task) =
      Some (Inr ''10.0.0.7'', st h5 [] [?n] (demo_vapp True) demo_vm demo_task)"
    using run_create_start by blast
  show ?thesis
    by (simp add: createInstance_def create_named_def chk_def attempt_def ret_def modify_def get_def
        h1(1) run_create_name h2(1) h3(1) h4 h5)
qed

text \<open>With a mode the code does not know, the create fails once the vApp is there.\<close>

lemma demo_create_fails:
  "\<exists>e h. createInstance (demo_env ''BAD'') ctx demo_start =
     Some (Inl e, st h [(''ci-wlpawlpa'', 1)] [] (demo_vapp False) blank_vm demo_task)"
proof -
  let ?E = "demo_env ''BAD''" and ?n = "''ci-wlpawlpa''"
  obtain h1 where h1: "create_prepare ?E ctx demo_start = Some (Inr ''/vdc/'', st h1 [] [] blank_vapp blank_vm blank_task)"
    "\<not> saw is_add h1" "\<not> saw is_on h1"
    using run_create_prepare [of "''BAD''" ctx "[]" "[]" "[]" blank_vapp blank_vm blank_task] by (auto simp: demo_start_def)
  obtain h2 where h2: "create_vapp ?E ctx ''/vdc/'' ?n (st (ReadRandom # h1) [] [?n] blank_vapp blank_vm blank_task) =
      Some (Inr (), st h2 [] [?n] (demo_vapp False) blank_vm demo_task)"
    using run_create_vapp [of "ReadRandom # h1" "''BAD''" ctx ?n "[]" "[?n]" blank_vapp blank_vm blank_task] h1 by auto
  have u: "(st h cl fl p v k)\<lparr>cleanups := cl'\<rparr> = st h cl' fl p v k" for h cl fl p v k cl' by (simp add: st_def)
  show ?thesis
    by (simp add: createInstance_def create_named_def create_vm_def getVMNetworkConnectionSection_def create_handover_def
        chk_def attempt_def ret_def raise_def lift_err_def modify_def LoadOrStore_def run_elementary u
        h1(1) run_create_name h2(1))
qed

text \<open>A deletion of an empty vApp.\<close>

lemma demo_delete:
  "\<exists>h. deleteInstance (demo_env mode) ''v'' demo_start = Some (Inr (), st h [] [] (demo_vapp False) blank_vm demo_task)"
proof -
  let ?s = "st (ReadClock # Lock # []) [] [] blank_vapp blank_vm blank_task"
  have "refreshVappOp (demo_env mode) ''v'' ?s =
      Some (Inr (), st (called Background (RefreshVApp ''v'') (ReadClock # Lock # [])) [] [] (demo_vapp False) blank_vm blank_task)"
    by (simp add: refreshVappOp_def run_simps read_vapp_obj_def)
  then have "Retry (demo_env mode) opts (refreshVappOp (demo_env mode) ''v'') ?s =
      Some (Inr (), st (called Background (RefreshVApp ''v'') (ReadClock # Lock # [])) [] [] (demo_vapp False) blank_vm blank_task)"
    for opts by (simp add: demo_env_def no_retry_def)
  moreover have "vapp_Name (demo_vapp False) \<noteq> []" by (simp add: demo_vapp_def)
  ultimately show ?thesis
    by (simp add: deleteInstance_def demo_start_def delete_vapp_def run_simps read_vapp_obj_def)
qed

end
