(* ===== verification/Vcd_Props.thy ===== *)
theory Vcd_Props
  imports Vcd_Demo
begin

text \<open>
  Properties of the operations on vCD, for every behaviour of vCD, of the clock, of the contexts and of
  the other goroutines; only the retry library is assumed to behave as documented.
\<close>

section \<open>Calls that must not be replayed\<close>

text \<open>
  A request vCD did not reject for its operation limit may have taken effect. \<open>effects k s\<close> counts those
  of kind \<open>k\<close> so far.
\<close>

fun single_desc :: "single_kind \<Rightarrow> string" where
  "single_desc Composing = ''CreateRawVApp''"
| "single_desc AddingNetwork = ''AddRAWNetworkConfig''"
| "single_desc AddingVM = ''AddNewVMWithStorageProfile''"

definition limit_rejection :: "string \<Rightarrow> exn + 'a \<Rightarrow> bool" where
  "limit_rejection desc a = (case a of Inl e \<Rightarrow> isOperationLimitError (Some (recovered desc e)) | Inr _ \<Rightarrow> False)"

definition may_have_effect :: "single_kind \<Rightarrow> event \<Rightarrow> bool" where
  "may_have_effect k e =
     (case e of Request q a \<Rightarrow> kind_of q = Some k \<and> \<not> limit_rejection (single_desc k) a | _ \<Rightarrow> False)"

definition effects :: "single_kind \<Rightarrow> 'b gstate \<Rightarrow> nat" where
  "effects k s = length (filter (may_have_effect k) (history s))"

lemma effects_log [simp]:
  "effects k (log_event e s) = (if may_have_effect k e then Suc (effects k s) else effects k s)"
  by (simp add: effects_def log_event_def)

lemma effects_update [simp]:
  "effects k (s\<lparr>session := x\<rparr>) = effects k s" "effects k (s\<lparr>gate := g\<rparr>) = effects k s"
  "effects k (s\<lparr>vapp := p\<rparr>) = effects k s" "effects k (s\<lparr>vm := v\<rparr>) = effects k s"
  "effects k (s\<lparr>task := t\<rparr>) = effects k s" "effects k (s\<lparr>inflight := fl\<rparr>) = effects k s"
  "effects k (s\<lparr>cleanups := cl\<rparr>) = effects k s"
  by (simp_all add: effects_def)

lemma may_have_effect_simps [simp]:
  "may_have_effect k (Request q a) \<longleftrightarrow> kind_of q = Some k \<and> \<not> limit_rejection (single_desc k) a"
  "(\<And>q a. e \<noteq> Request q a) \<Longrightarrow> \<not> may_have_effect k e"
  by (auto simp: may_have_effect_def split: event.splits)

interpretation counted: call_frame "\<lambda>s t. effects k t = effects k s" "\<lambda>q. kind_of q \<noteq> Some k" for k
  by unfold_locales (simp_all add: single_request_def)

definition adds :: "single_kind \<Rightarrow> nat \<Rightarrow> ('b gstate, 'a) comp \<Rightarrow> bool" where
  "adds k n m \<longleftrightarrow> (\<forall>s r t. m s = Some (r, t) \<longrightarrow> effects k t \<le> effects k s + n)"

lemma obeys_adds: "obeys (\<lambda>s t. effects k t = effects k s) m \<Longrightarrow> adds k 0 m"
  by (auto simp: obeys_def adds_def)

lemma adds_attempt: "adds k n m \<Longrightarrow> (\<And>r. adds k n' (f r)) \<Longrightarrow> adds k (n + n') (attempt m f)"
  unfolding adds_def attempt_def by (fastforce split: option.splits)

lemma adds_chk: "adds k n m \<Longrightarrow> (\<And>v. adds k n' (f v)) \<Longrightarrow> adds k (n + n') (chk m f)"
  unfolding chk_def by (rule adds_attempt) (auto simp: adds_def raise_def split: sum.split)

text \<open>A function that sends at most one request of the kind, and none that counts when it is rejected.\<close>

definition once :: "single_kind \<Rightarrow> nat \<Rightarrow> string \<Rightarrow> ('b gstate, 'a) comp \<Rightarrow> bool" where
  "once k n desc fn \<longleftrightarrow> (\<forall>s r t. fn s = Some (r, t) \<longrightarrow>
     effects k t \<le> effects k s + n \<and> (limit_rejection desc r \<longrightarrow> effects k t = effects k s))"

definition rejected_attempt :: "(goerror + response) \<times> 64 word \<Rightarrow> bool" where
  "rejected_attempt x = (case fst x of Inl e \<Rightarrow> isOperationLimitError (Some e) | Inr _ \<Rightarrow> False)"

text \<open>
  The loop that waits out the operation limit as a rule: it ends with the last attempt, or with the error of the
  wait, and after a wait it goes on with the next attempt.
\<close>

lemma vcdCallAttempt_returns: "vcdCallAttempt env ctx desc fn restore s = Some (r, t) \<Longrightarrow> \<exists>x. r = Inr x"
  by (auto simp: vcdCallAttempt_def attempt_def chk_def ret_def modify_def split: option.splits sum.splits)

lemma gate_throttled_returns: obtains t where "gate_throttled env s = Some (Inr (), t)"
  by (simp add: gate_throttled_def chk_def attempt_def lock_gate_def time_Now_def modify_def)

lemma limited_rule [consumes 1, case_names ended stopped again]:
  assumes "vcdCall_limited env ctx desc fn restore x s = Some y"
    and ended: "\<And>x s. Q x s (Inr x, s)"
    and stopped: "\<And>x s s1 w s2 e. rejected_attempt x \<Longrightarrow> gate_throttled env s = Some (Inr (), s1) \<Longrightarrow>
      gate_wait env ctx s1 = Some (Inl w, s2) \<Longrightarrow> Q x s (Inl e, s2)"
    and again: "\<And>x s s1 s2 x' s3 y. rejected_attempt x \<Longrightarrow> gate_throttled env s = Some (Inr (), s1) \<Longrightarrow>
      gate_wait env ctx s1 = Some (Inr (), s2) \<Longrightarrow> vcdCallAttempt env ctx desc fn restore s2 = Some (Inr x', s3) \<Longrightarrow>
      Q x' s3 y \<Longrightarrow> Q x s y"
  shows "Q x s y"
proof -
  have "env = env \<and> ctx = ctx \<and> desc = desc \<and> fn = fn \<and> restore = restore \<longrightarrow> Q x s y"
  proof (rule vcdCall_limited_induct [where P = "\<lambda>env' ctx' desc' fn' restore' x s y.
      env' = env \<and> ctx' = ctx \<and> desc' = desc \<and> fn' = fn \<and> restore' = restore \<longrightarrow> Q x s y", OF _ assms(1)], intro impI, goal_cases)
    case (1 f env' ctx' desc' fn' restore' x s y)
    then have eqs: "env' = env" "ctx' = ctx" "desc' = desc" "fn' = fn" "restore' = restore" by simp_all
    show ?case
    proof (cases "rejected_attempt x \<and> gate s \<noteq> None")
      case True
      then obtain e where e: "fst x = Inl e" "isOperationLimitError (Some e)" "gate s \<noteq> None"
        by (auto simp: rejected_attempt_def split: sum.splits)
      obtain s1 where s1: "gate_throttled env s = Some (Inr (), s1)" by (rule gate_throttled_returns)
      obtain b s2 where s2: "gate_wait env ctx s1 = Some (b, s2)"
        using 1(2) e s1 unfolding eqs by (auto simp: chk_def attempt_def get_def split: option.splits)
      show ?thesis
      proof (cases b)
        case (Inl w)
        then have "\<exists>e. y = (Inl e, s2)" using 1(2) e s1 s2 unfolding eqs by (auto simp: chk_def attempt_def get_def raise_def)
        then show ?thesis using stopped True s1 s2 Inl by blast
      next
        case (Inr w)
        then obtain c s3 where c: "vcdCallAttempt env ctx desc fn restore s2 = Some (c, s3)"
          using 1(2) e s1 s2 unfolding eqs by (auto simp: chk_def attempt_def get_def split: option.splits)
        then obtain x' where x': "c = Inr x'" using vcdCallAttempt_returns by blast
        then have "f env ctx desc fn restore x' s3 = Some y"
          using 1(2) e s1 s2 Inr c unfolding eqs by (simp add: chk_def attempt_def get_def)
        then have "Q x' s3 y" using 1(1) by simp
        then show ?thesis using again [OF _ s1] True s2 Inr c x' by simp
      qed
    next
      case False
      then have "y = (Inr x, s)" using 1(2)
        by (auto simp: rejected_attempt_def chk_def attempt_def get_def ret_def split: sum.splits)
      then show ?thesis using ended by simp
    qed
  qed
  then show ?thesis by simp
qed

lemma obeys_effects: "obeys (\<lambda>s t. effects k t = effects k s) m \<Longrightarrow> m s = Some (r, t) \<Longrightarrow> effects k t = effects k s"
  by (rule obeysD)

lemma attempt_once:
  assumes fn: "once k n desc fn" and rb: "counted.undoes k restore"
    and x: "vcdCallAttempt env ctx desc fn restore s = Some (r, t)"
  shows "\<exists>x. r = Inr x \<and> effects k t \<le> effects k s + n \<and> (rejected_attempt x \<longrightarrow> effects k t = effects k s)"
proof -
  obtain a s1 where a: "lockSession env ctx s = Some (a, s1)"
    using x by (auto simp: vcdCallAttempt_def attempt_def split: option.splits)
  have s1: "effects k s1 = effects k s" by (rule obeys_effects [OF counted.session_obeys(5) a])
  show ?thesis
  proof (cases a)
    case (Inr g)
    then obtain b s2 where b: "fn s1 = Some (b, s2)"
      using x a by (auto simp: vcdCallAttempt_def attempt_def split: option.splits)
    have "effects k s2 \<le> effects k s1 + n" "limit_rejection desc b \<longrightarrow> effects k s2 = effects k s1"
      using fn b by (auto simp: once_def)
    then show ?thesis
      using x a Inr b s1 counted.rollback [OF rb, of s2]
      by (cases b) (auto simp: vcdCallAttempt_def attempt_def chk_def ret_def modify_def rejected_attempt_def limit_rejection_def)
  qed (use x a s1 in \<open>auto simp: vcdCallAttempt_def attempt_def ret_def\<close>)
qed

lemma limited_once:
  assumes fn: "once k n desc fn" "counted.undoes k restore"
    and run: "vcdCall_limited env ctx desc fn restore x s = Some (r, t)"
  shows "effects k t \<le> effects k s + (if rejected_attempt x then n else 0)"
proof -
  have waited: "effects k s2 = effects k s"
    if "gate_throttled env s = Some (a, s1)" "gate_wait env ctx s1 = Some (b, s2)" for s s1 s2 a b
    using obeys_effects [OF counted.gate_throttled_obeys that(1)] obeys_effects [OF counted.gate_wait_obeys that(2)] by simp
  have "effects k (snd (r, t)) \<le> effects k s + (if rejected_attempt x then n else 0)"
    using run
  proof (induction rule: limited_rule)
    case (again x s s1 s2 x' s3 y)
    then show ?case using waited [OF again(2,3)] attempt_once [OF fn again(4)] by (auto split: if_splits)
  qed (auto dest: waited)
  then show ?thesis by simp
qed

lemma op_once:
  assumes fn: "once k n desc fn" and rb: "counted.undoes k restore"
  shows "adds k n (vcdCall_op env ctx desc fn False restore)"
  unfolding adds_def
proof (intro allI impI)
  fix s r t
  assume op: "vcdCall_op env ctx desc fn False restore s = Some (r, t)"
  then obtain a s1 where s1: "vcdCallAttempt env ctx desc fn restore s = Some (a, s1)"
    by (auto simp: vcdCall_op_def chk_def attempt_def split: option.splits)
  obtain x where x: "a = Inr x" "effects k s1 \<le> effects k s + n" "rejected_attempt x \<longrightarrow> effects k s1 = effects k s"
    using attempt_once [OF fn rb s1] by blast
  then obtain b s2 where s2: "vcdCall_limited env ctx desc fn restore x s1 = Some (b, s2)"
    using op s1 by (auto simp: vcdCall_op_def chk_def attempt_def split: option.splits)
  have le: "effects k s2 \<le> effects k s + n"
    using limited_once [OF fn rb s2] x by (auto split: if_splits)
  let ?rest = "\<lambda>(res, generation). case res of
       Inr v \<Rightarrow> vcdCall_finish res
     | Inl opErr \<Rightarrow>
         if isUnauthorizedError (Some opErr) then
           attempt (refreshSession env ctx generation) (\<lambda>r. case r of
             Inl authErr \<Rightarrow>
               raise (Fail (Errorf (Error opErr @ ''; session renewal failed: '' @ Error (recovered desc authErr)) [opErr]))
           | Inr _ \<Rightarrow> vcdCall_finish res)
         else vcdCall_finish res"
  have "obeys (\<lambda>s t. effects k t = effects k s) (?rest y)" for y
    unfolding vcdCall_finish_def by (intro obeys_intros counted.basic counted.attempt_obeys counted.session_obeys)
  moreover have "(case b of Inl e \<Rightarrow> raise e | Inr y \<Rightarrow> ?rest y) s2 = Some (r, t)"
    using op [unfolded vcdCall_op_def if_False] s1 s2 x(1) by (simp add: chk_def attempt_def)
  ultimately have "effects k t = effects k s2" by (cases b) (auto simp: raise_def obeys_def)
  then show "effects k t \<le> effects k s + n" using le by simp
qed

lemma single_once:
  "once k n desc fn \<Longrightarrow> counted.undoes k restore \<Longrightarrow> adds k n (singleVCDCall env ctx desc fn restore)"
  unfolding singleVCDCall_def vcdCall_def Let_def by (simp add: op_once)

lemma perform_once:
  "(\<And>h. kind_of (method h) = Some k) \<Longrightarrow> once k 1 (single_desc k) (perform_vapp env method)"
  by (auto simp: once_def perform_vapp_def Let_def)

lemma once_other: "obeys (\<lambda>s t. effects k t = effects k s) fn \<Longrightarrow> once k n desc fn"
  by (auto simp: once_def obeys_def)

lemma single_vapp_adds:
  assumes "\<And>h. kind_of (method h) = Some j"
  shows "adds k (of_bool (j = k)) (single_vapp env ctx (single_desc j) method)"
proof -
  have "once k (of_bool (j = k)) (single_desc j) (perform_vapp env method)"
  proof (cases "j = k")
    case False
    then have "obeys (\<lambda>s t. effects k t = effects k s) (perform_vapp env method)"
      using assms by (intro counted.perform_object_obeys) simp
    then show ?thesis by (rule once_other)
  qed (use perform_once [where k = k and env = env] assms in simp)
  then have "adds k (of_bool (j = k)) (singleVCDCall env ctx (single_desc j) (perform_vapp env method) [preserveVApp s])" for s
    by (rule single_once) (rule counted.undoes_Nil counted.undoes_object)
  then show ?thesis by (simp add: adds_def single_vapp_def)
qed

lemma createRawVApp_adds:
  assumes doc: "retry_documented env"
  shows "adds k (of_bool (k = Composing)) (createRawVApp env ctx href name description)"
proof -
  have "once k (of_bool (k = Composing)) ''CreateRawVApp'' (composeVApp env href name description)"
  proof (cases "k = Composing")
    case True
    then show ?thesis
      by (auto simp: composeVApp_def once_def raise_def perform_def Let_def split: sum.splits prod.splits)
  next
    case False
    then have "obeys (\<lambda>s t. effects k t = effects k s) (composeVApp env href name description)"
      unfolding composeVApp_def by (intro obeys_intros counted.basic counted.perform_obeys) auto
    then show ?thesis by (rule once_other)
  qed
  then have a: "adds k (of_bool (k = Composing))
      (singleVCDCall env ctx ''CreateRawVApp'' (composeVApp env href name description) [])"
    by (rule single_once) (rule counted.undoes_Nil counted.undoes_object)
  have b: "adds k 0 (case r of Inr v \<Rightarrow> ret (vapp_of v) | Inl (Panic p) \<Rightarrow> raise (Panic p)
       | Inl (Fail createErr) \<Rightarrow> createRawVApp_recover env ctx name createErr)" for r
    by (intro obeys_adds obeys_intros counted.basic counted.create_steps_obey doc)
  have c: "adds k 0 (chk (modify (\<lambda>s. s\<lparr>vapp := p\<rparr>)) (\<lambda>_.
     chk (case vapp_Tasks p of None \<Rightarrow> ret () | Some ts \<Rightarrow> waitTasks env ctx ts) (\<lambda>_.
     chk (safe_vapp env ctx ''Refresh vApp(create)'' RefreshVApp) (\<lambda>_.
     chk (get (\<lambda>s. hasVM (VApp.truncate (vapp s)))) (\<lambda>filled.
     if filled then raise (Fail (errors_New (''recovered vApp '' @ quoted name @ '' is not empty'')))
     else ret ())))))" for p
    by (intro obeys_adds obeys_intros counted.basic counted.chk_obeys counted.object_modify counted.waitTasks_obeys
        counted.object_calls_obey doc) simp
  show ?thesis unfolding createRawVApp_def using adds_chk [OF adds_attempt [OF a b] c] by simp
qed

lemma adds_split:
  "(\<And>v. adds k n (f v)) \<Longrightarrow> (\<And>v. adds k n (g v)) \<Longrightarrow> adds k n (case x of Inl v \<Rightarrow> f v | Inr v \<Rightarrow> g v)"
  "(\<And>v. adds k n (q v)) \<Longrightarrow> (\<And>v. adds k n (q' v)) \<Longrightarrow> adds k n (case e of Fail v \<Rightarrow> q v | Panic v \<Rightarrow> q' v)"
  "adds k n (raise exn)"
  by (auto simp: adds_def raise_def split: sum.split exn.split)

lemma adds_mono: "adds k n m \<Longrightarrow> n \<le> n' \<Longrightarrow> adds k n' m"
  by (fastforce simp: adds_def)

lemma create_named_adds:
  assumes doc: "retry_documented env"
  shows "adds k 1 (create_named env ctx href name)"
proof -
  note R = counted.basic counted.chk_obeys counted.attempt_obeys counted.object_calls_obey counted.configure_obeys
    counted.create_steps_obey counted.lookups_obey
  have v: "adds k (of_bool (k = Composing) + (0 + (of_bool (AddingNetwork = k) + 0))) (create_vapp env ctx href name)"
    unfolding create_vapp_def
    by (intro adds_chk createRawVApp_adds [OF doc] obeys_adds [OF counted.object_calls_obey(1)]
        single_vapp_adds [where j = AddingNetwork, unfolded single_desc.simps]
        obeys_adds [OF counted.configure_obeys(1)] doc) simp_all
  have w: "adds k (0 + (0 + (of_bool (AddingVM = k) + 0))) (create_vm env ctx name)"
    unfolding create_vm_def
    by (intro adds_chk adds_attempt adds_split single_vapp_adds [where j = AddingVM, unfolded single_desc.simps]
        obeys_adds [OF counted.basic(5)] obeys_adds [OF counted.lookups_obey(3)]
        obeys_adds [OF counted.chk_obeys] obeys_intros R doc) simp_all
  have "adds k (of_bool (k = Composing) + (0 + (of_bool (AddingNetwork = k) + 0)) + ((0 + (0 + (of_bool (AddingVM = k) + 0))) + 0))
      (create_named env ctx href name)"
    unfolding create_named_def
    by (intro adds_chk v w obeys_adds [OF counted.chk_obeys] R doc)
  then show ?thesis by (rule adds_mono) (cases k; simp)
qed

section \<open>The names of creates\<close>

interpretation names: call_frame "\<lambda>s t. cleanups t = cleanups s \<and> inflight t = inflight s" "\<lambda>_. True"
  by unfold_locales (simp_all add: log_event_def)

text \<open>The ways a create ends: before it has a name, with a result, or after it has a name.\<close>

lemma createInstance_cases:
  assumes "createInstance env ctx s = Some (r, t)"
  obtains e where "r = Inl (Fail e)" and
      "attempt (chk (create_prepare env ctx) (\<lambda>href. chk (create_name env) (\<lambda>name. ret (href, name)))) (\<lambda>_. ret ()) s = Some (Inr (), t)"
  | href name s1 v where "chk (create_prepare env ctx) (\<lambda>href. chk (create_name env) (\<lambda>name. ret (href, name))) s = Some (Inr (href, name), s1)"
      and "create_named env ctx href name (s1\<lparr>inflight := name # inflight s1\<rparr>) = Some (Inr v, t)" and "r = Inr v"
  | href name s1 s2 e now where "chk (create_prepare env ctx) (\<lambda>href. chk (create_name env) (\<lambda>name. ret (href, name))) s = Some (Inr (href, name), s1)"
      and "create_named env ctx href name (s1\<lparr>inflight := name # inflight s1\<rparr>) = Some (Inl e, s2)"
      and "r = Inl (Fail (recovered ''createInstance'' e))"
      and "t = (log_event ReadClock s2)\<lparr>cleanups := LoadOrStore name now (cleanups s2), inflight := removeAll name (inflight s2)\<rparr>"
proof -
  let ?pre = "chk (create_prepare env ctx) (\<lambda>href. chk (create_name env) (\<lambda>name. ret (href, name)))"
  obtain a s1 where a: "?pre s = Some (a, s1)"
    using assms by (auto simp: createInstance_def attempt_def split: option.splits)
  show thesis
  proof (cases a)
    case (Inl e)
    then show thesis using that(1) assms a by (auto simp: createInstance_def attempt_def raise_def ret_def)
  next
    case (Inr x)
    obtain href name where x: "x = (href, name)" by fastforce
    let ?s = "s1\<lparr>inflight := name # inflight s1\<rparr>"
    obtain b s2 where b: "create_named env ctx href name ?s = Some (b, s2)"
      using assms a Inr x by (auto simp: createInstance_def chk_def [of "modify _"] modify_def attempt_def split: option.splits)
    have pre: "?pre s = Some (Inr (href, name), s1)" using a Inr x by simp
    have rest: "(case b of Inr result \<Rightarrow> ret result | Inl e \<Rightarrow> create_handover env name e) s2 = Some (r, t)"
      using assms a Inr x b by (simp add: createInstance_def chk_def [of "modify _"] modify_def attempt_def)
    show thesis
    proof (cases b)
      case (Inr v)
      then show thesis using that(2) pre b rest by (auto simp: ret_def)
    next
      case (Inl e)
      then have "r = Inl (Fail (recovered ''createInstance'' e))"
        "t = (log_event ReadClock s2)\<lparr>cleanups := LoadOrStore name (clock env (history s2)) (cleanups s2),
             inflight := removeAll name (inflight s2)\<rparr>"
        using rest by (auto simp: create_handover_def chk_def attempt_def time_Now_def modify_def raise_def log_event_def)
      then show thesis using that(3) pre b Inl by blast
    qed
  qed
qed

lemma prepare_obeys:
  assumes "retry_documented env"
  shows "obeys (\<lambda>s t. effects k t = effects k s)
      (chk (create_prepare env ctx) (\<lambda>href. chk (create_name env) (\<lambda>name. ret (href, name))))"
    and "obeys (\<lambda>s t. cleanups t = cleanups s \<and> inflight t = inflight s)
      (chk (create_prepare env ctx) (\<lambda>href. chk (create_name env) (\<lambda>name. ret (href, name))))"
  by (intro counted.chk_obeys counted.lookups_obey counted.questions counted.basic assms)
    (intro names.chk_obeys names.lookups_obey names.questions names.basic assms)

lemma attempt_ignore: "obeys R m \<Longrightarrow> attempt m (\<lambda>_. ret ()) s = Some (r, t) \<Longrightarrow> R s t"
  by (auto simp: attempt_def ret_def obeys_def split: option.splits)

text \<open>
  C2: one create never has more than one request that may have composed a vApp, attached the network or
  added the VM: a request is only sent again after vCD rejected it for its operation limit, before it did
  anything, however the calls, the session renewals and the recovery end.
\<close>

theorem create_never_repeats:
  assumes "retry_documented env" and "createInstance env ctx s = Some (r, t)"
  shows "effects k t \<le> effects k s + 1"
  using assms(2)
proof (cases rule: createInstance_cases)
  case (1 e)
  then show ?thesis using attempt_ignore [OF prepare_obeys(1) [OF assms(1)]] by fastforce
next
  case (2 href name s1 v)
  then show ?thesis
    using create_named_adds [OF assms(1), of k ctx href name] obeysD [OF prepare_obeys(1) [OF assms(1), where k = k] 2(1)]
    by (fastforce simp: adds_def)
next
  case (3 href name s1 s2 e now)
  then have "effects k s2 \<le> effects k s1 + 1"
    using create_named_adds [OF assms(1), of k ctx href name] by (fastforce simp: adds_def)
  then show ?thesis
    using 3(4) obeysD [OF prepare_obeys(1) [OF assms(1), where k = k] 3(1)] by simp
qed

text \<open>In the create of the demonstration one request of each kind is sent.\<close>

theorem create_never_repeats_witness:
  "\<exists>v t. createInstance (demo_env ''DHCP'') GivenContext demo_start = Some (Inr v, t) \<and> effects Composing t \<le> 1"
proof -
  obtain v t where run: "createInstance (demo_env ''DHCP'') GivenContext demo_start = Some (Inr v, t)"
    using demo_create by blast
  moreover have "effects Composing t \<le> effects Composing demo_start + 1"
    by (rule create_never_repeats [OF demo_env_documented run])
  ultimately show ?thesis by (auto simp: demo_start_def st_def effects_def)
qed

section \<open>What a result rests on\<close>

text \<open>The record of events only grows.\<close>

interpretation grows: call_frame "\<lambda>s t. suffix (history s) (history t)" "\<lambda>_. True"
  by unfold_locales (auto simp: log_event_def suffix_def)

abbreviation growing :: "('b gstate, 'a) comp \<Rightarrow> bool" where
  "growing \<equiv> obeys (\<lambda>s t. suffix (history s) (history t))"

text \<open>A value comes from a run of the function the call was given, after which nothing else happened.\<close>

definition from_run :: "('b gstate, 'a) comp \<Rightarrow> 'b gstate \<Rightarrow> 'a \<Rightarrow> 'b gstate \<Rightarrow> bool" where
  "from_run fn s v t \<longleftrightarrow> (\<exists>u. suffix (history s) (history u) \<and> fn u = Some (Inr v, t))"

lemma from_run_later: "from_run fn u v t \<Longrightarrow> suffix (history s) (history u) \<Longrightarrow> from_run fn s v t"
  unfolding from_run_def by (meson suffix_order.trans)

lemma attempt_value:
  assumes "vcdCallAttempt env ctx desc fn restore s = Some (Inr (Inr v, g), t)"
  shows "from_run fn s v t"
proof -
  obtain a u where a: "lockSession env ctx s = Some (a, u)"
    using assms by (auto simp: vcdCallAttempt_def attempt_def split: option.splits)
  then have "suffix (history s) (history u)" using grows.session_obeys(5) by (rule obeysD [rotated])
  moreover have "fn u = Some (Inr v, t)"
    using assms a
    by (auto simp: vcdCallAttempt_def attempt_def chk_def ret_def modify_def split: option.splits sum.splits)
  ultimately show ?thesis by (auto simp: from_run_def)
qed

lemma attempt_grows: "growing fn \<Longrightarrow> grows.undoes restore \<Longrightarrow> growing (vcdCallAttempt env ctx desc fn restore)"
  by (rule grows.vcdCallAttempt_obeys)

lemma limited_value:
  assumes fn: "growing fn" "grows.undoes restore"
    and run: "vcdCall_limited env ctx desc fn restore x s = Some (Inr (Inr v, g), t)"
  shows "fst x = Inr v \<and> t = s \<or> from_run fn s v t"
proof -
  have "y = (Inr (Inr v, g), t) \<longrightarrow> fst x = Inr v \<and> t = s \<or> from_run fn s v t"
    if "vcdCall_limited env ctx desc fn restore x s = Some y" for y
    using that
  proof (induction rule: limited_rule)
    case (again x s s1 s2 x' s3 y)
    have s: "suffix (history s) (history s2)"
      using obeysD [OF grows.gate_throttled_obeys again(2)] obeysD [OF grows.gate_wait_obeys again(3)] suffix_order.trans by blast
    have s': "suffix (history s2) (history s3)" using obeysD [OF attempt_grows [OF fn] again(4)] .
    have new: "from_run fn s2 v t" if "fst x' = Inr v \<and> t = s3"
      using that again(4) attempt_value [of env ctx desc fn restore s2 v "snd x'" t] by (cases x') simp
    show ?case
    proof
      assume "y = (Inr (Inr v, g), t)"
      with again(5) have "fst x' = Inr v \<and> t = s3 \<or> from_run fn s3 v t" by (rule mp)
      then have "from_run fn s2 v t" by (elim disjE) (erule new, erule from_run_later [OF _ s'])
      then show "fst x = Inr v \<and> t = s \<or> from_run fn s v t" by (intro disjI2 from_run_later [OF _ s])
    qed
  qed simp_all
  then show ?thesis using run by simp
qed

lemma finish_value: "vcdCall_finish r s = Some (Inr v, t) \<longleftrightarrow> r = Inr v \<and> t = s"
  by (auto simp: vcdCall_finish_def ret_def raise_def split: sum.splits if_splits)

lemma op_value:
  assumes fn: "growing fn" "grows.undoes restore"
    and op: "vcdCall_op env ctx desc fn retry restore s = Some (Inr v, t)"
  shows "from_run fn s v t"
proof -
  obtain x s1 where s1: "vcdCallAttempt env ctx desc fn restore s = Some (Inr x, s1)"
    using op by (auto simp: vcdCall_op_def chk_def attempt_def raise_def split: option.splits sum.splits)
  obtain res g s2 where s2: "vcdCall_limited env ctx desc fn restore x s1 = Some (Inr (res, g), s2)"
    using op s1 by (fastforce simp: vcdCall_op_def chk_def attempt_def raise_def split: option.splits sum.splits)
  have h1: "suffix (history s) (history s1)" using obeysD [OF attempt_grows [OF fn] s1] .
  have h2: "suffix (history s1) (history s2)" using obeysD [OF grows.vcdCall_limited_obeys [OF fn] s2] .
  show ?thesis
  proof (cases res)
    case (Inr w)
    then have "w = v" "t = s2" using op s1 s2 by (simp_all add: vcdCall_op_def chk_def attempt_def finish_value)
    then have "fst x = Inr v \<and> t = s1 \<or> from_run fn s1 v t" using limited_value [OF fn] s2 Inr by blast
    then show ?thesis
    proof
      assume "fst x = Inr v \<and> t = s1"
      then have "vcdCallAttempt env ctx desc fn restore s = Some (Inr (Inr v, snd x), t)" using s1 by (cases x) simp
      then show ?thesis by (rule attempt_value)
    qed (rule from_run_later [OF _ h1])
  next
    case (Inl e)
    have u: "isUnauthorizedError (Some e)"
      using op s1 s2 Inl by (cases "isUnauthorizedError (Some e)") (simp_all add: vcdCall_op_def chk_def attempt_def finish_value)
    have run: "attempt (refreshSession env ctx g) (\<lambda>r. case r of
             Inl authErr \<Rightarrow>
               raise (Fail (Errorf (Error e @ ''; session renewal failed: '' @ Error (recovered desc authErr)) [e]))
           | Inr _ \<Rightarrow>
               if retry then chk (vcdCallAttempt env ctx desc fn restore) (\<lambda>(res, _). vcdCall_finish res)
               else vcdCall_finish (Inl e)) s2 = Some (Inr v, t)"
      using op u by (simp only: Inl vcdCall_op_def prod.case sum.case if_True chk_step [where m = "vcdCallAttempt env ctx desc fn restore", OF s1]
        chk_step [where m = "vcdCall_limited env ctx desc fn restore x", OF s2 [unfolded Inl]])
    then obtain b s3 where s3: "refreshSession env ctx g s2 = Some (Inr b, s3)"
      by (auto simp: attempt_def raise_def split: option.splits sum.splits)
    then have retry: "(if retry then chk (vcdCallAttempt env ctx desc fn restore) (\<lambda>(res, _). vcdCall_finish res)
        else vcdCall_finish (Inl e)) s3 = Some (Inr v, t)"
      using run by (simp add: attempt_def split del: if_split)
    have h3: "suffix (history s2) (history s3)" using obeysD [OF grows.session_obeys(6) s3] .
    obtain g' where "vcdCallAttempt env ctx desc fn restore s3 = Some (Inr (Inr v, g'), t)"
      using retry Inl by (fastforce simp: chk_def attempt_def finish_value raise_def split: if_splits option.splits sum.splits)
    then have "from_run fn s3 v t" by (rule attempt_value)
    then show ?thesis using h1 h2 h3 by (meson from_run_later suffix_order.trans)
  qed
qed

lemma retries_value:
  "retries op s r t \<Longrightarrow> growing op \<Longrightarrow> r = Inr v \<Longrightarrow> \<exists>u. suffix (history s) (history u) \<and> op u = Some (Inr v, t)"
proof (induction rule: retries.induct)
  case (again s e t u r w)
  then obtain x where x: "suffix (history u) (history x)" "op x = Some (Inr v, w)" by blast
  have "suffix (history s) (history u)"
    using obeysD [OF again.prems(1) again.hyps(1)] grows.idle_obeys [OF again.hyps(3)] suffix_order.trans by blast
  then show ?case using x suffix_order.trans by blast
qed auto

lemma safe_value:
  assumes doc: "retry_documented env" and fn: "growing fn" "grows.undoes restore"
    and call: "safeVCDCall env ctx desc fn restore s = Some (Inr v, t)"
  shows "from_run fn s v t"
proof -
  let ?op = "vcdCall_op env ctx desc fn True restore"
  have "retries ?op s (Inr v) t"
    using doc call by (auto simp: safeVCDCall_def vcdCall_def retry_documented_def)
  then obtain u where u: "suffix (history s) (history u)" "?op u = Some (Inr v, t)"
    using retries_value [OF _ grows.vcdCall_op_obeys [OF fn] HOL.refl] by blast
  show ?thesis by (rule from_run_later [OF op_value [OF fn u(2)] u(1)])
qed

lemma single_value:
  assumes "growing fn" "grows.undoes restore" and "singleVCDCall env ctx desc fn restore s = Some (Inr v, t)"
  shows "from_run fn s v t"
  using op_value [OF assms(1,2)] assms(3) by (simp add: singleVCDCall_def vcdCall_def)

text \<open>An event between two states.\<close>

definition since :: "'b gstate \<Rightarrow> 'b gstate \<Rightarrow> event \<Rightarrow> bool" where
  "since s t e \<longleftrightarrow> (\<exists>new. history t = new @ history s \<and> e \<in> set new)"

lemma since_earlier: "since u t e \<Longrightarrow> suffix (history s) (history u) \<Longrightarrow> since s t e"
  by (auto simp: since_def suffix_def)

lemma since_later: "since s u e \<Longrightarrow> suffix (history u) (history t) \<Longrightarrow> since s t e"
  by (auto simp: since_def suffix_def)

lemma since_request: "suffix (history s) (history u) \<Longrightarrow> history t = Request q a # history u \<Longrightarrow> since s t (Request q a)"
  by (auto simp: since_def suffix_def)

lemma since_chk:
  assumes "chk m k s = Some (Inr v, t)" and "growing m" and "\<And>w u. k w u = Some (Inr v, t) \<Longrightarrow> since u t e"
  shows "since s t e"
  using assms by (elim chk_value) (meson obeysD since_earlier)

lemma since_chk_first:
  assumes "chk m k s = Some (Inr v, t)" and "\<And>w u. m s = Some (Inr w, u) \<Longrightarrow> since s u e" and "\<And>w. growing (k w)"
  shows "since s t e"
  using assms by (elim chk_value) (meson obeysD since_later)

lemmas growing_intros = obeys_intros grows.basic grows.attempt_obeys grows.chk_obeys grows.questions grows.object_modify
  grows.perform_obeys grows.perform_object_obeys grows.undoes_Nil grows.undoes_object grows.session_obeys
  grows.calls_obey grows.object_calls_obey grows.waitTaskCompletion_loop_obeys grows.configure_obeys
  grows.lookups_obey grows.create_steps_obey grows.waitTasks_obeys grows.delete_obeys grows.retry_obeys
  grows.createRawVApp_obeys grows.waitForSSHReadiness_loop_obeys

lemma object_call_value:
  assumes doc: "retry_documented env"
  shows "safe_vapp env ctx desc method s = Some (Inr v, t) \<Longrightarrow> \<exists>h. since s t (Request (method h) (Inr v))"
    and "single_vapp env ctx desc method s = Some (Inr v, t) \<Longrightarrow> \<exists>h. since s t (Request (method h) (Inr v))"
    and "safe_vm env ctx desc method s = Some (Inr v, t) \<Longrightarrow> \<exists>h. since s t (Request (method h) (Inr v))"
proof -
  have run: "\<exists>h. since s t (Request (method h) (Inr v))"
    if "from_run (perform_vapp env method) s v t \<or> from_run (perform_vm env method) s v t"
    using that by (auto simp: from_run_def perform_vapp_def perform_vm_def Let_def log_event_def intro!: since_request)
  show "\<exists>h. since s t (Request (method h) (Inr v))" if "safe_vapp env ctx desc method s = Some (Inr v, t)"
    by (rule run, rule disjI1, rule safe_value [OF doc _ _ that [unfolded safe_vapp_def]]) (intro growing_intros TrueI)+
  show "\<exists>h. since s t (Request (method h) (Inr v))" if "single_vapp env ctx desc method s = Some (Inr v, t)"
    by (rule run, rule disjI1, rule single_value [OF _ _ that [unfolded single_vapp_def]]) (intro growing_intros TrueI)+
  show "\<exists>h. since s t (Request (method h) (Inr v))" if "safe_vm env ctx desc method s = Some (Inr v, t)"
    by (rule run, rule disjI2, rule safe_value [OF doc _ _ that [unfolded safe_vm_def]]) (intro growing_intros TrueI)+
qed

text \<open>A task wait that returns nil has seen the task succeed.\<close>

lemma waitTask_loop_value:
  "waitTaskCompletion_loop env ctx s = Some (Inr v, t) \<Longrightarrow> task_Status (task t) = ''success''"
proof -
  assume "waitTaskCompletion_loop env ctx s = Some (Inr v, t)"
  then have "isl (fst (Inr v :: exn + unit, t)) \<or> task_Status (task (snd (Inr v :: exn + unit, t))) = ''success''"
  proof (rule waitTaskCompletion_loop.raw_induct
      [where P = "\<lambda>env ctx s y. isl (fst y) \<or> task_Status (task (snd y)) = ''success''", rotated], goal_cases)
    case (1 f env ctx s y)
    show ?case
    proof (cases y)
      case (Pair r u)
      show ?thesis
      proof (cases r)
        case (Inr w)
        then obtain a s1 where "safeVCDCallVoid env ctx ''Refresh task'' (perform_task env RefreshTask) [] s = Some (Inr a, s1)"
          and rest: "chk (get task) (\<lambda>t s.
             if task_Status t = ''success'' then ret () s
             else if task_running (task_Status t) then chk (sleepContext env ctx (3 * second)) (\<lambda>_. f env ctx) s
             else raise (Fail (errors_New (''task '' @ task_HREF t @ '' ended with status '' @ task_Status t @ '': '' @ task_Error t))) s) s1
             = Some (Inr w, u)"
          using 1(2) Pair by (auto elim: chk_value)
        then show ?thesis
          using 1(1) [where y = y] Pair Inr
          by (auto simp: chk_def [of "get _"] attempt_def get_def ret_def raise_def elim!: chk_value split: if_splits)
      qed (simp add: Pair)
    qed
  qed
  then show ?thesis by simp
qed

lemma waitTask_value: "waitTaskCompletion env ctx k s = Some (Inr v, t) \<Longrightarrow> task_Status (task t) = ''success''"
  by (auto simp: waitTaskCompletion_def elim!: chk_value dest: waitTask_loop_value)

end
