(* ===== verification/Create_Props.thy ===== *)
theory Create_Props
  imports Vcd_Props
begin

text \<open>
  What the reconciler may rely on when \<^verbatim>\<open>createInstance\<close> and \<^verbatim>\<open>deleteInstance\<close> return: what a created
  instance was checked for, who owns the vApp of a failed create, and when a deletion counts as done.
\<close>

section \<open>Creates that succeed\<close>

lemma ssh_loop_value:
  "waitForSSHReadiness_loop env ctx addr username s = Some (Inr v, t) \<Longrightarrow>
     \<exists>a. since s t (Request (NewClientConn addr username) (Inr a))"
proof -
  assume "waitForSSHReadiness_loop env ctx addr username s = Some (Inr v, t)"
  then have "isl (fst (Inr v :: exn + unit, t)) \<or>
      (\<exists>a. since s (snd (Inr v :: exn + unit, t)) (Request (NewClientConn addr username) (Inr a)))"
  proof (rule waitForSSHReadiness_loop.raw_induct [where P = "\<lambda>env ctx addr username s (y :: (exn + unit) \<times> _).
     isl (fst y) \<or> (\<exists>a. since s (snd y) (Request (NewClientConn addr username) (Inr a)))", rotated], goal_cases)
    case (1 f env ctx addr username s y)
    obtain r u where y: "y = (r, u)" by fastforce
    let ?dial = "chk (perform env (DialContext addr)) (\<lambda>_. perform env (NewClientConn addr username))"
    obtain b s1 where b: "?dial s = Some (b, s1)"
      using 1(2) by (auto elim: attempt_value_of)
    have g: "growing ?dial" by (intro growing_intros TrueI)
    show ?case
    proof (cases b)
      case (Inr a)
      then have "since s s1 (Request (NewClientConn addr username) (Inr a))"
        using b by (auto simp: perform_def Let_def log_event_def since_def elim!: chk_value)
      moreover have "u = s1" using 1(2) y Inr by (simp add: attempt_step [where m = ?dial, OF b] ret_def)
      ultimately show ?thesis using y by auto
    next
      case (Inl ex)
      show ?thesis
      proof (cases ex)
        case (Fail e)
        obtain c s2 where c: "sleepContext env ctx sshReadinessRetryInterval s1 = Some (c, s2)"
          by (simp add: sleepContext_def Let_def)
        show ?thesis
        proof (cases c)
          case (Inr w)
          then have "f env ctx addr username s2 = Some y"
            using 1(2) b c Fail Inl by (simp add: attempt_def)
          then have "isl r \<or> (\<exists>a. since s2 u (Request (NewClientConn addr username) (Inr a)))" using 1(1) y by fastforce
          moreover have "suffix (history s) (history s2)"
            using obeysD [OF g b] c by (auto simp: sleepContext_def Let_def log_event_def suffix_def)
          ultimately show ?thesis using y since_earlier by fastforce
        qed (use 1(2) b c y Fail Inl in \<open>auto simp: attempt_def raise_def\<close>)
      qed (use 1(2) b y Inl in \<open>auto simp: attempt_def raise_def\<close>)
    qed
  qed
  then show ?thesis by simp
qed

lemma waitForSSHReadiness_value:
  assumes "waitForSSHReadiness env ctx ip s = Some (Inr v, t)"
    and "Password (settings (ig env)) \<noteq> [] \<or> Key (settings (ig env)) \<noteq> None"
  shows "\<exists>a. since s t (Request (NewClientConn (ssh_addr (ig env) ip) (ssh_username (ig env))) (Inr a))"
proof -
  obtain start u where u: "time_Now env s = Some (Inr start, u)" and loop:
    "waitForSSHReadiness_loop env (WithTimeout ctx sshReadinessTimeout start) (ssh_addr (ig env) ip) (ssh_username (ig env)) u = Some (Inr v, t)"
    using assms by (auto simp: waitForSSHReadiness_def Let_def raise_def split: option.splits if_splits elim!: chk_value)
  have "suffix (history s) (history u)" by (rule obeysD [OF grows.questions(1) u])
  then show ?thesis using ssh_loop_value [OF loop] since_earlier by blast
qed

text \<open>What \<^verbatim>\<open>createInstance\<close> has checked when it returns a result.\<close>

definition tagged :: "('b, 'u) env \<Rightarrow> 'b gstate \<Rightarrow> 'b gstate \<Rightarrow> bool" where
  "tagged env s t \<longleftrightarrow>
     (\<exists>h a. since s t (Request (AddMetadataEntryWithVisibility h instanceGroupMetadataKey (InstanceGroupName (ig env))) (Inr a)))"

definition powered_on :: "'b gstate \<Rightarrow> 'b gstate \<Rightarrow> bool" where
  "powered_on s t \<longleftrightarrow> (\<exists>h. since s t (Request (GetStatus h) (Inr (AString ''POWERED_ON''))))"

definition reachable_at :: "('b, 'u) env \<Rightarrow> string \<Rightarrow> 'b gstate \<Rightarrow> 'b gstate \<Rightarrow> bool" where
  "reachable_at env ip s t \<longleftrightarrow>
     (\<exists>a. since s t (Request (NewClientConn (ssh_addr (ig env) ip) (ssh_username (ig env))) (Inr a)))"

lemma checks_widen:
  assumes "suffix (history s) (history u)" and "suffix (history v) (history t)"
  shows "tagged env u v \<Longrightarrow> tagged env s t" and "powered_on u v \<Longrightarrow> powered_on s t"
    and "reachable_at env ip u v \<Longrightarrow> reachable_at env ip s t"
  unfolding tagged_def powered_on_def reachable_at_def by (meson assms since_earlier since_later)+

lemma string_of_eq: "string_of v = ''POWERED_ON'' \<Longrightarrow> v = AString ''POWERED_ON''"
  by (cases v) auto

lemma create_verify_value:
  assumes doc: "retry_documented env" and run: "create_verify env ctx ip s = Some (Inr v, t)"
  shows "powered_on s t" and "v = ip"
    and "Password (settings (ig env)) \<noteq> [] \<or> Key (settings (ig env)) \<noteq> None \<Longrightarrow> reachable_at env ip s t"
proof -
  obtain b s1 where b: "safe_vm env ctx ''GetStatus'' GetStatus s = Some (b, s1)"
    using run by (auto simp: create_verify_def elim: attempt_value_of)
  note run' = run [unfolded create_verify_def attempt_step [where m = "safe_vm env ctx ''GetStatus'' GetStatus", OF b]]
  obtain st where st: "b = Inr st" "string_of st = ''POWERED_ON''"
    using run' by (auto simp: chk_def get_def attempt_def raise_def split: sum.splits exn.splits if_splits)
  obtain c s2 where c: "waitForSSHReadiness env ctx ip s1 = Some (c, s2)"
    using run' st by (auto simp: chk_def [of "get _"] get_def attempt_def split: option.splits)
  have w: "c = Inr ()" "s2 = t" "v = ip"
    using run' st c by (auto simp: chk_def [of "get _"] get_def attempt_def raise_def ret_def split: sum.splits exn.splits)
  have g: "suffix (history s) (history s1)" "suffix (history s1) (history t)"
    using obeysD [OF grows.object_calls_obey(3) [OF doc TrueI] b] obeysD [OF grows.configure_obeys(8) [OF doc] c] w by simp_all
  obtain h where "since s s1 (Request (GetStatus h) (Inr (AString ''POWERED_ON'')))"
    using object_call_value(3) [OF doc] b st string_of_eq by blast
  then have "powered_on s s1" by (auto simp: powered_on_def)
  then show "powered_on s t" using checks_widen(2) g(2) by blast
  show "v = ip" by (rule w(3))
  assume "Password (settings (ig env)) \<noteq> [] \<or> Key (settings (ig env)) \<noteq> None"
  then show "reachable_at env ip s t"
    using waitForSSHReadiness_value [of env ctx ip s1 "()" t] c w checks_widen(3) [OF g(1), of t t]
    by (fastforce simp: reachable_at_def)
qed

lemma getPrimaryIPAddress_nonempty: "getPrimaryIPAddress v = Inr ip \<Longrightarrow> ip \<noteq> []"
  by (auto simp: getPrimaryIPAddress_def find_Some_iff split: option.splits)

lemma create_start_value:
  assumes doc: "retry_documented env" and run: "create_start env ctx s = Some (Inr ip, t)"
  shows "powered_on s t" and "ip \<noteq> []"
    and "Password (settings (ig env)) \<noteq> [] \<or> Key (settings (ig env)) \<noteq> None \<Longrightarrow> reachable_at env ip s t"
proof -
  obtain ip' tk s1 s2 where ip: "getPrimaryIPAddress (vm s) = Inr ip'"
    and s1: "safe_vm env ctx ''PowerOn'' PowerOn s = Some (Inr tk, s1)"
    and s2: "waitTaskCompletion env ctx (task_of tk) s1 = Some (Inr (), s2)"
    and v: "create_verify env ctx ip' s2 = Some (Inr ip, t)"
    using run by (auto simp: create_start_def get_def lift_err_def ret_def raise_def elim!: chk_value split: sum.splits)
  have "suffix (history s) (history s2)"
    using obeysD [OF grows.object_calls_obey(3) [OF doc TrueI] s1] obeysD [OF grows.configure_obeys(1) [OF doc] s2]
      suffix_order.trans by blast
  then show "powered_on s t" "ip \<noteq> []"
    "Password (settings (ig env)) \<noteq> [] \<or> Key (settings (ig env)) \<noteq> None \<Longrightarrow> reachable_at env ip s t"
    using create_verify_value [OF doc v] getPrimaryIPAddress_nonempty [OF ip] checks_widen [of s s2 t t] by auto
qed

lemma create_vapp_value:
  assumes doc: "retry_documented env" and run: "create_vapp env ctx href name s = Some (Inr v, t)"
  shows "tagged env s t"
proof -
  let ?tag = "\<lambda>h. AddMetadataEntryWithVisibility h instanceGroupMetadataKey (InstanceGroupName (ig env))"
  obtain a s1 b s2 c s3 where
    s1: "createRawVApp env ctx href name (''VM created by the '' @ ig_Name (ig env) @ '' GitLab Fleeting runner'') s = Some (Inr a, s1)"
    and s2: "safe_vapp env ctx ''AddMetadataEntryWithVisibility'' ?tag s1 = Some (Inr b, s2)"
    and s3: "single_vapp env ctx ''AddRAWNetworkConfig'' (\<lambda>h. AddRAWNetworkConfig h (Network (ig env))) s2 = Some (Inr c, s3)"
    and t: "waitTaskCompletion env ctx (task_of c) s3 = Some (Inr v, t)"
    using run unfolding create_vapp_def by (elim chk_value)
  have "suffix (history s) (history s1)" by (rule obeysD [OF grows.createRawVApp_obeys [OF doc TrueI] s1])
  moreover have "suffix (history s2) (history t)"
    using obeysD [OF grows.object_calls_obey(2) [OF doc TrueI] s3] obeysD [OF grows.configure_obeys(1) [OF doc] t]
      suffix_order.trans by blast
  moreover have "tagged env s1 s2" using object_call_value(1) [OF doc s2] by (auto simp: tagged_def)
  ultimately show ?thesis using checks_widen(1) by blast
qed

lemma create_named_value:
  assumes doc: "retry_documented env" and run: "create_named env ctx href name s = Some (Inr v, t)"
  shows "tagged env s t" and "powered_on s t" and "res_IPAddress v \<noteq> []" and "VAppHREF v = vapp_HREF (vapp t)"
    and "Password (settings (ig env)) \<noteq> [] \<or> Key (settings (ig env)) \<noteq> None \<Longrightarrow> reachable_at env (res_IPAddress v) s t"
proof -
  obtain a s1 b s2 c s3 ip where s1: "create_vapp env ctx href name s = Some (Inr a, s1)"
    and s2: "create_vm env ctx name s1 = Some (Inr b, s2)" and s3: "create_configure env ctx s2 = Some (Inr c, s3)"
    and t: "create_start env ctx s3 = Some (Inr ip, t)" and v: "res_IPAddress v = ip" "VAppHREF v = vapp_HREF (vapp t)"
    using run unfolding create_named_def by (elim chk_value) (auto simp: get_def)
  have g: "growing (create_vapp env ctx href name)" "growing (create_vm env ctx name)"
    unfolding create_vapp_def create_vm_def by (intro growing_intros doc TrueI)+
  have "suffix (history s) (history s1)" "suffix (history s1) (history s2)" "suffix (history s2) (history s3)"
    "suffix (history s3) (history t)"
    using obeysD [OF g(1) s1] obeysD [OF g(2) s2] obeysD [OF grows.create_steps_obey(1) [OF doc] s3]
      obeysD [OF grows.create_steps_obey(2) [OF doc] t] by simp_all
  then have "suffix (history s1) (history t)" "suffix (history s) (history s3)" using suffix_order.trans by blast+
  then show "tagged env s t" "powered_on s t" "res_IPAddress v \<noteq> []" "VAppHREF v = vapp_HREF (vapp t)"
    "Password (settings (ig env)) \<noteq> [] \<or> Key (settings (ig env)) \<noteq> None \<Longrightarrow> reachable_at env (res_IPAddress v) s t"
    using create_vapp_value [OF doc s1] create_start_value [OF doc t] v
      checks_widen(1) [of s s s1 t env] checks_widen(2,3) [of s s3 t t] by auto
qed

lemma create_named_names:
  assumes "retry_documented env" and "create_named env ctx href name s = Some (r, t)"
  shows "cleanups t = cleanups s \<and> inflight t = inflight s"
  by (rule obeysD [OF names.create_named_obeys [OF assms(1) TrueI] assms(2)])

text \<open>
  C14: a create that returns a result has tagged the vApp with the group's metadata, so the poll finds it,
  has seen the VM report POWERED_ON, and, when credentials are configured, has completed an SSH handshake
  at the address it returns, which is not empty. Its name is in flight and not queued for cleanup.
\<close>

theorem create_result_verified:
  assumes doc: "retry_documented env" and run: "createInstance env ctx s = Some (Inr v, t)"
  shows "tagged env s t \<and> powered_on s t \<and> res_IPAddress v \<noteq> [] \<and>
         (Password (settings (ig env)) \<noteq> [] \<or> Key (settings (ig env)) \<noteq> None \<longrightarrow> reachable_at env (res_IPAddress v) s t) \<and>
         (\<exists>name. inflight t = name # inflight s \<and> cleanups t = cleanups s)"
  using run
proof (cases rule: createInstance_cases)
  case (2 href name s1 v')
  let ?u = "s1\<lparr>inflight := name # inflight s1\<rparr>"
  have s1: "cleanups s1 = cleanups s" "inflight s1 = inflight s"
    using obeysD [OF prepare_obeys(2) [OF doc] 2(1)] by simp_all
  have pre: "growing (chk (create_prepare env ctx) (\<lambda>href. chk (create_name env) (\<lambda>name. ret (href, name))))"
    by (intro growing_intros doc)
  have s: "suffix (history s) (history ?u)" using obeysD [OF pre 2(1)] by simp
  note V = create_named_value [OF doc 2(2)]
  have v: "v = v'" using 2(3) by simp
  have N: "cleanups t = cleanups s \<and> inflight t = name # inflight s"
    using create_named_names [OF doc 2(2)] s1 by simp
  show ?thesis
    unfolding v
  proof (intro conjI impI)
    show "tagged env s t" "powered_on s t" "res_IPAddress v' \<noteq> []" using checks_widen [OF s, of t t] V by auto
    show "\<exists>name. inflight t = name # inflight s \<and> cleanups t = cleanups s" using N by blast
    assume "Password (settings (ig env)) \<noteq> [] \<or> Key (settings (ig env)) \<noteq> None"
    then show "reachable_at env (res_IPAddress v') s t" using checks_widen(3) [OF s, of t t] V(5) by auto
  qed
qed simp_all

theorem create_result_verified_witness:
  "\<exists>v t. createInstance (demo_env ''DHCP'') GivenContext demo_start = Some (Inr v, t) \<and>
     tagged (demo_env ''DHCP'') demo_start t \<and> reachable_at (demo_env ''DHCP'') ''10.0.0.7'' demo_start t"
proof -
  obtain v t where run: "createInstance (demo_env ''DHCP'') GivenContext demo_start = Some (Inr v, t)"
    "res_IPAddress v = ''10.0.0.7''"
    using demo_create by blast
  then show ?thesis using create_result_verified [OF demo_env_documented run(1)] by auto
qed

text \<open>
  C7: a create that fails never panics and never loses a vApp: either it failed before it had a name, and
  nothing is in flight for it, or its name is queued for cleanup and no longer in flight. No other name is
  touched.
\<close>

theorem failed_create_handed_over:
  assumes doc: "retry_documented env" and run: "createInstance env ctx s = Some (Inl e, t)"
  shows "(\<exists>err. e = Fail err) \<and>
         (inflight t = inflight s \<and> cleanups t = cleanups s \<or>
          (\<exists>name. inflight t = removeAll name (inflight s) \<and> map_of (cleanups t) name \<noteq> None \<and>
             (\<forall>other. other \<noteq> name \<longrightarrow> map_of (cleanups t) other = map_of (cleanups s) other)))"
  using run
proof (cases rule: createInstance_cases)
  case (1 err)
  then show ?thesis using attempt_ignore [OF prepare_obeys(2) [OF doc]] by auto
next
  case (3 href name s1 s2 ex now)
  have "cleanups s1 = cleanups s" "inflight s1 = inflight s"
    using obeysD [OF prepare_obeys(2) [OF doc] 3(1)] by simp_all
  then have "cleanups s2 = cleanups s" "inflight s2 = name # inflight s"
    using create_named_names [OF doc 3(2)] by simp_all
  then have t: "inflight t = removeAll name (inflight s)" "cleanups t = LoadOrStore name now (cleanups s)"
    using 3(4) by simp_all
  have "map_of (cleanups t) name \<noteq> None \<and> (\<forall>other. other \<noteq> name \<longrightarrow> map_of (cleanups t) other = map_of (cleanups s) other)"
    unfolding t(2) LoadOrStore_def by (auto split: option.split)
  then show ?thesis using t(1) 3(3) by auto
qed simp_all

theorem failed_create_handed_over_witness:
  "\<exists>e t. createInstance (demo_env ''BAD'') GivenContext demo_start = Some (Inl e, t) \<and> (\<exists>err. e = Fail err) \<and>
     map_of (cleanups t) ''ci-wlpawlpa'' = Some 1 \<and> inflight t = []"
proof -
  obtain e h where run: "createInstance (demo_env ''BAD'') GivenContext demo_start =
     Some (Inl e, st h [(''ci-wlpawlpa'', 1)] [] (demo_vapp False) blank_vm demo_task)"
    using demo_create_fails by blast
  then have "\<exists>err. e = Fail err" using failed_create_handed_over [OF demo_env_documented run] by blast
  then show ?thesis using run by fastforce
qed

end
