(* ===== verification/Delete_Props.thy ===== *)
theory Delete_Props
  imports Create_Props
begin

text \<open>
  When a deletion counts as done, and what a failed call leaves behind.
\<close>

section \<open>Deletions\<close>

definition deleted_since :: "'b gstate \<Rightarrow> 'b gstate \<Rightarrow> bool" where
  "deleted_since s t \<longleftrightarrow> (\<exists>h a. since s t (Request (DeleteVApp h) (Inr a))) \<and> task_Status (task t) = ''success''"

lemma deleted_earlier: "deleted_since u t \<Longrightarrow> suffix (history s) (history u) \<Longrightarrow> deleted_since s t"
  unfolding deleted_since_def by (meson since_earlier)

lemma delete_vapp_value:
  assumes doc: "retry_documented env" and run: "delete_vapp env desc s = Some (Inr v, t)"
  shows "deleted_since s t"
proof -
  obtain a s1 where s1: "safe_vapp env Background desc DeleteVApp s = Some (Inr a, s1)"
    and t: "waitTaskCompletion env Background (task_of a) s1 = Some (Inr v, t)"
    using run unfolding delete_vapp_def by (elim chk_value)
  obtain h where "since s s1 (Request (DeleteVApp h) (Inr a))" using object_call_value(1) [OF doc s1] by blast
  then have "since s t (Request (DeleteVApp h) (Inr a))"
    using since_later obeysD [OF grows.configure_obeys(1) [OF doc] t] by blast
  then show ?thesis using waitTask_value [OF t] by (auto simp: deleted_since_def)
qed

lemma deleted_chk:
  assumes "chk m k s = Some (Inr v, t)" and "growing m" and "\<And>w u. k w u = Some (Inr v, t) \<Longrightarrow> deleted_since u t"
  shows "deleted_since s t"
  using assms by (elim chk_value) (meson obeysD deleted_earlier)

lemma delete_vapp_with_vm_value:
  assumes doc: "retry_documented env" and run: "delete_vapp_with_vm env href s = Some (Inr v, t)"
  shows "deleted_since s t"
proof -
  let ?vm = "s\<lparr>vm := blank_vm\<lparr>vm_HREF := href\<rparr>\<rparr>"
  obtain b s1 where b: "safe_vm env Background ''Refresh VM for delete'' RefreshVM ?vm = Some (b, s1)"
    using run by (auto simp: delete_vapp_with_vm_def chk_def [of "modify _"] modify_def attempt_def split: option.splits)
  have g: "suffix (history s) (history s1)" using obeysD [OF grows.object_calls_obey(3) [OF doc TrueI] b] by simp
  have rest: "(case b of
       Inl (Panic p) \<Rightarrow> raise (Panic p)
     | Inl (Fail err) \<Rightarrow> delete_vapp env ''Delete(fallback)''
     | Inr _ \<Rightarrow>
         chk (time_Now env) (\<lambda>t.
         chk (waitForTasksCompletion env (WithTimeout Background deleteInstanceTimeout t)) (\<lambda>_.
         chk (stop_vapp env ''PowerOff'' PowerOff) (\<lambda>_.
         chk (stop_vapp env ''Undeploy'' Undeploy) (\<lambda>_.
         delete_vapp env ''Delete''))))) s1 = Some (Inr v, t)"
    using run b by (simp add: delete_vapp_with_vm_def chk_def [of "modify _"] modify_def attempt_def)
  have "deleted_since s1 t"
  proof (cases b)
    case (Inr w)
    then have "chk (time_Now env) (\<lambda>t.
         chk (waitForTasksCompletion env (WithTimeout Background deleteInstanceTimeout t)) (\<lambda>_.
         chk (stop_vapp env ''PowerOff'' PowerOff) (\<lambda>_.
         chk (stop_vapp env ''Undeploy'' Undeploy) (\<lambda>_.
         delete_vapp env ''Delete'')))) s1 = Some (Inr v, t)"
      using rest by (simp only: sum.case)
    then show ?thesis
      by (elim deleted_chk; (intro growing_intros grows.waitForTasksCompletion_obeys doc)?)
        (erule delete_vapp_value [OF doc])
  qed (use rest delete_vapp_value [OF doc] in \<open>auto simp: raise_def split: exn.splits\<close>)
  then show ?thesis using g deleted_earlier by blast
qed

text \<open>The three ways the first read of a vApp that is to be deleted ends the deletion.\<close>

definition refresh_says_gone :: "('b, 'u) env \<Rightarrow> 'b gstate \<Rightarrow> bool" where
  "refresh_says_gone env t \<longleftrightarrow>
     (\<exists>u err. safe_vapp env Background ''Refresh vApp(delete)'' RefreshVApp u = Some (Inl (Fail err), t) \<and>
        isEntityNotFoundError (Some err))"

lemma refreshVappOp_value:
  assumes doc: "retry_documented env" and run: "refreshVappOp env href s = Some (Inr v, t)"
  shows "refresh_says_gone env t \<or> (\<exists>h a. since s t (Request (RefreshVApp h) (Inr a)))"
proof -
  let ?s = "s\<lparr>vapp := blank_vapp\<lparr>vapp_HREF := href\<rparr>\<rparr>"
  obtain b s1 where b: "safe_vapp env Background ''Refresh vApp(delete)'' RefreshVApp ?s = Some (b, s1)"
    using run by (auto simp: refreshVappOp_def chk_def [of "modify _"] modify_def attempt_def split: option.splits)
  have rest: "(case b of Inr _ \<Rightarrow> ret () | Inl (Panic p) \<Rightarrow> raise (Panic p)
     | Inl (Fail err) \<Rightarrow> if isEntityNotFoundError (Some err) then ret () else raise (Fail err)) s1 = Some (Inr v, t)"
    using run b by (simp add: refreshVappOp_def chk_def [of "modify _"] modify_def attempt_def)
  show ?thesis
  proof (cases b)
    case (Inr w)
    then have "t = s1" using rest by (simp add: ret_def)
    then show ?thesis using object_call_value(1) [OF doc b [unfolded Inr]] by (auto simp: since_def)
  next
    case (Inl e)
    then obtain err where "e = Fail err" "isEntityNotFoundError (Some err)" "t = s1"
      using rest by (auto simp: ret_def raise_def split: exn.splits if_splits)
    then show ?thesis using b Inl by (auto simp: refresh_says_gone_def)
  qed
qed



section \<open>Failed calls\<close>

definition objects_of :: "'b gstate \<Rightarrow> VAppObj \<times> VMObj" where
  "objects_of s = (vapp s, vm s)"

lemma objects_of_simps [simp]:
  "objects_of (log_event e s) = objects_of s" "objects_of (s\<lparr>session := x\<rparr>) = objects_of s"
  "objects_of (s\<lparr>gate := g\<rparr>) = objects_of s" "objects_of (s\<lparr>history := h\<rparr>) = objects_of s"
  by (simp_all add: objects_of_def log_event_def)

interpretation untouched: session_frame "\<lambda>s t. objects_of t = objects_of s" "\<lambda>_. True"
  by unfold_locales simp_all

text \<open>The rollbacks undo what a failed run of the function did to the objects.\<close>

definition restores :: "VAppObj \<times> VMObj \<Rightarrow> 'b rollback list \<Rightarrow> ('b gstate, response) comp \<Rightarrow> bool" where
  "restores p restore fn \<longleftrightarrow> (\<forall>s e t. objects_of s = p \<longrightarrow> fn s = Some (Inl e, t) \<longrightarrow>
     objects_of (fold (\<lambda>rb s. rb s) restore t) = p)"

lemma restores_perform:
  "restores (objects_of s) [preserveVApp s] (perform_vapp env method)"
  "restores (objects_of s) [preserveVM s] (perform_vm env method)"
  by (auto simp: restores_def perform_vapp_def perform_vm_def preserveVApp_def preserveVM_def objects_of_def log_event_def
      Let_def)

lemma attempt_restores:
  assumes "restores p restore fn" and "objects_of s = p"
    and run: "vcdCallAttempt env ctx desc fn restore s = Some (r, t)"
  shows "\<exists>res g. r = Inr (res, g) \<and> (isl res \<longrightarrow> objects_of t = p)"
proof -
  obtain a u where a: "lockSession env ctx s = Some (a, u)"
    using run by (auto simp: vcdCallAttempt_def elim: attempt_value_of)
  then have u: "objects_of u = p" using obeysD [OF untouched.session_obeys(5) a] assms(2) by simp
  show ?thesis
    using run assms(1) u a unfolding restores_def vcdCallAttempt_def
    by (auto simp: attempt_def chk_def ret_def modify_def split: sum.splits option.splits)
qed

definition restored ::
    "VAppObj \<times> VMObj \<Rightarrow> (goerror + response) \<times> 64 word \<Rightarrow> 'b gstate
     \<Rightarrow> (exn + (goerror + response) \<times> 64 word) \<times> 'b gstate \<Rightarrow> bool" where
  "restored p x s y \<longleftrightarrow>
     (isl (fst x) \<longrightarrow> objects_of s = p) \<longrightarrow>
     (case fst y of Inl e \<Rightarrow> objects_of (snd y) = p | Inr (res, g) \<Rightarrow> isl res \<longrightarrow> objects_of (snd y) = p)"

lemma limited_restores:
  assumes fn: "restores p restore fn" and run: "vcdCall_limited env ctx desc fn restore x s = Some y"
  shows "restored p x s y"
proof -
  have waited: "objects_of s2 = objects_of s"
    if "gate_throttled env s = Some (a, s1)" "gate_wait env ctx s1 = Some (b, s2)" for s s1 s2 a b
    using obeysD [OF untouched.gate_throttled_obeys that(1)] obeysD [OF untouched.gate_wait_obeys that(2)] by simp
  have failed: "isl (fst x)" if "rejected_attempt x" for x
    using that by (auto simp: rejected_attempt_def split: sum.splits)
  show ?thesis
    using run
  proof (induction rule: limited_rule)
    case (ended x s)
    then show ?case by (cases x) (auto simp: restored_def)
  next
    case (stopped x s s1 w s2 e)
    then show ?case using waited [OF stopped(2,3)] failed [OF stopped(1)] by (simp add: restored_def)
  next
    case (again x s s1 s2 x' s3 y)
    have "isl (fst x') \<longrightarrow> objects_of s3 = p" if "objects_of s = p"
      using attempt_restores [OF fn _ again(4)] that waited [OF again(2,3)] by auto
    then show ?case using again(5) failed [OF again(1)] unfolding restored_def by blast
  qed
qed

lemma finish_error: "vcdCall_finish r s = Some (Inl e, t) \<Longrightarrow> isl r \<and> t = s"
  by (auto simp: vcdCall_finish_def ret_def raise_def split: sum.splits if_splits)

lemma renewed_restores:
  assumes fn: "restores p restore fn" and s: "objects_of s = p"
    and run: "(if retry then chk (vcdCallAttempt env ctx desc fn restore) (\<lambda>(res, _). vcdCall_finish res)
              else vcdCall_finish (Inl err)) s = Some (Inl e, t)"
  shows "objects_of t = p"
proof (cases retry)
  case True
  then obtain d u where u: "vcdCallAttempt env ctx desc fn restore s = Some (d, u)"
    using run by (auto simp: chk_def elim: attempt_value_of)
  obtain res g where "d = Inr (res, g)" "isl res \<longrightarrow> objects_of u = p" using attempt_restores [OF fn s u] by blast
  then show ?thesis using run True u by (auto simp: chk_def attempt_def dest: finish_error)
qed (use run s in \<open>auto dest: finish_error\<close>)

lemma unauthorized_restores:
  assumes fn: "restores p restore fn" and s: "objects_of s = p"
    and run: "attempt (refreshSession env ctx g) (\<lambda>r. case r of
             Inl authErr \<Rightarrow>
               raise (Fail (Errorf (Error err @ ''; session renewal failed: '' @ Error (recovered desc authErr)) [err]))
           | Inr _ \<Rightarrow>
               if retry then chk (vcdCallAttempt env ctx desc fn restore) (\<lambda>(res, _). vcdCall_finish res)
               else vcdCall_finish (Inl err)) s = Some (Inl e, t)"
  shows "objects_of t = p"
proof -
  obtain c u where u: "refreshSession env ctx g s = Some (c, u)" using run by (auto elim: attempt_value_of)
  have p: "objects_of u = p" using obeysD [OF untouched.session_obeys(6) u] s by simp
  note run' = run [unfolded attempt_step [where m = "refreshSession env ctx g", OF u]]
  show ?thesis
  proof (cases c)
    case (Inr w)
    then show ?thesis using run' renewed_restores [OF fn p] by (simp only: sum.case)
  qed (use run' p in \<open>simp add: raise_def\<close>)
qed

lemma op_restores:
  assumes fn: "restores p restore fn" and s: "objects_of s = p"
    and op: "vcdCall_op env ctx desc fn retry restore s = Some (Inl e, t)"
  shows "objects_of t = p"
proof -
  obtain a s1 where s1: "vcdCallAttempt env ctx desc fn restore s = Some (a, s1)"
    using op by (auto simp: vcdCall_op_def chk_def elim: attempt_value_of)
  obtain res g where a: "a = Inr (res, g)" "isl res \<longrightarrow> objects_of s1 = p" using attempt_restores [OF fn s s1] by blast
  obtain b s2 where s2: "vcdCall_limited env ctx desc fn restore (res, g) s1 = Some (b, s2)"
    using op s1 a by (auto simp: vcdCall_op_def chk_def attempt_def split: option.splits)
  have r: "restored p (res, g) s1 (b, s2)" by (rule limited_restores [OF fn s2])
  show ?thesis
  proof (cases b)
    case (Inl ex)
    then show ?thesis using op s1 a s2 r by (simp add: vcdCall_op_def chk_def attempt_def raise_def restored_def)
  next
    case (Inr x)
    obtain res' g' where x: "x = (res', g')" by fastforce
    note run = op [unfolded vcdCall_op_def
        chk_step [where m = "vcdCallAttempt env ctx desc fn restore", OF s1 [unfolded a]]
        chk_step [where m = "vcdCall_limited env ctx desc fn restore (res, g)", OF s2 [unfolded Inr]] x prod.case]
    have p: "isl res' \<longrightarrow> objects_of s2 = p" using r a Inr x by (simp add: restored_def)
    show ?thesis
    proof (cases res')
      case (Inl err)
      have p': "objects_of s2 = p" using p Inl by simp
      show ?thesis
      proof (cases "isUnauthorizedError (Some err)")
        case True
        show ?thesis
          by (rule unauthorized_restores [OF fn p', of env ctx g' err desc retry e t])
            (use run True Inl in \<open>simp only: sum.case if_True\<close>)
      qed (use run Inl p' in \<open>auto dest: finish_error\<close>)
    qed (use run in \<open>auto dest: finish_error\<close>)
  qed
qed

lemma retries_restores:
  assumes "retries op s r t" and op: "\<And>s e t. objects_of s = p \<Longrightarrow> op s = Some (Inl e, t) \<Longrightarrow> objects_of t = p"
    and "objects_of s = p" and "isl r"
  shows "objects_of t = p"
proof -
  have i: "objects_of u = objects_of v" if "idle v u" for u v :: "'a gstate" using that by (auto simp: idle_def)
  show ?thesis
    using assms(1,3,4)
  proof (induction rule: retries.induct)
    case (gives_up s e t e' u)
    then show ?case using op i by metis
  next
    case (again s e t u r w)
    then show ?case using op i by metis
  qed (use op in auto)
qed


text \<open>An SDK that fails and leaves an empty payload behind.\<close>

definition failing_env :: "(duration, unit) env" where
  "failing_env = (demo_env ''DHCP'')\<lparr>sdk := (\<lambda>h q. Inl (Fail (errors_New ''timeout''))), vapp_after := (\<lambda>h q. blank_vapp)\<rparr>"

lemma failing_simps:
  "others_session failing_env = (\<lambda>h x. x)" "ctxErr failing_env = (\<lambda>h c. None)" "clock failing_env = (\<lambda>h. 1)"
  "ig failing_env = demo_ig ''DHCP''" "sdk failing_env = (\<lambda>h q. Inl (Fail (errors_New ''timeout'')))"
  "vapp_after failing_env = (\<lambda>h q. blank_vapp)" "RetryWithData failing_env = (\<lambda>opts ctx. no_retry)"
  by (simp_all add: failing_env_def demo_env_def)

lemma timeout_plain: "\<not> isUnauthorizedError (Some (errors_New ''timeout''))" "\<not> isPermanentError (Some (errors_New ''timeout''))"
  by code_simp+


section \<open>An error of the session can pass for a missing vApp\<close>

text \<open>
  The test for a missing entity reads the text of the error, whatever call it comes from. If the session
  has to be renewed before the vApp is read and the renewal fails with a text that says something could not
  be found, \<^verbatim>\<open>deleteInstance\<close> takes the vApp for deleted, although it never asked vCD about it.
\<close>

definition stale_env :: "(duration, unit) env" where
  "stale_env = (demo_env ''DHCP'')\<lparr>sdk := (\<lambda>h q. Inl (Fail (errors_New ''endpoint could not be found''))),
     clock := (\<lambda>h. if h = [Lock] then 1 else 100 * hour)\<rparr>"

lemma stale_simps:
  "others_session stale_env = (\<lambda>h x. x)" "ctxErr stale_env = (\<lambda>h c. None)"
  "clock stale_env = (\<lambda>h. if h = [Lock] then 1 else 100 * hour)"
  "ig stale_env = demo_ig ''DHCP''" "sdk stale_env = (\<lambda>h q. Inl (Fail (errors_New ''endpoint could not be found'')))"
  "RetryWithData stale_env = (\<lambda>opts ctx. no_retry)" "Retry stale_env = (\<lambda>opts. no_retry)"
  by (simp_all add: stale_env_def demo_env_def)

definition renewal_error :: goerror where
  "renewal_error = Errorf (''unable to authenticate to Org '' @ quoted ''o'' @ '': endpoint could not be found'')
     [errors_New ''endpoint could not be found'']"

lemma renewal_error_classes:
  "isUnauthorizedError (Some renewal_error) = False" "isPermanentError (Some renewal_error) = False"
  "isEntityNotFoundError (Some renewal_error) = True" "find_permanent renewal_error = None"
  by code_simp+

lemma stale_renewal:
  "setVCDToken stale_env s = Some (Inl (Fail renewal_error),
     s\<lparr>history := Request (SetToken ''o'' ''t'') (Inl (Fail (errors_New ''endpoint could not be found''))) # history s\<rparr>)"
  by (simp add: Let_def quoted_def setVCDToken_def renewal_error_def perform_def attempt_def raise_def stale_simps demo_ig_def log_event_def
      errors_New_def)

lemma stale_refresh:
  "safe_vapp stale_env Background desc RefreshVApp (st [ReadClock, Lock] [] [] p v k) =
     Some (Inl (Fail renewal_error),
       (st [Request (SetToken ''o'' ''t'') (Inl (Fail (errors_New ''endpoint could not be found''))), ReadClock, Lock,
            ReadClock, AskContext Background, Lock, ReadClock, Lock] [] [] p v k)
       \<lparr>session := \<lparr>vcdClient = True, lastAuthenticated = 0, authGeneration = 1\<rparr>\<rparr>)"
  by (simp add: safe_vapp_def safeVCDCall_def vcdCall_def vcdCall_op_def vcdCallAttempt_def lockSession_def lock_client_def
      authenticateLocked_def stale_renewal update_session_def
      return_ctx_Err_def ctx_Err_def sessionExpired_def time_Now_def chk_def attempt_def ret_def raise_def get_def modify_def
      log_event_def stale_simps Let_def no_retry_def vcdCall_limited.simps
      vcdCall_finish_def st_def refresh_interval_def demo_ig_def defaultSessionRefreshInterval_def time_sub_def
      max_duration_def min_duration_def time_consts renewal_error_classes)

lemma stale_client: "getVCDClient stale_env (st [] [] [] p v k) = Some (Inr (), st [ReadClock, Lock] [] [] p v k)"
  by (simp add: getVCDClient_def chk_def attempt_def lock_client_def get_def ret_def sessionExpired_def time_Now_def
      log_event_def st_def stale_simps demo_ig_def refresh_interval_def defaultSessionRefreshInterval_def time_sub_def
      max_duration_def min_duration_def time_consts)

theorem renewal_error_taken_for_gone:
  "\<exists>t. deleteInstance stale_env href (st [] [] [] p v k) = Some (Inr (), t) \<and>
       {q. \<exists>a. Request q a \<in> set (history t)} = {SetToken ''o'' ''t''}"
proof -
  have set_vapp: "modify (\<lambda>s. s\<lparr>vapp := q\<rparr>) (st h [] [] p v k) = Some (Inr (), st h [] [] q v k)" for h q
    by (simp add: modify_def st_def)
  have fields: "vapp (st h c f q v k) = q" "history (st h c f q v k) = h" for h c f q
    by (simp_all add: st_def)
  have "\<exists>t. refreshVappOp stale_env href (st [ReadClock, Lock] [] [] p v k) = Some (Inr (), t) \<and> vapp_Name (vapp t) = [] \<and>
      {q. \<exists>a. Request q a \<in> set (history t)} = {SetToken ''o'' ''t''}"
    unfolding refreshVappOp_def
    by (auto simp: chk_def attempt_def set_vapp stale_refresh renewal_error_classes ret_def fields blank_vapp_def)
  then show ?thesis
    by (auto simp: deleteInstance_def chk_def attempt_def stale_client stale_simps no_retry_def ret_def get_def)
qed

end
