(* ===== verification/Credential_Props.thy ===== *)
theory Credential_Props
  imports Vcd_Props
begin

text \<open>
  What reaches the guest when \<^verbatim>\<open>injectCredentials\<close> returns nil: the password and the script with the public key
  of \<^verbatim>\<open>src/scripts.go\<close>, in every request that sets the guest customization.
\<close>

section \<open>The section that is sent\<close>

definition only_section :: "GuestCustomization option \<Rightarrow> 'b gstate \<Rightarrow> 'b gstate \<Rightarrow> bool" where
  "only_section c s t \<longleftrightarrow> suffix (history s) (history t) \<and>
     (\<forall>h c' a. since s t (Request (SetGuestCustomizationSection h c') a) \<longrightarrow> c' = c)"

lemma only_section_same: "history t = history s \<Longrightarrow> only_section c s t"
  by (auto simp: only_section_def since_def)

lemma only_section_log:
  "(\<And>h c' a. e = Request (SetGuestCustomizationSection h c') a \<Longrightarrow> c' = c) \<Longrightarrow> only_section c s (log_event e s)"
  by (auto simp: only_section_def since_def log_event_def suffix_def)

lemma only_section_trans: "only_section c s t \<Longrightarrow> only_section c t u \<Longrightarrow> only_section c s u"
  by (fastforce simp: only_section_def since_def suffix_def)

interpretation sending: session_frame "only_section c" "\<lambda>q. \<forall>h c'. q = SetGuestCustomizationSection h c' \<longrightarrow> c' = c"
  for c
  by unfold_locales (auto intro: only_section_same only_section_log only_section_trans)

lemma set_section_obeys:
  assumes "retry_documented env"
  shows "obeys (only_section c) (safe_vm env ctx desc (\<lambda>h. SetGuestCustomizationSection h c))"
proof -
  have "only_section c s (log_event (Request (SetGuestCustomizationSection h c) a) (s\<lparr>vm := p\<rparr>))" for s h a p
    by (rule only_section_trans [OF only_section_same only_section_log]) auto
  then have "obeys (only_section c) (perform_vm env (\<lambda>h. SetGuestCustomizationSection h c))"
    by (auto simp: obeys_def perform_vm_def Let_def)
  moreover have "sending.undoes c [preserveVM s]" for s
    by (simp add: sending.undoes_def preserveVM_def only_section_same)
  ultimately have "obeys (only_section c) (safeVCDCall env ctx desc (perform_vm env (\<lambda>h. SetGuestCustomizationSection h c)) [preserveVM s])" for s
    by (intro sending.calls_obey assms)
  then show ?thesis by (auto simp: safe_vm_def obeys_def)
qed

section \<open>The changes before it\<close>

lemma customize_value:
  assumes "customize f s = Some (Inr v, t)"
  obtains c where "GuestCustomizationSection (vm s) = Some c" "t = s\<lparr>vm := (vm s)\<lparr>GuestCustomizationSection := Some (f c)\<rparr>\<rparr>"
  using assms by (auto simp: customize_def get_def raise_def modify_def elim!: chk_value split: option.splits)

lemma injectKey_value:
  assumes run: "injectKey env key s = Some (Inr v, t)" and key: "ssh_public_key env key = AuthorizedKey line"
  obtains c spec script where "GuestCustomizationSection (vm s) = Some c" "VmSpecSection (vm s) = Some spec"
    "guest_script (Contains (OsType spec) ''windows'') line = Some script"
    "t = s\<lparr>vm := (vm s)\<lparr>GuestCustomizationSection := Some (c\<lparr>Enabled := Some True, CustomizationScript := script\<rparr>)\<rparr>\<rparr>"
proof -
  obtain spec script where "VmSpecSection (vm s) = Some spec" "guest_script (Contains (OsType spec) ''windows'') line = Some script"
    "customize (\<lambda>c. c\<lparr>Enabled := Some True, CustomizationScript := script\<rparr>) s = Some (Inr v, t)"
    using run key by (auto simp: injectKey_def get_def raise_def elim!: chk_value split: option.splits)
  then show thesis using that by (elim customize_value)
qed



end
