(* ===== verification/Listing_Props.thy ===== *)
theory Listing_Props
  imports Vcd_Props
begin

text \<open>
  What a listing of the group says (\<^verbatim>\<open>getInstancesInInstanceGroup\<close> and \<^verbatim>\<open>readListedVApps\<close> of \<^verbatim>\<open>src/vcd.go\<close>): the
  reconciler takes a vApp that is neither listed nor unread for missing, so none may be dropped by accident.
\<close>

section \<open>Reading what was listed\<close>

text \<open>\<open>read\<close> was called for \<open>href\<close> between two states, and gave \<open>out\<close>.\<close>

definition asked :: "(string \<Rightarrow> ('b gstate, 'a) comp) \<Rightarrow> 'b gstate \<Rightarrow> 'b gstate \<Rightarrow> string \<Rightarrow> exn + 'a \<Rightarrow> bool" where
  "asked read s t href out \<longleftrightarrow>
     (\<exists>u w. suffix (history s) (history u) \<and> read href u = Some (out, w) \<and> suffix (history w) (history t))"

text \<open>The answer says that the vApp does not exist.\<close>

fun says_gone :: "exn + 'a \<Rightarrow> bool" where
  "says_gone (Inl (Fail err)) = isEntityNotFoundError (Some err)"
| "says_gone _ = False"

fun failed_otherwise :: "exn + 'a \<Rightarrow> bool" where
  "failed_otherwise (Inl (Fail err)) = (\<not> isEntityNotFoundError (Some err))"
| "failed_otherwise _ = False"

text \<open>
  Every listed vApp is accounted for: those before the first that could not be read were read or are gone, in
  the order of the list, and that one and all after it are unread.
\<close>

definition accounted ::
    "(string \<Rightarrow> exn + VAppObj \<Rightarrow> bool) \<Rightarrow> string list \<Rightarrow> VAppObj list \<Rightarrow> string list \<Rightarrow> bool" where
  "accounted answered hrefs vApps unread \<longleftrightarrow>
     (\<exists>done outs. hrefs = done @ unread \<and> list_all2 answered done outs \<and>
        (\<forall>out\<in>set outs. \<not> isl out \<or> says_gone out) \<and> vApps = map projr (filter (\<lambda>out. \<not> isl out) outs) \<and>
        (unread \<noteq> [] \<longrightarrow> (\<exists>out. answered (hd unread) out \<and> failed_otherwise out)))"

lemma asked_mono: "asked read u t href out \<Longrightarrow> suffix (history s) (history u) \<Longrightarrow> asked read s t href out"
  unfolding asked_def by (meson suffix_order.trans)

lemma accounted_mono: "accounted P hs vs us \<Longrightarrow> (\<And>h r. P h r \<Longrightarrow> Q h r) \<Longrightarrow> accounted Q hs vs us"
  unfolding accounted_def by (metis list_all2_mono)

lemma accounted_Cons:
  assumes "accounted P hs vs us" and "P h out"
  shows "out = Inr v \<Longrightarrow> accounted P (h # hs) (v # vs) us" and "says_gone out \<Longrightarrow> accounted P (h # hs) vs us"
proof -
  obtain d os where d: "hs = d @ us" "list_all2 P d os" "\<forall>out\<in>set os. \<not> isl out \<or> says_gone out"
    "vs = map projr (filter (\<lambda>out. \<not> isl out) os)" "us \<noteq> [] \<longrightarrow> (\<exists>out. P (hd us) out \<and> failed_otherwise out)"
    using assms(1) unfolding accounted_def by blast
  show "accounted P (h # hs) (v # vs) us" if "out = Inr v"
    unfolding accounted_def using that assms(2) d by (intro exI [of _ "h # d"] exI [of _ "out # os"]) auto
  show "accounted P (h # hs) vs us" if "says_gone out"
  proof -
    have "isl out" using that by (cases out) auto
    then show ?thesis
      unfolding accounted_def using that assms(2) d by (intro exI [of _ "h # d"] exI [of _ "out # os"]) auto
  qed
qed

lemma growing_readListedVApps: "(\<And>h. growing (read h)) \<Longrightarrow> growing (readListedVApps read listed)"
proof (induction read listed rule: readListedVApps.induct)
  case (2 read href name rest)
  show ?case
    unfolding readListedVApps.simps
    by (intro grows.attempt_obeys 2) (auto split: sum.split exn.split prod.split intro!: growing_intros 2)
qed (simp add: growing_intros)

lemma readListedVApps_accounts:
  assumes read: "\<And>h. growing (read h)" and "readListedVApps read listed s = Some (Inr (vApps, unread), t)"
  shows "accounted (asked read s t) (map fst listed) vApps unread"
  using assms(2)
proof (induction listed arbitrary: s vApps)
  case Nil
  then show ?case by (simp add: ret_def accounted_def)
next
  case (Cons l rest)
  obtain href name where l: "l = (href, name)" by fastforce
  obtain out u where out: "read href s = Some (out, u)"
    using Cons.prems by (auto simp: l elim: attempt_value_of)
  have su: "suffix (history s) (history u)" by (rule obeysD [OF read out])
  note run = Cons.prems [unfolded l readListedVApps.simps attempt_step [where m = "read href", OF out]]
  have here: "asked read s t href out" if "suffix (history u) (history t)"
    unfolding asked_def using out that suffix_order.refl by blast
  have rest: "accounted (asked read s t) (map fst rest) vs unread \<and> asked read s t href out"
    if run': "readListedVApps read rest u = Some (Inr (vs, unread), t)" for vs
  proof
    show "accounted (asked read s t) (map fst rest) vs unread"
      by (rule accounted_mono [OF Cons.IH [OF run']]) (rule asked_mono [OF _ su])
    show "asked read s t href out" by (rule here [OF obeysD [OF growing_readListedVApps [OF read] run']])
  qed
  show ?case
  proof (cases out)
    case (Inr v)
    then obtain vs where "readListedVApps read rest u = Some (Inr (vs, unread), t)" "vApps = v # vs"
      using run by (auto simp: ret_def elim!: chk_value)
    then show ?thesis
      using rest accounted_Cons(1) [of "asked read s t" "map fst rest" vs unread href out v] Inr by (simp add: l)
  next
    case (Inl e)
    then obtain err where err: "out = Inl (Fail err)" using run by (cases e) (auto simp: raise_def)
    show ?thesis
    proof (cases "isEntityNotFoundError (Some err)")
      case True
      then show ?thesis
        using run err rest [of vApps] accounted_Cons(2) [of "asked read s t" "map fst rest" vApps unread href out] by (simp add: l)
    next
      case False
      then have "vApps = []" "unread = href # map fst rest" "t = u" using run err by (simp_all add: ret_def)
      then show ?thesis
        using False here err unfolding accounted_def
        by (intro exI [of _ "[]"] conjI) (auto simp: l intro!: exI [of _ out])
    qed
  qed
qed

section \<open>The listing of the group\<close>

lemma growing_read_vapp: "retry_documented env \<Longrightarrow> growing (read_vapp env ctx h)"
  unfolding read_vapp_def poll_read_def notFoundIsPermanent_def by (intro growing_intros) simp_all

lemma poll_read_value:
  assumes "retry_documented env" and "poll_read env ctx desc (perform env q) s = Some (Inr a, t)"
  shows "since s t (Request q (Inr a))"
proof -
  obtain n u where u: "time_Now env s = Some (Inr n, u)"
    and call: "safeVCDCall env (WithTimeout ctx pollReadTimeout n) desc (perform env q) [] u = Some (Inr a, t)"
    using assms(2) by (auto simp: poll_read_def elim: chk_value)
  have "growing (perform env q)" by (intro growing_intros) simp
  from safe_value [OF assms(1) this grows.undoes_Nil call]
  obtain w where "suffix (history u) (history w)" "perform env q w = Some (Inr a, t)"
    by (auto simp: from_run_def)
  moreover have "suffix (history s) (history u)" using u by (auto simp: time_Now_def log_event_def suffix_def)
  ultimately show ?thesis
    by (auto simp: perform_def log_event_def Let_def intro!: since_request [of s w] intro: suffix_order.trans)
qed

text \<open>
  C6: a listing that succeeds rests on an answered search for the group's metadata and name prefix, and
  accounts for every vApp the search found: each was read, or its read said that it does not exist, or it is
  reported as unread, which happens only from the first read on that failed for another reason. So a failed
  poll never passes for an empty group. A panic of the SDK is returned as an error.
\<close>

theorem listing_accounts_for_all:
  assumes "retry_documented env" and "getInstancesInInstanceGroup env ctx s = Some (r, t)"
  shows "(\<forall>p. r \<noteq> Inl (Panic p)) \<and>
         (r = Inr (vApps, unread) \<longrightarrow>
            (\<exists>found. since s t (Request (SearchByFilter (''^'' @ VAppNamePrefix (ig env)) instanceGroupMetadataKey
                       (InstanceGroupName (ig env))) (Inr found)) \<and>
               accounted (asked (read_vapp env ctx) s t) (map fst (found_of found)) vApps unread))"
proof -
  let ?q = "SearchByFilter (''^'' @ VAppNamePrefix (ig env)) instanceGroupMetadataKey (InstanceGroupName (ig env))"
  obtain r' where l: "list_group env ctx s = Some (r', t)" and r: "r = (case r' of Inl (Panic p) \<Rightarrow>
      Inl (Fail (errors_New (''panic listing instance group vApps: '' @ p))) | Inl (Fail err) \<Rightarrow> Inl (Fail err) | Inr l \<Rightarrow> Inr l)"
    using assms(2) unfolding getInstancesInInstanceGroup_def
    by (elim attempt_value_of) (auto simp: ret_def raise_def split: sum.splits exn.splits)
  have "\<exists>found. since s t (Request ?q (Inr found)) \<and>
      accounted (asked (read_vapp env ctx) s t) (map fst (found_of found)) vApps unread" if ok: "r' = Inr (vApps, unread)"
  proof -
    obtain a1 s1 a2 s2 a3 s3 found s4 where
      s1: "getVCDClient env s = Some (Inr a1, s1)" and
      s2: "poll_read env ctx ''GetOrgByName(poll)'' (perform env (GetOrgByName (Org (ig env)))) s1 = Some (Inr a2, s2)" and
      s3: "poll_read env ctx ''GetVDCByName(poll)'' (perform env (GetVDCByName (VirtualDatacenter (ig env)) True)) s2 = Some (Inr a3, s3)" and
      s4: "poll_read env ctx ''SearchByFilter'' (perform env ?q) s3 = Some (Inr found, s4)" and
      rd: "readListedVApps (read_vapp env ctx) (found_of found) s4 = Some (Inr (vApps, unread), t)"
      using l unfolding list_group_def ok by (elim chk_value) (rule that)
    have "growing (poll_read env ctx desc (perform env q))" for desc q
      unfolding poll_read_def by (intro growing_intros assms) simp_all
    note grow = obeysD [OF this]
    have s03: "suffix (history s) (history s3)"
      by (rule suffix_order.trans [OF obeysD [OF grows.session_obeys(7) s1] suffix_order.trans [OF grow [OF s2] grow [OF s3]]])
    have s4t: "suffix (history s4) (history t)"
      by (rule obeysD [OF growing_readListedVApps [OF growing_read_vapp [OF assms(1)]] rd])
    have "since s t (Request ?q (Inr found))"
      by (rule since_later [OF since_earlier [OF poll_read_value [OF assms(1) s4] s03] s4t])
    moreover have "accounted (asked (read_vapp env ctx) s t) (map fst (found_of found)) vApps unread"
      by (rule accounted_mono [OF readListedVApps_accounts [OF growing_read_vapp [OF assms(1)] rd]])
        (rule asked_mono [OF _ suffix_order.trans [OF s03 grow [OF s4]]])
    ultimately show ?thesis by blast
  qed
  then show ?thesis using r by (auto split: sum.splits exn.splits)
qed

text \<open>A listing that finds two vApps; the second cannot be read.\<close>

definition listing_env :: "(duration, unit) env" where
  "listing_env = (demo_env ''DHCP'')\<lparr>sdk := (\<lambda>h q. case q of
       SearchByFilter _ _ _ \<Rightarrow> Inr (ASearch [(''h1'', ''n1''), (''h2'', ''n2'')])
     | GetVAppByHref href \<Rightarrow> if href = ''h1'' then Inr (AVApp blank_vapp) else Inl (Fail (errors_New ''timeout''))
     | _ \<Rightarrow> Inr Done)\<rparr>"

lemma listing_simps:
  "others_session listing_env = (\<lambda>h x. x)" "ctxErr listing_env = (\<lambda>h c. None)" "clock listing_env = (\<lambda>h. 1)"
  "ig listing_env = demo_ig ''DHCP''" "RetryWithData listing_env = (\<lambda>opts ctx. no_retry)"
  by (simp_all add: listing_env_def demo_env_def)

lemma listing_answers:
  "sdk listing_env h (GetOrgByName n) = Inr Done" "sdk listing_env h (GetVDCByName n b) = Inr Done"
  "sdk listing_env h (SearchByFilter x y z) = Inr (ASearch [(''h1'', ''n1''), (''h2'', ''n2'')])"
  by (simp_all add: listing_env_def)

lemma timeout_classes:
  "\<not> isUnauthorizedError (Some (errors_New ''timeout''))" "\<not> isPermanentError (Some (errors_New ''timeout''))"
  "\<not> isEntityNotFoundError (Some (errors_New ''timeout''))" "find_permanent (errors_New ''timeout'') = None"
  by code_simp+

lemma listing_documented: "retry_documented listing_env"
  by (simp add: retry_documented_def listing_env_def demo_env_def no_retry_retries)

lemma listing_lock: "lockSession listing_env ctx (st h cl fl p v k) = Some (Inr 1, st (locked ctx h) cl fl p v k)"
  by (simp add: lockSession_def chk_def attempt_def lock_client_def return_ctx_Err_def ctx_Err_def get_def ret_def
      sessionExpired_def time_Now_def log_event_def st_def locked_def listing_simps demo_ig_def refresh_interval_def
      defaultSessionRefreshInterval_def time_sub_def max_duration_def min_duration_def time_consts)

lemma listing_call:
  assumes "fn (st (locked ctx h) cl fl p v k) = Some (r, st h' cl fl p v k)"
    and "\<And>e. r = Inl e \<Longrightarrow> e = Fail (errors_New ''timeout'')"
  shows "safeVCDCall listing_env ctx desc fn [] (st h cl fl p v k) = Some (r, st h' cl fl p v k)"
proof (cases r)
  case (Inl e)
  then have e: "fn (st (locked ctx h) cl fl p v k) = Some (Inl (Fail (errors_New ''timeout'')), st h' cl fl p v k)"
    "r = Inl (Fail (errors_New ''timeout''))" using assms by auto
  show ?thesis
    unfolding e(2)
    by (simp add: safeVCDCall_def vcdCall_def listing_simps no_retry_def vcdCall_op_def vcdCallAttempt_def attempt_def chk_def
        listing_lock e(1) ret_def vcdCall_limited.simps get_def vcdCall_finish_def timeout_classes raise_def modify_def gate_st)
next
  case (Inr x)
  then show ?thesis using assms(1)
    by (simp add: safeVCDCall_def vcdCall_def listing_simps no_retry_def vcdCall_op_def vcdCallAttempt_def attempt_def chk_def
        listing_lock ret_def vcdCall_limited.simps get_def vcdCall_finish_def gate_st)
qed

lemma listing_poll:
  assumes "fn (st (locked (WithTimeout Background pollReadTimeout 1) (ReadClock # h)) cl fl p v k) = Some (r, st h' cl fl p v k)"
    and "\<And>e. r = Inl e \<Longrightarrow> e = Fail (errors_New ''timeout'')"
  shows "poll_read listing_env Background desc fn (st h cl fl p v k) = Some (r, st h' cl fl p v k)"
  using listing_call [where fn = fn, OF assms]
  by (simp add: poll_read_def chk_def attempt_def time_Now_def listing_simps log_event_def st_def)

lemma listing_perform:
  "perform listing_env q (st h cl fl p v k) = Some (sdk listing_env h q, st (Request q (sdk listing_env h q) # h) cl fl p v k)"
  by (simp add: perform_def Let_def log_event_def st_def)

lemma listing_client:
  "getVCDClient listing_env (st [] cl fl p v k) = Some (Inr (), st [ReadClock, Lock] cl fl p v k)"
  by (simp add: getVCDClient_def chk_def attempt_def lock_client_def get_def ret_def sessionExpired_def time_Now_def
      log_event_def st_def listing_simps demo_ig_def refresh_interval_def defaultSessionRefreshInterval_def time_sub_def
      max_duration_def min_duration_def time_consts)

lemma listing_ask:
  assumes "\<And>h. sdk listing_env h q = Inr a"
  shows "\<exists>h'. poll_read listing_env Background desc (perform listing_env q) (st h cl fl p v k) = Some (Inr a, st h' cl fl p v k)"
  by (intro exI listing_poll) (simp_all add: listing_perform assms)

lemma listing_read:
  "\<exists>h'. read_vapp listing_env Background href (st h cl fl p v k) =
     Some (if href = ''h1'' then Inr blank_vapp else Inl (Fail (errors_New ''timeout'')), st h' cl fl p v k)"
proof -
  let ?r = "if href = ''h1'' then Inr (AVApp blank_vapp) else Inl (Fail (errors_New ''timeout''))"
  have "sdk listing_env h' (GetVAppByHref href) = ?r" for h' by (simp add: listing_env_def)
  then have "\<exists>h''. notFoundIsPermanent (perform listing_env (GetVAppByHref href)) (st h' cl fl p v k) =
      Some (?r, st h'' cl fl p v k)" for h'
    by (auto simp: notFoundIsPermanent_def attempt_def listing_perform ret_def raise_def timeout_classes)
  then obtain h'' where "poll_read listing_env Background ''GetVAppByHref(poll)''
      (notFoundIsPermanent (perform listing_env (GetVAppByHref href))) (st h cl fl p v k) = Some (?r, st h'' cl fl p v k)"
    using listing_poll [where fn = "notFoundIsPermanent (perform listing_env (GetVAppByHref href))" and r = ?r]
    by (metis Inl_Inr_False Inl_inject)
  then show ?thesis by (auto simp: read_vapp_def chk_def attempt_def ret_def raise_def)
qed

lemma listing_run:
  "\<exists>t. list_group listing_env Background (st [] [] [] p v k) = Some (Inr ([blank_vapp], [''h2'']), t)"
proof -
  let ?t = "\<lambda>h. st h [] [] p v k"
  obtain h1 where "poll_read listing_env Background ''GetOrgByName(poll)''
      (perform listing_env (GetOrgByName (Org (ig listing_env)))) (?t [ReadClock, Lock]) = Some (Inr Done, ?t h1)"
    using listing_ask [OF listing_answers(1)] by blast
  moreover obtain h2 where "poll_read listing_env Background ''GetVDCByName(poll)''
      (perform listing_env (GetVDCByName (VirtualDatacenter (ig listing_env)) True)) (?t h1) = Some (Inr Done, ?t h2)"
    using listing_ask [OF listing_answers(2)] by blast
  moreover obtain h3 where "poll_read listing_env Background ''SearchByFilter'' (perform listing_env (SearchByFilter
        (''^'' @ VAppNamePrefix (ig listing_env)) instanceGroupMetadataKey (InstanceGroupName (ig listing_env)))) (?t h2) =
      Some (Inr (ASearch [(''h1'', ''n1''), (''h2'', ''n2'')]), ?t h3)"
    using listing_ask [OF listing_answers(3)] by blast
  moreover obtain h4 where "read_vapp listing_env Background ''h1'' (?t h3) = Some (Inr blank_vapp, ?t h4)"
    using listing_read [of "''h1''" h3 "[]" "[]" p v k] by auto
  moreover obtain h5 where "read_vapp listing_env Background ''h2'' (?t h4) = Some (Inl (Fail (errors_New ''timeout'')), ?t h5)"
    using listing_read [of "''h2''" h4 "[]" "[]" p v k] by auto
  ultimately show ?thesis
    by (simp add: list_group_def chk_def attempt_def listing_client ret_def timeout_classes)
qed

theorem listing_accounts_for_all_witness:
  "\<exists>t. getInstancesInInstanceGroup listing_env Background (st [] [] [] blank_vapp blank_vm blank_task) =
         Some (Inr ([blank_vapp], [''h2'']), t) \<and>
       (\<exists>found. accounted (asked (read_vapp listing_env Background) (st [] [] [] blank_vapp blank_vm blank_task) t)
          (map fst (found_of found)) [blank_vapp] [''h2''])"
proof -
  let ?s = "st [] [] [] blank_vapp blank_vm blank_task"
  obtain t where "getInstancesInInstanceGroup listing_env Background ?s = Some (Inr ([blank_vapp], [''h2'']), t)"
    using listing_run [of blank_vapp blank_vm blank_task] by (auto simp: getInstancesInInstanceGroup_def attempt_def ret_def)
  then show ?thesis using listing_accounts_for_all [OF listing_documented, of Background ?s] by blast
qed

end
