(* ===== verification/Session_Props.thy ===== *)
theory Session_Props
  imports Vcd_Demo
begin

text \<open>
  The renewal of the shared session (\<^verbatim>\<open>src/session.go\<close>): goroutines whose calls were refused with a 401 all
  renew the session, but of those that saw the same token only one exchanges it.
\<close>

section \<open>Goroutines that renew the same session\<close>

text \<open>Goroutines renewing the session one after the other, as the lock makes them, each with its context.\<close>

fun renew_all :: "('b, 'u) env \<Rightarrow> 64 word \<Rightarrow> goctx list \<Rightarrow> ('b gstate, unit) comp" where
  "renew_all env generation [] = ret ()"
| "renew_all env generation (ctx # ctxs) =
     attempt (refreshSession env ctx generation) (\<lambda>_. renew_all env generation ctxs)"

text \<open>The successful token exchanges so far.\<close>

fun is_exchange :: "event \<Rightarrow> bool" where
  "is_exchange (Request (SetToken _ _) (Inr _)) = True"
| "is_exchange _ = False"

definition exchanges :: "'b gstate \<Rightarrow> nat" where
  "exchanges s = length (filter is_exchange (history s))"

text \<open>What the other goroutines do to the session never brings an earlier generation back.\<close>

definition generation_gone :: "('b, 'u) env \<Rightarrow> 64 word \<Rightarrow> bool" where
  "generation_gone env g \<longleftrightarrow> (\<forall>h x. authGeneration x \<noteq> g \<longrightarrow> authGeneration (others_session env h x) \<noteq> g)"

lemma exchanges_log [simp]:
  "exchanges (log_event e s) = exchanges s + of_bool (is_exchange e)"
  "exchanges (s\<lparr>session := x\<rparr>) = exchanges s"
  by (simp_all add: exchanges_def log_event_def)

lemma session_log [simp]: "session (log_event e s) = session s"
  by (simp add: log_event_def)

lemma word_next: "(g :: 64 word) + 1 \<noteq> g"
  by simp

lemma setVCDToken_exchange:
  assumes "setVCDToken env s = Some (r, t)"
  shows "session t = session s" and "exchanges t = exchanges s + of_bool (\<not> isl r)"
  using assms
  by (auto simp: setVCDToken_def attempt_def perform_def ret_def raise_def Let_def split: sum.splits exn.splits)

lemma authenticateLocked_exchange:
  assumes "authenticateLocked env s = Some (r, t)"
  shows "exchanges t = exchanges s + of_bool (\<not> isl r) \<and>
         authGeneration (session t) = authGeneration (session s) + of_bool (\<not> isl r)"
proof -
  obtain r' u where tok: "setVCDToken env s = Some (r', u)"
    using assms by (auto simp: authenticateLocked_def elim: attempt_value_of)
  show ?thesis
    using assms setVCDToken_exchange [OF tok]
    by (cases r') (auto simp: authenticateLocked_def tok chk_def attempt_def
        update_session_def modify_def time_Now_def raise_def)
qed

text \<open>One renewal: it exchanges the token only if the session is still the one that was refused.\<close>

lemma refreshSession_exchange:
  assumes "refreshSession env ctx g s = Some (r, t)" and "generation_gone env g"
  shows "exchanges t = exchanges s \<and> (authGeneration (session s) \<noteq> g \<longrightarrow> authGeneration (session t) \<noteq> g) \<or>
         exchanges t = exchanges s + 1 \<and> authGeneration (session s) = g \<and> authGeneration (session t) \<noteq> g"
proof -
  define x where "x = others_session env (history s) (session s)"
  define s1 where "s1 = log_event (AskContext ctx) (log_event Lock (s\<lparr>session := x\<rparr>))"
  have x: "authGeneration (session s) \<noteq> g \<Longrightarrow> authGeneration x \<noteq> g"
    using assms(2) by (simp add: generation_gone_def x_def)
  have s1: "session s1 = x" "exchanges s1 = exchanges s" by (simp_all add: s1_def)
  consider (stop) "t = s1" | (renew) "authGeneration x = g" "authenticateLocked env s1 = Some (r, t)"
    using assms(1)
    by (auto simp: refreshSession_def chk_def attempt_def lock_client_def return_ctx_Err_def ctx_Err_def get_def raise_def
        ret_def x_def s1_def split: option.splits if_splits)
  then show ?thesis
  proof cases
    case renew
    then show ?thesis
      using authenticateLocked_exchange [OF renew(2)] x s1 by (cases "isl r") auto
  qed (use x s1 in auto)
qed

text \<open>
  C16: however many goroutines renew the session because their calls were refused with the same token, and
  whatever others do in between, at most one of them exchanges the token; if the session has moved on before
  the first of them gets the lock, none does.
\<close>

theorem one_exchange_per_generation:
  assumes "generation_gone env g" and "renew_all env g ctxs s = Some (r, t)"
  shows "exchanges t \<le> exchanges s + 1 \<and> (authGeneration (session s) \<noteq> g \<longrightarrow> exchanges t = exchanges s)"
  using assms(2)
proof (induction ctxs arbitrary: s)
  case (Cons ctx ctxs)
  obtain r' u where u: "refreshSession env ctx g s = Some (r', u)" "renew_all env g ctxs u = Some (r, t)"
    using Cons.prems by (auto elim: attempt_value_of)
  show ?case using Cons.IH [OF u(2)] refreshSession_exchange [OF u(1) assms(1)] by auto
qed (simp add: ret_def)

lemma demo_renewal:
  "refreshSession (demo_env ''DHCP'') Background 1 (st [] [] [] p v k) = Some (Inr (),
     (st [ReadClock, Request (SetToken ''o'' ''t'') (Inr Done), AskContext Background, Lock] [] [] p v k)
     \<lparr>session := \<lparr>vcdClient = True, lastAuthenticated = 1, authGeneration = 2\<rparr>\<rparr>)"
  by (simp add: refreshSession_def chk_def attempt_def lock_client_def return_ctx_Err_def ctx_Err_def get_def raise_def
      ret_def authenticateLocked_def setVCDToken_def perform_def update_session_def modify_def time_Now_def log_event_def
      st_def demo_env_def demo_ig_def Let_def answer_def)

theorem one_exchange_per_generation_witness:
  "\<exists>r t. renew_all (demo_env ''DHCP'') 1 [Background, Background] (st [] [] [] blank_vapp blank_vm blank_task) = Some (r, t) \<and>
     exchanges t = 1"
proof -
  let ?s = "st [] [] [] blank_vapp blank_vm blank_task"
  have gone: "generation_gone (demo_env ''DHCP'') 1" by (simp add: generation_gone_def demo_env_def)
  have "\<exists>r t. renew_all (demo_env ''DHCP'') 1 [Background, Background] ?s = Some (r, t) \<and> 1 \<le> exchanges t"
    by (simp add: attempt_def demo_renewal)
      (simp add: refreshSession_def chk_def attempt_def lock_client_def return_ctx_Err_def ctx_Err_def get_def raise_def
        ret_def log_event_def exchanges_def st_def demo_env_def)
  moreover have "exchanges ?s = 0" by (simp add: exchanges_def st_def)
  ultimately show ?thesis
    using one_exchange_per_generation [OF gone, of "[Background, Background]" ?s] by (metis add_0 le_antisym)
qed

end
