(* ===== verification/Run_Loop.thy ===== *)
theory Run_Loop
  imports Config Lifecycle
begin

text \<open>
  The life of the reconciler, \<^verbatim>\<open>src/reconciler.go\<close>: the loop that runs the cycles (\<^verbatim>\<open>run\<close>) and
  \<^verbatim>\<open>Shutdown\<close>, which stops it, waits for what is in flight and deletes the pool.
\<close>

section \<open>The loop\<close>

text \<open>
  What \<^verbatim>\<open>select\<close> picks each time the loop waits. \<open>clk\<close> and \<open>ans\<close> give the clock readings and vCD answers of
  each cycle, \<open>others\<close> what the other goroutines did to the group before it. \<open>None\<close>: the loop still
  waits. Otherwise it returned, and closed \<^verbatim>\<open>doneCh\<close>; the number is \<^verbatim>\<open>gcCounter\<close>.
\<close>

datatype wakeup = StopCh | TriggerCh | TickerC

definition run_cycle ::
    "'s sem_lib \<Rightarrow> (nat \<Rightarrow> nat \<Rightarrow> nat \<Rightarrow> time) \<Rightarrow> (nat \<Rightarrow> vcd_answers) \<Rightarrow> nat \<Rightarrow> ('s, 'b) vcdInstanceGroup
     \<Rightarrow> ('s, 'b) vcdInstanceGroup" where
  "run_cycle sem clk ans gcCounter r =
     reconcileOnce sem (clk gcCounter) (ans gcCounter) (int gcCounter mod gcCheckEveryN = 0) r"

fun run ::
    "'s sem_lib \<Rightarrow> (nat \<Rightarrow> nat \<Rightarrow> nat \<Rightarrow> time) \<Rightarrow> (nat \<Rightarrow> vcd_answers)
     \<Rightarrow> (nat \<Rightarrow> ('s, 'b) vcdInstanceGroup \<Rightarrow> ('s, 'b) vcdInstanceGroup)
     \<Rightarrow> nat \<Rightarrow> wakeup list \<Rightarrow> ('s, 'b) vcdInstanceGroup \<Rightarrow> (nat \<times> ('s, 'b) vcdInstanceGroup) option" where
  "run sem clk ans others gcCounter [] r = None"
| "run sem clk ans others gcCounter (StopCh # ws) r = Some (gcCounter, r)"
| "run sem clk ans others gcCounter (TriggerCh # ws) r =
     run sem clk ans others (gcCounter + 1) ws
       (run_cycle sem clk ans gcCounter ((others gcCounter r)\<lparr>triggerCh := False\<rparr>))"
| "run sem clk ans others gcCounter (TickerC # ws) r =
     run sem clk ans others (gcCounter + 1) ws (run_cycle sem clk ans gcCounter (others gcCounter r))"

section \<open>Shutdown\<close>

text \<open>
  The context of \<^verbatim>\<open>Shutdown\<close> as the answers to the successive calls of \<^verbatim>\<open>ctx.Err()\<close>. A \<^verbatim>\<open>select\<close> between
  something and the end of the context is a race.
\<close>

datatype race = Finished "goerror option" | CtxDone goerror

definition withinContext :: "race \<Rightarrow> goerror option" where
  "withinContext w = (case w of Finished err \<Rightarrow> err | CtxDone err \<Rightarrow> Some err)"

record shutdown_env =
  loop_exit :: race
  drain_result :: "goerror option"
  cleanup_race :: "string \<Rightarrow> race"
  ctx_Err_at :: "nat \<Rightarrow> goerror option"
  sd_prefix :: string

datatype action = CloseStopCh | Cancel | CleanUpByName string | DeleteInstance string

record shutdown_state =
  shutdownOnce :: bool
  shutdownErr :: "goerror option"
  actions :: "action list"

definition Join2 :: "goerror option \<Rightarrow> goerror \<Rightarrow> goerror option" where
  "Join2 a b = errors_Join (case a of None \<Rightarrow> [b] | Some e \<Rightarrow> [e, b])"

text \<open>\<^verbatim>\<open>r.ig.failedCreateCleanups.Range\<close>; \<open>n\<close> counts the calls of \<^verbatim>\<open>ctx.Err()\<close>.\<close>

fun shutdown_cleanups :: "shutdown_env \<Rightarrow> nat \<Rightarrow> string list \<Rightarrow> shutdown_state \<Rightarrow> nat \<times> shutdown_state" where
  "shutdown_cleanups env n [] x = (n, x)"
| "shutdown_cleanups env n (key # names) x =
     (let x = x\<lparr>actions := actions x @ [CleanUpByName key]\<rparr>;
          x = (case withinContext (cleanup_race env key) of
                 None \<Rightarrow> x
               | Some err \<Rightarrow>
                   if errors_Is err ErrorEntityNotFound then x
                   else x\<lparr>shutdownErr := Join2 (shutdownErr x) (Errorf (''cleanup failed create '' @ key @ '': '' @ Error err) [err])\<rparr>)
      in if ctx_Err_at env n = None then shutdown_cleanups env (n + 1) names x else (n + 1, x))"

text \<open>The result of a deletion is only logged.\<close>

fun shutdown_deletes :: "shutdown_env \<Rightarrow> nat \<Rightarrow> Instance list \<Rightarrow> shutdown_state \<Rightarrow> nat \<times> shutdown_state" where
  "shutdown_deletes env n [] x = (n, x)"
| "shutdown_deletes env n (inst # rest) x =
     (if ctx_Err_at env n \<noteq> None then (n + 1, x)
      else if ID inst = [] \<or> Phase inst = PhaseDeleted then shutdown_deletes env (n + 1) rest x
      else if \<not> HasPrefix (Name inst) (sd_prefix env) then shutdown_deletes env (n + 1) rest x
      else shutdown_deletes env (n + 1) rest (x\<lparr>actions := actions x @ [DeleteInstance (ID inst)]\<rparr>))"

definition shutdown_body :: "shutdown_env \<Rightarrow> ('s, 'b) vcdInstanceGroup \<Rightarrow> shutdown_state \<Rightarrow> shutdown_state" where
  "shutdown_body env r x =
     (let x = x\<lparr>actions := actions x @ [CloseStopCh, Cancel]\<rparr> in
      case loop_exit env of
        CtxDone err \<Rightarrow> x\<lparr>shutdownErr := Some err\<rparr>
      | Finished _ \<Rightarrow>
      (case drain_result env of
        Some err \<Rightarrow> x\<lparr>shutdownErr := Some (Errorf (''waiting for in-flight operations: '' @ Error err) [err])\<rparr>
      | None \<Rightarrow>
          (let (n, x) = shutdown_cleanups env 0 (map fst (failedCreateCleanups r)) x;
               (n, x) = shutdown_deletes env n (GetAll (store r)) x
           in case ctx_Err_at env n of
                None \<Rightarrow> x
              | Some err \<Rightarrow> x\<lparr>shutdownErr := Join2 (shutdownErr x) (Errorf (''cleanup interrupted: '' @ Error err) [err])\<rparr>)))"

definition Shutdown :: "shutdown_env \<Rightarrow> ('s, 'b) vcdInstanceGroup \<Rightarrow> shutdown_state \<Rightarrow> goerror option \<times> shutdown_state" where
  "Shutdown env r x =
     (let x = (if shutdownOnce x then x else (shutdown_body env r x)\<lparr>shutdownOnce := True\<rparr>)
      in (shutdownErr x, x))"

section \<open>What a shutdown does\<close>

lemma Join2_not_None [simp]: "Join2 a b \<noteq> None"
  by (simp add: Join2_def split: option.splits)

text \<open>The instances a shutdown deletes.\<close>

definition deletable :: "string \<Rightarrow> Instance \<Rightarrow> bool" where
  "deletable pre inst \<longleftrightarrow> ID inst \<noteq> [] \<and> Phase inst \<noteq> PhaseDeleted \<and> HasPrefix (Name inst) pre"

definition harmless :: "race \<Rightarrow> bool" where
  "harmless w \<longleftrightarrow> (case withinContext w of None \<Rightarrow> True | Some err \<Rightarrow> errors_Is err ErrorEntityNotFound)"

lemma shutdown_cleanups_effect:
  assumes "shutdown_cleanups env n names x = (m, y)"
  shows "\<exists>tried rest. names = tried @ rest \<and> actions y = actions x @ map CleanUpByName tried \<and>
           (rest = [] \<or> (\<exists>i<m. ctx_Err_at env i \<noteq> None)) \<and>
           (shutdownErr y = None \<longrightarrow> shutdownErr x = None \<and> (\<forall>key\<in>set tried. harmless (cleanup_race env key)))"
  using assms
proof (induction env n names x rule: shutdown_cleanups.induct)
  case (2 env n key names x)
  define x1 where "x1 = x\<lparr>actions := actions x @ [CleanUpByName key]\<rparr>"
  define x2 where "x2 = (case withinContext (cleanup_race env key) of None \<Rightarrow> x1
     | Some err \<Rightarrow> if errors_Is err ErrorEntityNotFound then x1
         else x1\<lparr>shutdownErr := Join2 (shutdownErr x1) (Errorf (''cleanup failed create '' @ key @ '': '' @ Error err) [err])\<rparr>)"
  have x2: "actions x2 = actions x @ [CleanUpByName key]"
    "shutdownErr x2 = None \<Longrightarrow> shutdownErr x = None \<and> harmless (cleanup_race env key)"
    by (auto simp: x2_def x1_def harmless_def split: option.splits if_splits)
  have run: "(if ctx_Err_at env n = None then shutdown_cleanups env (n + 1) names x2 else (n + 1, x2)) = (m, y)"
    using 2(2) by (simp only: shutdown_cleanups.simps Let_def x1_def [symmetric] x2_def [symmetric])
  show ?case
  proof (cases "ctx_Err_at env n")
    case None
    then obtain tried rest where "names = tried @ rest \<and> actions y = actions x2 @ map CleanUpByName tried \<and>
           (rest = [] \<or> (\<exists>i<m. ctx_Err_at env i \<noteq> None)) \<and>
           (shutdownErr y = None \<longrightarrow> shutdownErr x2 = None \<and> (\<forall>key\<in>set tried. harmless (cleanup_race env key)))"
      using 2(1) [OF x1_def x2_def None] run None by (metis (no_types, lifting))
    then show ?thesis using x2 by (intro exI [of _ "key # tried"] exI [of _ rest]) auto
  next
    case (Some err)
    then show ?thesis using run x2 by (intro exI [of _ "[key]"] exI [of _ names]) auto
  qed
qed auto

definition mark_deleted :: "string \<Rightarrow> Instance \<Rightarrow> shutdown_state \<Rightarrow> shutdown_state" where
  "mark_deleted pre inst x = (if deletable pre inst then x\<lparr>actions := actions x @ [DeleteInstance (ID inst)]\<rparr> else x)"

lemma shutdown_deletes_step:
  "shutdown_deletes env n (inst # rest) x =
     (if ctx_Err_at env n \<noteq> None then (n + 1, x) else shutdown_deletes env (n + 1) rest (mark_deleted (sd_prefix env) inst x))"
  by (simp add: mark_deleted_def deletable_def)

lemma shutdown_deletes_effect:
  assumes "shutdown_deletes env n insts x = (m, y)"
  shows "n \<le> m \<and> shutdownErr y = shutdownErr x \<and>
         (\<exists>tried rest. insts = tried @ rest \<and> (rest = [] \<or> (\<exists>i<m. ctx_Err_at env i \<noteq> None)) \<and>
            actions y = actions x @ map (DeleteInstance \<circ> ID) (filter (deletable (sd_prefix env)) tried))"
  using assms
proof (induction insts arbitrary: n x)
  case (Cons inst insts)
  show ?case
  proof (cases "ctx_Err_at env n")
    case (Some err)
    then have "m = n + 1 \<and> y = x" using Cons.prems by simp
    then show ?thesis using Some by (intro conjI exI [of _ "[]"] exI [of _ "inst # insts"]) auto
  next
    case None
    then have "shutdown_deletes env (n + 1) insts (mark_deleted (sd_prefix env) inst x) = (m, y)"
      using Cons.prems by (simp only: shutdown_deletes_step) simp
    from Cons.IH [OF this] obtain tried rest where
      "n + 1 \<le> m" "shutdownErr y = shutdownErr (mark_deleted (sd_prefix env) inst x)" "insts = tried @ rest" "rest = [] \<or> (\<exists>i<m. ctx_Err_at env i \<noteq> None)"
      "actions y = actions (mark_deleted (sd_prefix env) inst x) @ map (DeleteInstance \<circ> ID) (filter (deletable (sd_prefix env)) tried)"
      by blast
    then show ?thesis by (intro conjI exI [of _ "inst # tried"] exI [of _ rest]) (auto simp: mark_deleted_def)
  qed
qed simp

definition fresh_shutdown :: shutdown_state where
  "fresh_shutdown = \<lparr>shutdownOnce = False, shutdownErr = None, actions = []\<rparr>"

text \<open>A context that ended stays ended.\<close>

definition context_documented :: "shutdown_env \<Rightarrow> bool" where
  "context_documented env \<longleftrightarrow> (\<forall>i j. i \<le> j \<longrightarrow> ctx_Err_at env i \<noteq> None \<longrightarrow> ctx_Err_at env j \<noteq> None)"

lemma shutdown_body_effect:
  assumes stays: "context_documented env"
    and y: "y = shutdown_body env r fresh_shutdown"
    and ready: "loop_exit env = Finished e" "drain_result env = None"
  shows "\<exists>tried rest insts others. map fst (failedCreateCleanups r) = tried @ rest \<and> GetAll (store r) = insts @ others \<and>
     actions y = [CloseStopCh, Cancel] @ map CleanUpByName tried @ map (DeleteInstance \<circ> ID) (filter (deletable (sd_prefix env)) insts) \<and>
     (shutdownErr y = None \<longrightarrow> rest = [] \<and> others = [] \<and> (\<forall>key\<in>set tried. harmless (cleanup_race env key)))"
proof -
  obtain n x1 where c: "shutdown_cleanups env 0 (map fst (failedCreateCleanups r)) (fresh_shutdown\<lparr>actions := [CloseStopCh, Cancel]\<rparr>) = (n, x1)"
    by fastforce
  obtain m x2 where d: "shutdown_deletes env n (GetAll (store r)) x1 = (m, x2)" by fastforce
  have y': "actions y = actions x2" "shutdownErr y = None \<longleftrightarrow> shutdownErr x2 = None \<and> ctx_Err_at env m = None"
    using c d y by (auto simp: shutdown_body_def ready fresh_shutdown_def split: option.splits)
  obtain insts others where d': "n \<le> m" "shutdownErr x2 = shutdownErr x1" "GetAll (store r) = insts @ others"
      "others = [] \<or> (\<exists>i<m. ctx_Err_at env i \<noteq> None)"
      "actions x2 = actions x1 @ map (DeleteInstance \<circ> ID) (filter (deletable (sd_prefix env)) insts)"
    using shutdown_deletes_effect [OF d] by auto
  obtain tried rest where "map fst (failedCreateCleanups r) = tried @ rest \<and>
      actions x1 = actions (fresh_shutdown\<lparr>actions := [CloseStopCh, Cancel]\<rparr>) @ map CleanUpByName tried \<and>
      (rest = [] \<or> (\<exists>i<n. ctx_Err_at env i \<noteq> None)) \<and>
      (shutdownErr x1 = None \<longrightarrow> shutdownErr (fresh_shutdown\<lparr>actions := [CloseStopCh, Cancel]\<rparr>) = None \<and>
         (\<forall>key\<in>set tried. harmless (cleanup_race env key)))"
    using shutdown_cleanups_effect [OF c] by (elim exE) (rule that)
  then have c': "map fst (failedCreateCleanups r) = tried @ rest"
      "actions x1 = [CloseStopCh, Cancel] @ map CleanUpByName tried" "rest = [] \<or> (\<exists>i<n. ctx_Err_at env i \<noteq> None)"
      "shutdownErr x1 = None \<Longrightarrow> (\<forall>key\<in>set tried. harmless (cleanup_race env key))"
    by simp_all
  have ended: "rest = [] \<and> others = []" if "shutdownErr y = None"
  proof -
    have "ctx_Err_at env i = None" if "i < m" for i
      using stays y'(2) \<open>shutdownErr y = None\<close> that unfolding context_documented_def by (metis less_imp_le)
    then show ?thesis using c'(3) d'(1,4) by (meson less_le_trans)
  qed
  have tried: "\<forall>key\<in>set tried. harmless (cleanup_race env key)" if "shutdownErr y = None"
    using c'(4) d'(2) y'(2) that by simp
  have acts: "actions y = [CloseStopCh, Cancel] @ map CleanUpByName tried @
      map (DeleteInstance \<circ> ID) (filter (deletable (sd_prefix env)) insts)"
    by (simp only: y'(1) d'(5) c'(2) append_assoc)
  show ?thesis
    by (rule exI [of _ tried], rule exI [of _ rest], rule exI [of _ insts], rule exI [of _ others])
      (intro conjI impI c'(1) d'(3) acts tried ended [THEN conjunct1] ended [THEN conjunct2])
qed

text \<open>
  C17: a shutdown that returns nil stopped the loop, waited until nothing was in flight, cleaned up every
  failed create (or vCD did not know it) and called for the deletion of every instance of the pool with an
  HREF and the configured name prefix. Whatever it returns, it deletes nothing before the loop and all
  operations ended, and never a vApp whose name lacks the prefix. A second call does nothing and returns
  the same.
\<close>

theorem shutdown_clears_pool:
  assumes "context_documented env" and "Shutdown env r fresh_shutdown = (err, y)"
  shows "(err = None \<longrightarrow> (\<exists>e. loop_exit env = Finished e) \<and> drain_result env = None \<and>
            actions y = [CloseStopCh, Cancel] @ map CleanUpByName (map fst (failedCreateCleanups r)) @
              map (DeleteInstance \<circ> ID) (filter (deletable (sd_prefix env)) (GetAll (store r))) \<and>
            (\<forall>key\<in>fst ` set (failedCreateCleanups r). harmless (cleanup_race env key))) \<and>
         (\<forall>href. DeleteInstance href \<in> set (actions y) \<longrightarrow> (\<exists>e. loop_exit env = Finished e) \<and> drain_result env = None \<and>
            (\<exists>inst\<in>set (GetAll (store r)). ID inst = href \<and> deletable (sd_prefix env) inst)) \<and>
         Shutdown env' r' y = (err, y)"
proof -
  let ?b = "shutdown_body env r fresh_shutdown"
  have y: "y = ?b\<lparr>shutdownOnce := True\<rparr>" "err = shutdownErr ?b"
    using assms(2) by (auto simp: Shutdown_def fresh_shutdown_def)
  show ?thesis
  proof (cases "(\<exists>e. loop_exit env = Finished e) \<and> drain_result env = None")
    case True
    then obtain e where ready: "loop_exit env = Finished e" "drain_result env = None" by blast
    from shutdown_body_effect [where r = r, OF assms(1) HOL.refl ready]
    obtain tried rest insts others where
      split: "map fst (failedCreateCleanups r) = tried @ rest" "GetAll (store r) = insts @ others" and
      acts: "actions ?b = [CloseStopCh, Cancel] @ map CleanUpByName tried @
        map (DeleteInstance \<circ> ID) (filter (deletable (sd_prefix env)) insts)" and
      nil: "shutdownErr ?b = None \<longrightarrow> rest = [] \<and> others = [] \<and> (\<forall>key\<in>set tried. harmless (cleanup_race env key))"
      by (elim exE conjE) (rule that)
    have acts_y: "actions y = [CloseStopCh, Cancel] @ map CleanUpByName tried @
        map (DeleteInstance \<circ> ID) (filter (deletable (sd_prefix env)) insts)"
      by (simp add: y(1) acts)
    have deletes: "\<exists>inst\<in>set (GetAll (store r)). ID inst = href \<and> deletable (sd_prefix env) inst"
      if "DeleteInstance href \<in> set (actions y)" for href
      using that unfolding split(2) acts_y by auto
    have all: "actions y = [CloseStopCh, Cancel] @ map CleanUpByName (map fst (failedCreateCleanups r)) @
        map (DeleteInstance \<circ> ID) (filter (deletable (sd_prefix env)) (GetAll (store r))) \<and>
        (\<forall>key\<in>fst ` set (failedCreateCleanups r). harmless (cleanup_race env key))" if "err = None"
      using nil that split unfolding y(2) set_map [symmetric] acts_y by simp
    have again: "Shutdown env' r' y = (err, y)" by (simp add: Shutdown_def y)
    show ?thesis
      by (intro conjI impI allI again deletes all [THEN conjunct1] all [THEN conjunct2] True [THEN conjunct1]
          True [THEN conjunct2])
  next
    case False
    then have "shutdownErr ?b \<noteq> None \<and> actions ?b = [CloseStopCh, Cancel]"
      by (cases "loop_exit env"; cases "drain_result env") (simp_all add: shutdown_body_def fresh_shutdown_def Let_def)
    then show ?thesis using y by (auto simp: Shutdown_def)
  qed
qed

text \<open>A shutdown of a pool with a failed create, an instance of the group and a foreign one.\<close>

definition sample_pool :: "(int \<times> int, duration) vcdInstanceGroup" where
  "sample_pool = (newVCDInstanceGroup counting_sem (plain_backoff circuitBreakerCooldown circuitBreakerMaxCooldown) 0
     (snd (AddLeftover 3 ''h2'' ''other'' (snd (AddLeftover 3 ''h1'' ''p-1'' (newDesiredStateStore ''g'')))))
     \<lparr>MaxConcurrentCreates = 0, MaxConcurrentDeletes = 0, MaxConcurrentOperations = 0, Interval = 0,
      MaxInstanceAge = 0, PollReadTimeout = 0, CreateTimeout = 0, StartupCleanupTimeout = 0\<rparr>)
     \<lparr>failedCreateCleanups := [(''p-2'', 1)]\<rparr>"

definition calm_shutdown :: shutdown_env where
  "calm_shutdown = \<lparr>loop_exit = Finished None, drain_result = None, cleanup_race = (\<lambda>_. Finished None),
     ctx_Err_at = (\<lambda>_. None), sd_prefix = ''p-''\<rparr>"

theorem shutdown_clears_pool_witness:
  "\<exists>y. Shutdown calm_shutdown sample_pool fresh_shutdown = (None, y) \<and>
     actions y = [CloseStopCh, Cancel, CleanUpByName ''p-2'', DeleteInstance ''h1'']"
proof -
  have doc: "context_documented calm_shutdown" by (simp add: context_documented_def calm_shutdown_def)
  have "fst (Shutdown calm_shutdown sample_pool fresh_shutdown) = None" by code_simp
  then obtain y where run: "Shutdown calm_shutdown sample_pool fresh_shutdown = (None, y)" by (metis prod.collapse)
  have "map fst (failedCreateCleanups sample_pool) = [''p-2'']"
    "map (DeleteInstance \<circ> ID) (filter (deletable (sd_prefix calm_shutdown)) (GetAll (store sample_pool))) = [DeleteInstance ''h1'']"
    by code_simp+
  then show ?thesis using run shutdown_clears_pool [OF doc run, of calm_shutdown sample_pool] by simp
qed

section \<open>When the loop collects garbage\<close>

text \<open>The cycles a run makes, in order, and which of them check for garbage: the first and every 360th after it.\<close>

lemma run_counts:
  "run sem clk ans others n ws r = Some (m, t) \<Longrightarrow>
     StopCh \<in> set ws \<and> m = n + length (takeWhile (\<lambda>w. w \<noteq> StopCh) ws)"
  by (induction sem clk ans others n ws r rule: run.induct) auto

lemma run_returns: "StopCh \<in> set ws \<Longrightarrow> \<exists>m t. run sem clk ans others n ws r = Some (m, t)"
  by (induction sem clk ans others n ws r rule: run.induct) auto

end
