(* ===== verification/Debug_View.thy ===== *)
theory Debug_View
  imports Reconciler Lifecycle "HOL-Library.List_Lexorder" "HOL-Library.Char_ord" "HOL-Library.Product_Lexorder"
begin

text \<open>
  The views of the debug server, \<^verbatim>\<open>src/debug.go\<close>: what the page, its fragments and the JSON status show.
  How times are printed, the routes and the responses are in \<open>Debug_Format\<close>. \<^verbatim>\<open>GetAll\<close> ranges over a Go map, so its
  order is arbitrary: the views take the list it returned as the argument \<open>all\<close>.
\<close>

section \<open>Rows\<close>

definition phaseOrder :: "Phase list" where
  "phaseOrder = [PhaseCreating, PhasePendingCreate, PhaseRunning, PhaseDeleting, PhasePendingDelete, PhaseDeleted]"

record instanceView = Instance +
  Source :: string
  PhaseSince :: "time option"

definition instanceSource :: "Instance \<Rightarrow> string" where
  "instanceSource inst =
     (if Leftover inst then ''leftover''
      else if CreatedAt inst = None then ''preexisting''
      else ''created'')"

fun phase_stamp :: "Phase \<Rightarrow> Instance \<Rightarrow> time option" where
  "phase_stamp PhasePendingCreate = CreatedAt"
| "phase_stamp PhaseCreating = CreateStartedAt"
| "phase_stamp PhaseRunning = CreateCompletedAt"
| "phase_stamp PhasePendingDelete = DeleteRequestedAt"
| "phase_stamp PhaseDeleting = DeleteStartedAt"
| "phase_stamp PhaseDeleted = DeleteCompletedAt"

definition phaseSince :: "Instance \<Rightarrow> time option" where
  "phaseSince inst = phase_stamp (Phase inst) inst"

definition view_of :: "Instance \<Rightarrow> instanceView" where
  "view_of inst = Instance.extend inst (instanceView.fields (instanceSource inst) (phaseSince inst))"

section \<open>The order of the rows\<close>

text \<open>\<^verbatim>\<open>for i, p := range phaseOrder { rank[p] = i }\<close>; a phase that is not in the map has rank 0.\<close>

fun rank_in :: "Phase list \<Rightarrow> nat \<Rightarrow> Phase \<Rightarrow> nat \<Rightarrow> nat" where
  "rank_in [] i p r = r"
| "rank_in (q # qs) i p r = rank_in qs (i + 1) p (if q = p then i else r)"

definition rank :: "Phase \<Rightarrow> nat" where
  "rank p = rank_in phaseOrder 0 p 0"

definition view_less :: "instanceView \<Rightarrow> instanceView \<Rightarrow> bool" where
  "view_less a b =
     (if rank (Phase a) \<noteq> rank (Phase b) then rank (Phase a) < rank (Phase b)
      else if Name a \<noteq> Name b then Name a < Name b
      else IntentID a < IntentID b)"

text \<open>\<^verbatim>\<open>sort.SliceStable\<close>: a sort by comparisons that keeps the order of equal elements.\<close>

fun insert_stable :: "('a \<Rightarrow> 'a \<Rightarrow> bool) \<Rightarrow> 'a \<Rightarrow> 'a list \<Rightarrow> 'a list" where
  "insert_stable lt x [] = [x]"
| "insert_stable lt x (y # ys) = (if lt y x then y # insert_stable lt x ys else x # y # ys)"

definition SliceStable :: "('a \<Rightarrow> 'a \<Rightarrow> bool) \<Rightarrow> 'a list \<Rightarrow> 'a list" where
  "SliceStable lt xs = foldr (insert_stable lt) xs []"

definition shown :: "bool \<Rightarrow> string \<Rightarrow> Instance \<Rightarrow> bool" where
  "shown hideDeleted phase inst =
     (if hideDeleted \<and> Phase inst = PhaseDeleted then False
      else if phase \<noteq> [] \<and> Phase_String (Phase inst) \<noteq> phase then False
      else True)"

definition instances_view :: "bool \<Rightarrow> string \<Rightarrow> Instance list \<Rightarrow> instanceView list" where
  "instances_view hideDeleted phase all = SliceStable view_less (map view_of (filter (shown hideDeleted phase) all))"

section \<open>The summary\<close>

record summaryView =
  sum_Name :: string
  sum_Status :: DebugStatus
  Phases :: "(string \<times> nat) list"
  Total :: nat
  Now :: time

definition summary :: "string \<Rightarrow> DebugStatus \<Rightarrow> time \<Rightarrow> Instance list \<Rightarrow> summaryView" where
  "summary name stat now all =
     (let counts = (\<lambda>p. length (filter (\<lambda>inst. Phase inst = p) all)) in
      \<lparr>sum_Name = name, sum_Status = stat,
       Phases = map (\<lambda>p. (Phase_String p, counts p)) (filter (\<lambda>p. 0 < counts p) phaseOrder),
       Total = length all, Now = now\<rparr>)"

definition phaseNames :: "string list" where
  "phaseNames = map Phase_String phaseOrder"

section \<open>What the handlers show\<close>

text \<open>The data \<^verbatim>\<open>handlePage\<close> and \<^verbatim>\<open>handleInstances\<close> pass to their templates; the summary and the rows read the
  store one after the other, so each has a list of its own.\<close>

definition handlePage ::
    "string \<Rightarrow> DebugStatus \<Rightarrow> time \<Rightarrow> Instance list \<Rightarrow> Instance list \<Rightarrow> summaryView \<times> instanceView list \<times> string list" where
  "handlePage name stat now all1 all2 = (summary name stat now all1, instances_view True [] all2, phaseNames)"

definition handleInstances :: "string \<Rightarrow> string \<Rightarrow> Instance list \<Rightarrow> instanceView list" where
  "handleInstances hide_deleted phase all = instances_view (hide_deleted \<noteq> []) phase all"

record apiInstance =
  api_IntentID :: string
  api_HREF :: string
  api_Name :: string
  api_Phase :: string
  api_Source :: string
  api_Leftover :: bool
  api_IPAddress :: string
  api_Retries :: int
  api_LastError :: string
  api_Since :: "time option"

definition api_of :: "instanceView \<Rightarrow> apiInstance" where
  "api_of v = \<lparr>api_IntentID = IntentID v, api_HREF = ID v, api_Name = Name v, api_Phase = Phase_String (Phase v),
     api_Source = Source v, api_Leftover = Leftover v, api_IPAddress = IPAddress v, api_Retries = RetryCount v,
     api_LastError = LastError v, api_Since = PhaseSince v\<rparr>"

text \<open>The JSON object: the status, the count of each phase that occurs (a Go map), every instance.\<close>

definition handleAPIStatus ::
    "string \<Rightarrow> DebugStatus \<Rightarrow> time \<Rightarrow> Instance list \<Rightarrow> Instance list
     \<Rightarrow> string \<times> DebugStatus \<times> (string \<rightharpoonup> nat) \<times> apiInstance list" where
  "handleAPIStatus name stat now all1 all2 =
     (let sum = summary name stat now all1 in
      (name, sum_Status sum, fold (\<lambda>(p, n) m. m(p \<mapsto> n)) (Phases sum) Map.empty, map api_of (instances_view False [] all2)))"

text \<open>The template function \<^verbatim>\<open>shortHREF\<close>: what follows the last slash, at most 13 bytes.\<close>

definition shortHREF :: "string \<Rightarrow> string" where
  "shortHREF href =
     (let href = (if CHR ''/'' \<in> set href then rev (takeWhile (\<lambda>c. c \<noteq> CHR ''/'') (rev href)) else href)
      in if 13 < length href then take 13 href else href)"

section \<open>The rows have one order\<close>

text \<open>A stable sort by comparisons is a sort by a key, when the comparison compares keys.\<close>

lemma insert_stable_insort_key:
  assumes "\<And>a b. lt a b \<longleftrightarrow> f a < (f b :: 'k :: linorder)"
  shows "insert_stable lt x xs = insort_key f x xs"
  by (induction xs) (auto simp: assms not_less)

lemma SliceStable_sort_key:
  assumes "\<And>a b. lt a b \<longleftrightarrow> f a < (f b :: 'k :: linorder)"
  shows "SliceStable lt xs = sort_key f xs"
proof -
  have "insert_stable lt = insort_key f" by (intro ext insert_stable_insort_key assms)
  then show ?thesis by (simp add: SliceStable_def sort_key_def)
qed

definition view_key :: "instanceView \<Rightarrow> nat \<times> string \<times> string" where
  "view_key v = (rank (Phase v), Name v, IntentID v)"

lemma view_less_key: "view_less a b \<longleftrightarrow> view_key a < view_key b"
  by (auto simp: view_less_def view_key_def less_prod_def less_eq_prod_def)

lemma view_of_fields [simp]:
  "Phase (view_of i) = Phase i" "Name (view_of i) = Name i" "IntentID (view_of i) = IntentID i"
  by (simp_all add: view_of_def Instance.defs instanceView.defs)

lemma instances_view_key: "instances_view h p all = sort_key view_key (map view_of (filter (shown h p) all))"
  unfolding instances_view_def by (rule SliceStable_sort_key) (rule view_less_key)

text \<open>Sorting by a key that tells the elements apart forgets the order they came in.\<close>

lemma sort_key_mset:
  assumes "mset xs = mset ys" and "inj_on f (set xs)"
  shows "sort_key f xs = sort_key f ys"
  by (rule sort_key_inj_key_eq) (use assms in simp_all)

lemma view_key_inj: "distinct (map IntentID all) \<Longrightarrow> inj_on view_key (view_of ` set all)"
  by (auto simp: inj_on_def view_key_def distinct_map)

text \<open>
  C38: the rows of the debug page do not depend on the order in which Go ranges over the store's map: for
  every order they are the shown instances sorted by phase rank, then name, then intent ID. So rows do not
  move between refreshes of an unchanged store.
\<close>

theorem debug_rows_canonical:
  assumes "index_inv s" and "mset all = mset (GetAll s)"
  shows "instances_view hideDeleted phase all =
         sort_key view_key (map view_of (filter (shown hideDeleted phase) (GetAll s)))"
  unfolding instances_view_key
proof (rule sort_key_mset)
  show "mset (map view_of (filter (shown hideDeleted phase) all)) = mset (map view_of (filter (shown hideDeleted phase) (GetAll s)))"
    by (simp add: assms(2))
  have "set all = set (GetAll s)" using assms(2) by (rule mset_eq_setD)
  then have "inj_on view_key (view_of ` set all)"
    using view_key_inj [OF GetAll_distinct [OF assms(1)]] by simp
  then show "inj_on view_key (set (map view_of (filter (shown hideDeleted phase) all)))"
    by (rule inj_on_subset) auto
qed

text \<open>A store with two pending intents and a leftover.\<close>

definition sample_store :: desiredStateStore where
  "sample_store = snd (AddLeftover 3 ''h'' ''old'' (AddCreateIntent 2 ''a'' (AddCreateIntent 1 ''b'' (newDesiredStateStore ''g''))))"

lemma sample_store_inv: "index_inv sample_store"
  unfolding sample_store_def
  by (intro AddLeftover_inv AddCreateIntent_refines(1) newDesiredStateStore_inv)
    (simp_all add: AddCreateIntent_def newDesiredStateStore_def GetByIntentID_def alloc_def Let_def)

theorem debug_rows_canonical_witness:
  "map IntentID (instances_view False [] (rev (GetAll sample_store))) = [''a'', ''b'', ''h''] \<and>
   instances_view False [] (rev (GetAll sample_store)) = instances_view False [] (GetAll sample_store)"
proof -
  have "map IntentID (instances_view False [] (rev (GetAll sample_store))) = [''a'', ''b'', ''h'']" by code_simp
  then show ?thesis
    using debug_rows_canonical [OF sample_store_inv, of "rev (GetAll sample_store)" False "[]"]
      debug_rows_canonical [OF sample_store_inv, of "GetAll sample_store" False "[]"] by simp
qed

section \<open>The counts add up\<close>

lemma phaseOrder_complete: "set phaseOrder = UNIV" "distinct phaseOrder"
proof -
  have "p \<in> set phaseOrder" for p by (cases p) (simp_all add: phaseOrder_def)
  then show "set phaseOrder = UNIV" by auto
qed (simp add: phaseOrder_def)

lemma count_by_class:
  "distinct ps \<Longrightarrow> set ps = UNIV \<Longrightarrow> (\<Sum>p\<leftarrow>ps. length (filter (\<lambda>x. f x = p) xs)) = length xs"
proof (induction xs)
  case (Cons x xs)
  have "(\<Sum>p\<leftarrow>ps. length (filter (\<lambda>y. f y = p) (x # xs))) =
      (\<Sum>p\<leftarrow>ps. of_bool (f x = p)) + (\<Sum>p\<leftarrow>ps. length (filter (\<lambda>y. f y = p) xs))"
    by (auto simp: sum_list_addf [symmetric] intro!: arg_cong [where f = sum_list])
  moreover have "(\<Sum>p\<leftarrow>ps. of_bool (f x = p)) = (1 :: nat)"
    using Cons.prems List.finite_set [of ps] by (simp add: sum_list_distinct_conv_sum_set of_bool_def)
  ultimately show ?case using Cons by simp
qed simp

lemma sum_positive: "(\<Sum>p\<leftarrow>filter (\<lambda>p. 0 < f p) ps. f p) = (\<Sum>p\<leftarrow>ps. f p :: nat)"
  by (induction ps) auto

lemma fold_map_upds:
  "distinct (map fst ps) \<Longrightarrow> fold (\<lambda>(p, n) m. m(p \<mapsto> n)) ps m k = (case map_of ps k of Some n \<Rightarrow> Some n | None \<Rightarrow> m k)"
  by (induction ps arbitrary: m) (auto simp: dom_map_of_conv_image_fst split: option.splits dest!: map_of_SomeD, force)

lemma map_of_filtered:
  "inj g \<Longrightarrow> map_of (map (\<lambda>p. (g p, c p)) (filter Q ps)) (g p) = (if p \<in> set ps \<and> Q p then Some (c p) else None)"
  by (induction ps) (auto dest: injD)

lemma inj_Phase_String: "inj Phase_String"
  by (simp add: inj_def)

definition rows_in :: "Phase \<Rightarrow> apiInstance list \<Rightarrow> nat" where
  "rows_in p rows = length (filter (\<lambda>i. api_Phase i = Phase_String p) rows)"

lemma rows_in_api: "rows_in p (map api_of (instances_view False [] all)) = length (filter (\<lambda>i. Phase i = p) all)"
proof -
  have "length (filter (\<lambda>v. Phase v = p) (instances_view False [] all)) = length (filter (\<lambda>v. Phase v = p) (map view_of all))"
    unfolding instances_view_key
    by (metis (no_types, lifting) filter_True mset_filter mset_sort shown_def size_mset)
  then show ?thesis by (simp add: rows_in_def filter_map o_def api_of_def)
qed

text \<open>
  The JSON status is consistent: when the store does not change between its two reads, the count of
  each phase is the number of listed instances in that phase, phases that do not occur are left out, and
  the counts add up to the number of instances listed, which is the whole store.
\<close>

theorem api_status_consistent:
  assumes "mset all1 = mset (GetAll s)" and "mset all2 = mset (GetAll s)"
    and "handleAPIStatus name stat now all1 all2 = (n, st, phases, rows)"
  shows "(\<forall>p. phases (Phase_String p) = (if rows_in p rows = 0 then None else Some (rows_in p rows))) \<and>
         (\<Sum>p\<leftarrow>phaseOrder. rows_in p rows) = length rows \<and> length rows = length (GetAll s)"
proof -
  have rows: "rows = map api_of (instances_view False [] all2)"
    and phases: "phases = fold (\<lambda>(p, n) m. m(p \<mapsto> n)) (Phases (summary name stat now all1)) Map.empty"
    using assms(3) by (auto simp: handleAPIStatus_def Let_def)
  define c where "c = (\<lambda>p. length (filter (\<lambda>i. Phase i = p) all1))"
  have "mset (filter P all1) = mset (filter P all2)" for P by (simp add: assms)
  then have c: "rows_in p rows = c p" for p
    unfolding rows rows_in_api c_def by (metis size_mset)
  have ps: "Phases (summary name stat now all1) = map (\<lambda>p. (Phase_String p, c p)) (filter (\<lambda>p. 0 < c p) phaseOrder)"
    by (simp add: summary_def Let_def c_def)
  have "distinct (map fst (Phases (summary name stat now all1)))"
    by (simp add: ps o_def distinct_map phaseOrder_complete inj_on_def)
  then have "phases (Phase_String p) = (if c p = 0 then None else Some (c p))" for p
    by (simp add: phases fold_map_upds ps map_of_filtered [OF inj_Phase_String] phaseOrder_complete split: option.splits)
  moreover have "length rows = length all2"
    by (simp add: rows instances_view_key shown_def)
  moreover have "length all1 = length all2" "length all2 = length (GetAll s)"
    using assms(1,2) by (metis size_mset)+
  ultimately show ?thesis
    using count_by_class [OF phaseOrder_complete(2,1), of Phase all1] by (simp add: c c_def [symmetric])
qed

theorem api_status_consistent_witness:
  "\<exists>phases rows. handleAPIStatus ''g'' DebugStatus0 9 (GetAll sample_store) (rev (GetAll sample_store)) =
       (''g'', DebugStatus0, phases, rows) \<and> phases ''PendingCreate'' = Some 2 \<and> length rows = 3"
proof -
  obtain n stat phases rows where
    run: "handleAPIStatus ''g'' DebugStatus0 9 (GetAll sample_store) (rev (GetAll sample_store)) = (n, stat, phases, rows)"
    using prod_cases4 by blast
  have "n = ''g''" "stat = DebugStatus0" "rows = map api_of (instances_view False [] (rev (GetAll sample_store)))"
    using run by (auto simp: handleAPIStatus_def Let_def summary_def)
  moreover have "rows_in PhasePendingCreate (map api_of (instances_view False [] (rev (GetAll sample_store)))) = 2"
    "length (GetAll sample_store) = 3" by code_simp+
  ultimately show ?thesis
    using run api_status_consistent [OF _ _ run] by (force dest: spec [of _ PhasePendingCreate])
qed

end
