(* ===== verification/Provider.thy ===== *)
theory Provider
  imports Vcd Run_Loop Debug_View
begin

text \<open>
  What fleeting calls, \<^verbatim>\<open>src/provider.go\<close>: \<^verbatim>\<open>Init\<close>, \<^verbatim>\<open>Increase\<close>, \<^verbatim>\<open>Decrease\<close>, \<^verbatim>\<open>Update\<close>, \<^verbatim>\<open>ConnectInfo\<close>,
  \<^verbatim>\<open>Heartbeat\<close> and \<^verbatim>\<open>Shutdown\<close>, on top of the configuration, the reconciler and the vCD calls.
\<close>

section \<open>Starting\<close>

definition maxSize :: int where
  "maxSize = 128"

text \<open>
  \<^verbatim>\<open>path.Join\<close>: the parts joined with slashes and cleaned. Empty parts and dots vanish, \<^verbatim>\<open>..\<close> removes the
  part before it, at the root it vanishes. \<open>out\<close> holds the parts kept, the last first.
\<close>

fun split_slash :: "string \<Rightarrow> string \<Rightarrow> string list" where
  "split_slash acc [] = [rev acc]"
| "split_slash acc (c # cs) = (if c = CHR ''/'' then rev acc # split_slash [] cs else split_slash (c # acc) cs)"

fun clean_parts :: "bool \<Rightarrow> string list \<Rightarrow> string list \<Rightarrow> string list" where
  "clean_parts rooted out [] = rev out"
| "clean_parts rooted out (p # ps) =
     (if p = [] \<or> p = ''.'' then clean_parts rooted out ps
      else if p = ''..'' then
        (case out of
           q # qs \<Rightarrow> if q = ''..'' then clean_parts rooted (p # out) ps else clean_parts rooted qs ps
         | [] \<Rightarrow> clean_parts rooted (if rooted then [] else [p]) ps)
      else clean_parts rooted (p # out) ps)"

fun join_slash :: "string list \<Rightarrow> string" where
  "join_slash [] = []"
| "join_slash [p] = p"
| "join_slash (p # ps) = p @ ''/'' @ join_slash ps"

definition Clean :: "string \<Rightarrow> string" where
  "Clean p =
     (let rooted = HasPrefix p ''/''; res = (if rooted then ''/'' else []) @ join_slash (clean_parts rooted [] (split_slash [] p))
      in if res = [] then ''.'' else res)"

definition path_Join :: "string list \<Rightarrow> string" where
  "path_Join parts =
     (let parts = filter (\<lambda>p. p \<noteq> []) parts in if parts = [] then [] else Clean (join_slash parts))"

record ProviderInfo =
  info_ID :: string
  MaxSize :: int

text \<open>The group as \<^verbatim>\<open>Init\<close> leaves it: its configuration, the reconciler, the address the debug server listens on.\<close>

record ('s, 'b, 'u) plugin =
  pl_config :: "'u InstanceGroup"
  pl_ig :: "('s, 'b) vcdInstanceGroup option"
  pl_httpServer :: "string option"

definition reconciler_config :: "'u InstanceGroup \<Rightarrow> ReconcilerConfig" where
  "reconciler_config g =
     \<lparr>MaxConcurrentCreates = ig_MaxConcurrentCreates g, MaxConcurrentDeletes = ig_MaxConcurrentDeletes g,
      MaxConcurrentOperations = ig_MaxConcurrentOperations g, Interval = 0, MaxInstanceAge = 0, PollReadTimeout = 0,
      CreateTimeout = createTimeout g, StartupCleanupTimeout = startupCleanupTimeout g\<rparr>"

definition provider_info :: "'u InstanceGroup \<Rightarrow> ProviderInfo" where
  "provider_info g =
     \<lparr>info_ID = path_Join [''vcd'', Org g, VirtualDatacenter g, Network g, VAppNamePrefix g, InstanceGroupName g],
      MaxSize = maxSize\<rparr>"

text \<open>\<open>now\<close> is the time \<^verbatim>\<open>newVCDInstanceGroup\<close> reads. The goroutines \<^verbatim>\<open>Init\<close> starts are the loop \<open>run\<close> and the server.\<close>

definition Init ::
    "'s sem_lib \<Rightarrow> 'b bo_lib \<Rightarrow> time \<Rightarrow> (string \<Rightarrow> goerror + 'u) \<Rightarrow> (string \<Rightarrow> goerror + duration) \<Rightarrow> Settings
     \<Rightarrow> ('s, 'b, 'u) plugin \<Rightarrow> (goerror + ProviderInfo) \<times> ('s, 'b, 'u) plugin" where
  "Init sem lib now url_Parse ParseDuration st p =
     (case validate url_Parse ((pl_config p)\<lparr>settings := st\<rparr>) of
        (Some err, g) \<Rightarrow> (Inl err, p\<lparr>pl_config := g\<rparr>)
      | (None, g) \<Rightarrow>
      (case populate url_Parse ParseDuration g of
        (Some err, g) \<Rightarrow> (Inl err, p\<lparr>pl_config := g\<rparr>)
      | (None, g) \<Rightarrow>
          if \<not> UseStaticCredentials (settings g)
          then (Inl (errors_New ''dynamic credentials are not supported yet''), p\<lparr>pl_config := g\<rparr>)
          else
            (Inr (provider_info g),
             p\<lparr>pl_config := g,
               pl_ig := Some (newVCDInstanceGroup sem lib now (newDesiredStateStore (InstanceGroupName g)) (reconciler_config g)),
               pl_httpServer := (if DebugServerAddr g \<noteq> [] then Some (DebugServerAddr g) else None)\<rparr>)))"

section \<open>Scaling\<close>

text \<open>\<open>gen\<close> are the intent IDs drawn, one for each new instance: \<open>delta\<close> of them.\<close>

definition provider_Increase ::
    "(nat \<Rightarrow> time) \<Rightarrow> (goerror + string) list \<Rightarrow> ('s, 'b) vcdInstanceGroup \<Rightarrow> int \<times> ('s, 'b) vcdInstanceGroup" where
  "provider_Increase clk gen r = (let (ids, r) = Increase clk gen r in (int (length ids), r))"

definition provider_Decrease ::
    "(nat \<Rightarrow> time) \<Rightarrow> string list \<Rightarrow> ('s, 'b) vcdInstanceGroup \<Rightarrow> string list \<times> ('s, 'b) vcdInstanceGroup" where
  "provider_Decrease clk instancesToDelete r =
     (if length instancesToDelete = 0 then ([], r) else (instancesToDelete, Decrease clk instancesToDelete r))"

section \<open>Reporting\<close>

fun provider_state :: "Phase \<Rightarrow> fleeting_state" where
  "provider_state PhasePendingCreate = StateCreating"
| "provider_state PhaseCreating = StateCreating"
| "provider_state PhaseRunning = StateRunning"
| "provider_state PhasePendingDelete = StateDeleting"
| "provider_state PhaseDeleting = StateDeleting"
| "provider_state PhaseDeleted = StateRunning"

text \<open>The calls of \<^verbatim>\<open>update\<close> in order, and the value of the pool size gauge.\<close>

fun Update_loop :: "Instance list \<Rightarrow> nat \<Rightarrow> (string \<times> fleeting_state) list \<Rightarrow> (string \<times> fleeting_state) list \<times> nat" where
  "Update_loop [] n calls = (calls, n)"
| "Update_loop (inst # rest) n calls =
     (if Phase inst = PhaseDeleted \<or> Leftover inst then Update_loop rest n calls
      else if ID inst = [] then Update_loop rest (n + 1) calls
      else Update_loop rest (n + 1) (calls @ [(ID inst, provider_state (Phase inst))]))"

definition Update :: "('s, 'b) vcdInstanceGroup \<Rightarrow> (string \<times> fleeting_state) list \<times> nat" where
  "Update r = Update_loop (Instances r) 0 []"

section \<open>Connecting\<close>

record ConnectInfo = Settings +
  Arch :: string
  InternalAddr :: string
  ExternalAddr :: string

definition errInstanceNotFound :: goerror where
  "errInstanceNotFound = errors_New ''instance not found''"

definition blank_info :: ConnectInfo where
  "blank_info = \<lparr>OS = [], Protocol = [], ProtocolPort = 0, Username = [], Password = [], Key = None,
     UseStaticCredentials = False, Arch = [], InternalAddr = [], ExternalAddr = []\<rparr>"

definition with_os :: "string \<Rightarrow> ConnectInfo \<Rightarrow> ConnectInfo" where
  "with_os osType info =
     (if Contains osType ''windows'' then info\<lparr>OS := ''windows'', Username := ''Administrator''\<rparr>
      else info\<lparr>OS := ''linux'', Username := ''root''\<rparr>)"

definition connect_base :: "Settings \<Rightarrow> ConnectInfo" where
  "connect_base st = Settings.extend st (ConnectInfo.fields ''amd64'' [] [])"

definition connect_addr :: "string \<Rightarrow> Instance \<Rightarrow> ConnectInfo \<Rightarrow> ConnectInfo \<times> goerror option" where
  "connect_addr k inst info =
     (let info = info\<lparr>Protocol := ProtocolSSH\<rparr>; ipAddress = IPAddress inst in
      if ipAddress = [] then (info, Some (errors_New (''no IP address found for instance '' @ k)))
      else (info\<lparr>InternalAddr := ipAddress, ExternalAddr := ipAddress\<rparr>, None))"

text \<open>The operating system comes from the cache; only if it is not known is vCD asked.\<close>

definition ConnectInfo ::
    "('b, 'u) env \<Rightarrow> ('s, 'b) vcdInstanceGroup \<Rightarrow> string \<Rightarrow> ('b gstate, ConnectInfo \<times> goerror option) comp" where
  "ConnectInfo env r k =
     (case Instance r k of
        None \<Rightarrow> ret (blank_info, Some errInstanceNotFound)
      | Some inst \<Rightarrow>
          (let info = connect_base (settings (ig env)) in
           if OSType inst \<noteq> [] then ret (connect_addr k inst (with_os (OSType inst) info))
           else attempt (getVMFromVAppHREF env k) (\<lambda>res. case res of
                  Inl (Panic p) \<Rightarrow> raise (Panic p)
                | Inl (Fail err) \<Rightarrow> ret (info, Some err)
                | Inr v \<Rightarrow>
                    (case VmSpecSection v of
                       None \<Rightarrow> raise nil_dereference
                     | Some spec \<Rightarrow> ret (connect_addr k inst (with_os (OsType spec) info))))))"

definition Heartbeat :: "('s, 'b) vcdInstanceGroup \<Rightarrow> string \<Rightarrow> goerror option" where
  "Heartbeat r k = (case Instance r k of None \<Rightarrow> None | Some inst \<Rightarrow> None)"

section \<open>Stopping\<close>

text \<open>
  \<^verbatim>\<open>Shutdown\<close> of the provider: the debug server first, whose error is only logged, then the reconciler. The first
  part of the result are the logged errors; \<open>None\<close> is the nil dereference before \<^verbatim>\<open>Init\<close> has made a reconciler.
\<close>

definition provider_Shutdown ::
    "(string \<Rightarrow> goerror option) \<Rightarrow> shutdown_env \<Rightarrow> ('s, 'b, 'u) plugin \<Rightarrow> shutdown_state
     \<Rightarrow> goerror list \<times> (goerror option \<times> shutdown_state) option" where
  "provider_Shutdown httpShutdown env p x =
     (let logged = (case pl_httpServer p of
                      None \<Rightarrow> []
                    | Some addr \<Rightarrow> (case httpShutdown addr of None \<Rightarrow> [] | Some err \<Rightarrow> [err]))
      in (logged, case pl_ig p of None \<Rightarrow> None | Some r \<Rightarrow> Some (Shutdown env r x)))"

text \<open>A debug server that does not stop does not keep the pool from being cleared.\<close>

lemma provider_Shutdown_reconciler:
  "pl_ig p = Some r \<Longrightarrow> snd (provider_Shutdown httpShutdown env p x) = Some (Shutdown env r x)"
  by (simp add: provider_Shutdown_def Let_def)

section \<open>What fleeting is told\<close>

lemma Update_loop_eq:
  "Update_loop insts n calls =
     (let pool = filter (\<lambda>i. Phase i \<noteq> PhaseDeleted \<and> \<not> Leftover i) insts in
      (calls @ map (\<lambda>i. (ID i, provider_state (Phase i))) (filter (\<lambda>i. ID i \<noteq> []) pool), n + length pool))"
  by (induction insts n calls rule: Update_loop.induct) (auto simp: Let_def)

lemma provider_state_pool: "p \<noteq> PhaseDeleted \<Longrightarrow> provider_state p = fleetingStateMap p"
  by (cases p) simp_all

lemma distinct_IDs:
  assumes "index_inv s"
  shows "distinct (map ID (filter (\<lambda>i. ID i \<noteq> []) (GetAll s)))"
proof -
  have "inj_on ID (set (filter (\<lambda>i. ID i \<noteq> []) (GetAll s)))"
    using ID_unique [OF assms] GetAll_iff [OF assms] by (auto simp: inj_on_def) (metis option.inject)
  moreover have "distinct (GetAll s)" using GetAll_distinct [OF assms] by (simp add: distinct_map)
  ultimately show ?thesis by (simp add: distinct_map)
qed

lemma partition_length: "length (filter (\<lambda>i. P i \<and> \<not> Q i) xs) + length (filter (\<lambda>i. Q i \<and> P i) xs) = length (filter P xs)"
  by (induction xs) auto

text \<open>
  C19: \<^verbatim>\<open>Update\<close> tells fleeting about exactly the instances that have an HREF, are not deleted and are not
  leftovers, each HREF once and with the state the metrics show for its phase; the size it reports counts the
  instances without HREF too and is the store's size less its leftovers. Every reported HREF can be looked up:
  \<^verbatim>\<open>ConnectInfo\<close> and \<^verbatim>\<open>Heartbeat\<close> find the instance it stands for.
\<close>

theorem Update_reports_pool:
  assumes "index_inv (store r)" and "Update r = (calls, sz)"
  shows "set calls = (\<lambda>i. (ID i, fleetingStateMap (Phase i))) `
           {i \<in> set (Instances r). Phase i \<noteq> PhaseDeleted \<and> \<not> Leftover i \<and> ID i \<noteq> []} \<and>
         distinct (map fst calls) \<and>
         sz + LeftoverCount (store r) = Size (store r) \<and>
         (\<forall>(k, st) \<in> set calls. \<exists>i. Instance r k = Some i \<and> ID i = k \<and> fleetingStateMap (Phase i) = st)"
proof -
  let ?pool = "filter (\<lambda>i. Phase i \<noteq> PhaseDeleted \<and> \<not> Leftover i) (GetAll (store r))"
  have calls: "calls = map (\<lambda>i. (ID i, provider_state (Phase i))) (filter (\<lambda>i. ID i \<noteq> []) ?pool)" and sz: "sz = length ?pool"
    using assms(2) by (auto simp: Update_def Update_loop_eq Let_def Instances_def)
  have set: "set calls = (\<lambda>i. (ID i, fleetingStateMap (Phase i))) `
      {i \<in> set (Instances r). Phase i \<noteq> PhaseDeleted \<and> \<not> Leftover i \<and> ID i \<noteq> []}"
    unfolding calls Instances_def by (auto simp: provider_state_pool intro!: image_eqI)
  have "map fst calls = map ID (filter (\<lambda>i. Phase i \<noteq> PhaseDeleted \<and> \<not> Leftover i) (filter (\<lambda>i. ID i \<noteq> []) (GetAll (store r))))"
    by (simp add: calls o_def conj_ac)
  then have "distinct (map fst calls)"
    by (simp only: distinct_map_filter [OF distinct_IDs [OF assms(1)]])
  moreover have "sz + LeftoverCount (store r) = Size (store r)"
    unfolding sz LeftoverCount_eq Size_eq by (rule partition_length)
  moreover have "\<exists>i. Instance r k = Some i \<and> ID i = k \<and> fleetingStateMap (Phase i) = st" if mem: "(k, st) \<in> set calls" for k st
  proof -
    obtain i where i: "i \<in> set (GetAll (store r))" "ID i \<noteq> []" "k = ID i" "st = fleetingStateMap (Phase i)"
      using mem unfolding set by (auto simp: Instances_def)
    then have "GetByVAppHREF (store r) k = Some i"
      by (simp add: GetByVAppHREF_iff [OF assms(1)] GetAll_iff [OF assms(1)])
    then show ?thesis using i by (simp add: Instance_def)
  qed
  ultimately show ?thesis using set by auto
qed

text \<open>A group with a running instance, a pending intent and a leftover.\<close>

definition sample_running :: "(int \<times> int, duration) vcdInstanceGroup" where
  "sample_running = sample_pool\<lparr>store := AddPreexisting 9 ''h9'' ''p-9'' ''vm'' ''10.0.0.9'' ''on'' ''on'' ''ubuntu'' sample_store\<rparr>"

lemma sample_running_inv: "index_inv (store sample_running)"
proof -
  have "GetByVAppHREF sample_store ''h9'' = None" "GetByIntentID sample_store ''h9'' = None" by code_simp+
  then show ?thesis
    by (auto simp: sample_running_def intro!: AddPreexisting_refines(1) sample_store_inv)
qed

theorem Update_reports_pool_witness:
  "Update sample_running = ([(''h9'', StateRunning)], 3) \<and> (\<exists>i. Instance sample_running ''h9'' = Some i \<and> ID i = ''h9'')"
proof -
  have run: "Update sample_running = ([(''h9'', StateRunning)], 3)" by code_simp
  then show ?thesis using Update_reports_pool [OF sample_running_inv run] by auto
qed

section \<open>A group that starts is usable\<close>

lemma validate_None: "validate url_Parse g = (None, g') \<Longrightarrow> \<not> static_credentials_missing (settings g) \<and>
    True \<notin> fst ` set (config_checks url_Parse g) \<and> g'\<lparr>settings := settings g\<rparr> = g"
proof -
  assume v: "validate url_Parse g = (None, g')"
  have "fst (validate url_Parse g) = None" using v by simp
  then have "\<not> static_credentials_missing (settings g) \<and> True \<notin> fst ` set (config_checks url_Parse g)"
    unfolding validate_checks by (force simp: filter_empty_conv split: if_splits)
  moreover have "(snd (validate url_Parse g))\<lparr>settings := settings g\<rparr> = g" by (simp add: validate_def Let_def)
  ultimately show ?thesis using v by simp
qed

text \<open>What a reconciler made from an accepted configuration runs with.\<close>

lemma started_config:
  assumes "populate url_Parse ParseDuration g = (None, g')"
    and r: "r = newVCDInstanceGroup sem lib now (newDesiredStateStore name) (reconciler_config g')"
  shows "MaxConcurrentCreates (config r) = ig_MaxConcurrentCreates g' \<and> MaxConcurrentDeletes (config r) = ig_MaxConcurrentDeletes g' \<and>
         MaxConcurrentOperations (config r) = ig_MaxConcurrentOperations g' \<and> CreateTimeout (config r) = createTimeout g' \<and>
         StartupCleanupTimeout (config r) = startupCleanupTimeout g' \<and>
         0 < MaxConcurrentCreates (config r) \<and> 0 < MaxConcurrentDeletes (config r) \<and> 0 < MaxConcurrentOperations (config r) \<and>
         0 < CreateTimeout (config r) \<and> 0 < StartupCleanupTimeout (config r) \<and>
         GetAll (store r) = [] \<and> createsInUse (limiter r) = 0 \<and> deletesInUse (limiter r) = 0 \<and> startupHold r"
proof -
  have "0 < ig_MaxConcurrentCreates g'" "0 < ig_MaxConcurrentDeletes g'" "0 < ig_MaxConcurrentOperations g'"
    "0 < createTimeout g'" "0 < startupCleanupTimeout g'"
    using assms(1) by (auto elim!: populate_None simp: populate_limits_fields)
  then show ?thesis
    by (simp add: r newVCDInstanceGroup_def reconciler_config_def withDefaults_def Let_def newDesiredStateStore_def
        newOpLimiter_def GetAll_def)
qed

lemma accepted_config:
  assumes "validate url_Parse (g\<lparr>settings := st\<rparr>) = (None, g1)" and "populate url_Parse ParseDuration g1 = (None, g2)"
  shows "True \<notin> fst ` set (config_checks url_Parse g) \<and> UseStaticCredentials (settings g2) = UseStaticCredentials st"
proof -
  have "settings g2 = settings g1"
    using assms(2) by (auto elim!: populate_None simp: populate_limits_def Let_def)
  moreover have "UseStaticCredentials (settings g1) = UseStaticCredentials st"
    using assms(1) by (auto simp: validate_def Let_def split: if_splits)
  moreover have "config_checks url_Parse (g\<lparr>settings := st\<rparr>) = config_checks url_Parse g"
    by (simp add: config_checks_def)
  ultimately show ?thesis using validate_None [OF assms(1)] by simp
qed

text \<open>
  C20: \<^verbatim>\<open>Init\<close> starts a reconciler exactly if it returns no error, and then the configuration passed every
  check, the reconciler runs with the limits and timeouts of the configuration, all positive, and not with
  defaults in their place, its store is empty, nothing is in flight, and creates are held until the group
  has been listed. After an error no reconciler was started.
\<close>

theorem Init_starts_usable:
  assumes "pl_ig p = None" and "Init sem lib now url_Parse ParseDuration st p = (res, p')"
  shows "(pl_ig p' = None \<longleftrightarrow> (\<exists>err. res = Inl err)) \<and>
         (pl_ig p' = Some r \<longrightarrow>
            True \<notin> fst ` set (config_checks url_Parse (pl_config p)) \<and> UseStaticCredentials st \<and>
            MaxConcurrentCreates (config r) = ig_MaxConcurrentCreates (pl_config p') \<and>
            MaxConcurrentDeletes (config r) = ig_MaxConcurrentDeletes (pl_config p') \<and>
            MaxConcurrentOperations (config r) = ig_MaxConcurrentOperations (pl_config p') \<and>
            CreateTimeout (config r) = createTimeout (pl_config p') \<and>
            StartupCleanupTimeout (config r) = startupCleanupTimeout (pl_config p') \<and>
            0 < MaxConcurrentCreates (config r) \<and> 0 < MaxConcurrentDeletes (config r) \<and>
            0 < MaxConcurrentOperations (config r) \<and> 0 < CreateTimeout (config r) \<and> 0 < StartupCleanupTimeout (config r) \<and>
            GetAll (store r) = [] \<and> createsInUse (limiter r) = 0 \<and> deletesInUse (limiter r) = 0 \<and> startupHold r)"
proof -
  obtain e g where v: "validate url_Parse ((pl_config p)\<lparr>settings := st\<rparr>) = (e, g)" by fastforce
  obtain e' g' where pop: "populate url_Parse ParseDuration g = (e', g')" by fastforce
  show ?thesis
  proof (cases "e = None \<and> e' = None \<and> UseStaticCredentials (settings g')")
    case False
    then show ?thesis using assms v pop by (auto simp: Init_def split: option.splits)
  next
    case True
    let ?r = "newVCDInstanceGroup sem lib now (newDesiredStateStore (InstanceGroupName g')) (reconciler_config g')"
    have p': "\<exists>info. res = Inr info" "pl_ig p' = Some ?r" "pl_config p' = g'"
      using assms v pop True by (auto simp: Init_def)
    have "True \<notin> fst ` set (config_checks url_Parse (pl_config p)) \<and> UseStaticCredentials st"
      using accepted_config [where g = "pl_config p" and st = st and ParseDuration = ParseDuration] v pop True by force
    then show ?thesis
      using p' started_config [where r = ?r and g' = g', OF _ HOL.refl] pop True by force
  qed
qed

definition sample_plugin :: "(int \<times> int, duration, unit) plugin" where
  "sample_plugin = \<lparr>pl_config = sample_config\<lparr>ig_Name := ''n'', Org := ''o'', IPAllocationMode := ''POOL''\<rparr>, pl_ig = None,
     pl_httpServer = None\<rparr>"

theorem Init_starts_usable_witness:
  "\<exists>info p' r. Init counting_sem (plain_backoff circuitBreakerCooldown circuitBreakerMaxCooldown) 5 (\<lambda>_. Inr ()) (\<lambda>t. Inr hour)
       sample_settings sample_plugin = (Inr info, p') \<and>
     pl_ig p' = Some r \<and> MaxConcurrentDeletes (config r) = 4 \<and> startupHold r"
proof -
  let ?init = "Init counting_sem (plain_backoff circuitBreakerCooldown circuitBreakerMaxCooldown) 5 (\<lambda>_. Inr ()) (\<lambda>t. Inr hour)
       sample_settings sample_plugin"
  have "\<not> isl (fst ?init)" "ig_MaxConcurrentDeletes (pl_config (snd ?init)) = 4" by code_simp+
  then obtain info p' where run: "?init = (Inr info, p')" and four: "ig_MaxConcurrentDeletes (pl_config p') = 4"
    by (metis prod.collapse sum.collapse(2))
  have none: "pl_ig sample_plugin = None" by (simp add: sample_plugin_def)
  obtain r where "pl_ig p' = Some r" using Init_starts_usable [OF none run] by (cases "pl_ig p'") auto
  then show ?thesis using Init_starts_usable [OF none run, of r] run four by auto
qed

end
