(* ===== verification/Debug_Format.thy ===== *)
theory Debug_Format
  imports Debug_View Go_Format
begin

text \<open>
  The template functions and the HTTP side of the debug server, \<^verbatim>\<open>src/debug.go\<close>: how times are shown, which
  route has which handler, what a handler writes to the response. The template engine and the JSON encoder
  are arguments; \<open>now\<close> is the clock reading of \<^verbatim>\<open>time.Since\<close> and \<^verbatim>\<open>time.Until\<close>.
\<close>

section \<open>Template functions\<close>

text \<open>The dynamic type of an argument of type \<^verbatim>\<open>any\<close>.\<close>

datatype template_arg = TimeVal time | TimePtr "time option" | OtherVal

definition fmt_ago :: "time \<Rightarrow> template_arg \<Rightarrow> string" where
  "fmt_ago now t =
     (let show_ts = (\<lambda>ts. if ts = zero_time then ''-''
            else (let d = time_sub now ts in
                  if d < 0 then ''in '' @ Duration_String (Duration_Round (int64 (- d)) second)
                  else Duration_String (Duration_Round d second) @ '' ago''))
      in case t of
           TimeVal v \<Rightarrow> show_ts v
         | TimePtr None \<Rightarrow> ''-''
         | TimePtr (Some v) \<Rightarrow> show_ts v
         | OtherVal \<Rightarrow> show_ts zero_time)"

definition fmt_until :: "time \<Rightarrow> time \<Rightarrow> string" where
  "fmt_until now t =
     (if t = zero_time then ''-'' else Duration_String (Duration_Round (time_sub t now) second))"

fun fmt_clock :: "template_arg \<Rightarrow> string" where
  "fmt_clock (TimeVal v) = (if v = zero_time then [] else Format_RFC3339 v)"
| "fmt_clock (TimePtr None) = []"
| "fmt_clock (TimePtr (Some v)) = Format_RFC3339 v"
| "fmt_clock OtherVal = []"

text \<open>\<^verbatim>\<open>time.Duration(s * float64(time.Second))\<close> truncates; as in the status, seconds are rationals.\<close>

definition duration_of_seconds :: "rat \<Rightarrow> duration" where
  "duration_of_seconds s =
     (let x = s * of_int second in if x < 0 then - \<lfloor>- x\<rfloor> else \<lfloor>x\<rfloor>)"

definition fmt_releaseIn :: "time \<Rightarrow> DebugStatus \<Rightarrow> string" where
  "fmt_releaseIn now st =
     (if HoldStartedAt st = zero_time then ''after the first complete poll''
      else (let left = int64 (duration_of_seconds (HoldTimeoutSeconds st) - time_sub now (HoldStartedAt st));
                left = (if left < 0 then 0 else left)
            in ''in '' @ Duration_String (Duration_Round left second) @ '' at the latest''))"

definition fmt_seconds :: "rat \<Rightarrow> string" where
  "fmt_seconds s = Duration_String (Duration_Round (duration_of_seconds s) millisecond)"

section \<open>Responses\<close>

text \<open>
  The part of \<^verbatim>\<open>http.ResponseWriter\<close> in use: the first write, or \<^verbatim>\<open>WriteHeader\<close>, fixes the status and the headers
  that are sent; later changes have no effect on them.
\<close>

record ResponseWriter =
  header :: "(string \<times> string) list"
  sent :: "(int \<times> (string \<times> string) list) option"
  body :: string

definition Header_Set :: "string \<Rightarrow> string \<Rightarrow> ResponseWriter \<Rightarrow> ResponseWriter" where
  "Header_Set k v w = w\<lparr>header := AList.update k v (header w)\<rparr>"

definition WriteHeader :: "int \<Rightarrow> ResponseWriter \<Rightarrow> ResponseWriter" where
  "WriteHeader code w = (if sent w = None then w\<lparr>sent := Some (code, header w)\<rparr> else w)"

definition Write :: "string \<Rightarrow> ResponseWriter \<Rightarrow> ResponseWriter" where
  "Write text w = (let w = WriteHeader 200 w in w\<lparr>body := body w @ text\<rparr>)"

definition Write_all :: "string list \<Rightarrow> ResponseWriter \<Rightarrow> ResponseWriter" where
  "Write_all chunks w = fold Write chunks w"

definition http_Error :: "string \<Rightarrow> int \<Rightarrow> ResponseWriter \<Rightarrow> ResponseWriter" where
  "http_Error msg code w =
     Write (msg @ [CHR 0x0A]) (WriteHeader code
       (Header_Set ''X-Content-Type-Options'' ''nosniff''
         (Header_Set ''Content-Type'' ''text/plain; charset=utf-8''
           (w\<lparr>header := AList.delete ''Content-Length'' (header w)\<rparr>))))"

text \<open>
  What a template or the encoder writes: chunks in order, and whether it failed. The data a handler passes to
  its template, by template name.
\<close>

type_synonym written = "string list \<times> goerror option"

datatype page_data =
    PageData "summaryView \<times> instanceView list \<times> string list"
  | SummaryData summaryView
  | InstancesData "instanceView list"

definition render ::
    "(string \<Rightarrow> page_data \<Rightarrow> written) \<Rightarrow> string \<Rightarrow> page_data \<Rightarrow> ResponseWriter \<Rightarrow> ResponseWriter" where
  "render ExecuteTemplate name data w =
     (let w = Header_Set ''Content-Type'' ''text/html; charset=utf-8'' w;
          w = Header_Set ''Cache-Control'' ''no-store'' w;
          (chunks, err) = ExecuteTemplate name data;
          w = Write_all chunks w
      in case err of None \<Rightarrow> w | Some e \<Rightarrow> http_Error ''render failed'' 500 w)"

section \<open>The published status\<close>

text \<open>\<^verbatim>\<open>statusBox\<close> of \<^verbatim>\<open>src/status.go\<close> is the field \<open>status\<close> of the group, set and read under its lock.\<close>

definition statusBox_set :: "DebugStatus \<Rightarrow> ('s, 'b) vcdInstanceGroup \<Rightarrow> ('s, 'b) vcdInstanceGroup" where
  "statusBox_set st r = r\<lparr>status := st\<rparr>"

definition statusBox_get :: "('s, 'b) vcdInstanceGroup \<Rightarrow> DebugStatus" where
  "statusBox_get r = status r"

definition group_DebugStatus :: "('s, 'b) vcdInstanceGroup \<Rightarrow> DebugStatus" where
  "group_DebugStatus r = statusBox_get r"

section \<open>The server\<close>

text \<open>\<^verbatim>\<open>status\<close> may be nil; then the zero status is shown. Routes in the order they are registered, all for \<^verbatim>\<open>GET\<close>.\<close>

datatype handler = StaticFiles | HandlePage | HandleSummary | HandleInstances | HandleAPIStatus | MetricsHandler

datatype route_path = PathPrefix string | Path string

record DebugServer =
  ds_store :: desiredStateStore
  ds_status :: "unit \<Rightarrow> DebugStatus"
  ds_router :: "(route_path \<times> handler \<times> string) list"
  ds_instanceGroupName :: string

definition setupRoutes :: "DebugServer \<Rightarrow> DebugServer" where
  "setupRoutes ds = ds\<lparr>ds_router := ds_router ds @
     [(PathPrefix ''/static/'', StaticFiles, ''GET''),
      (Path ''/'', HandlePage, ''GET''),
      (Path ''/instances'', HandlePage, ''GET''),
      (Path ''/fragments/summary'', HandleSummary, ''GET''),
      (Path ''/fragments/instances'', HandleInstances, ''GET''),
      (Path ''/api/status'', HandleAPIStatus, ''GET''),
      (Path ''/metrics'', MetricsHandler, ''GET'')]\<rparr>"

definition NewDebugServer :: "desiredStateStore \<Rightarrow> string \<Rightarrow> (unit \<Rightarrow> DebugStatus) option \<Rightarrow> DebugServer" where
  "NewDebugServer st name stat =
     (let stat = (case stat of None \<Rightarrow> (\<lambda>_. DebugStatus0) | Some f \<Rightarrow> f)
      in setupRoutes \<lparr>ds_store = st, ds_status = stat, ds_router = [], ds_instanceGroupName = name\<rparr>)"

text \<open>
  The handlers' responses. \<open>all1\<close> and \<open>all2\<close> are what \<^verbatim>\<open>GetAll\<close> returned to the summary and to the rows; the query
  values of \<^verbatim>\<open>handleInstances\<close> are empty when the request has none.
\<close>

definition handlePage_response ::
    "(string \<Rightarrow> page_data \<Rightarrow> written) \<Rightarrow> DebugServer \<Rightarrow> time \<Rightarrow> Instance list \<Rightarrow> Instance list \<Rightarrow> ResponseWriter \<Rightarrow> ResponseWriter" where
  "handlePage_response exec ds now all1 all2 =
     render exec ''page.html'' (PageData (handlePage (ds_instanceGroupName ds) (ds_status ds ()) now all1 all2))"

definition handleSummary :: "(string \<Rightarrow> page_data \<Rightarrow> written) \<Rightarrow> DebugServer \<Rightarrow> time \<Rightarrow> Instance list \<Rightarrow> ResponseWriter \<Rightarrow> ResponseWriter" where
  "handleSummary exec ds now all =
     render exec ''summary.html'' (SummaryData (summary (ds_instanceGroupName ds) (ds_status ds ()) now all))"

definition handleInstances_response ::
    "(string \<Rightarrow> page_data \<Rightarrow> written) \<Rightarrow> string \<Rightarrow> string \<Rightarrow> Instance list \<Rightarrow> ResponseWriter \<Rightarrow> ResponseWriter" where
  "handleInstances_response exec hide_deleted phase all =
     render exec ''instances.html'' (InstancesData (handleInstances hide_deleted phase all))"

definition handleAPIStatus_response ::
    "(string \<times> DebugStatus \<times> (string \<rightharpoonup> nat) \<times> apiInstance list \<Rightarrow> written) \<Rightarrow> DebugServer \<Rightarrow> time
     \<Rightarrow> Instance list \<Rightarrow> Instance list \<Rightarrow> ResponseWriter \<Rightarrow> ResponseWriter" where
  "handleAPIStatus_response Encode ds now all1 all2 w =
     (let data = handleAPIStatus (ds_instanceGroupName ds) (ds_status ds ()) now all1 all2;
          w = Header_Set ''Content-Type'' ''application/json'' w;
          w = Header_Set ''Cache-Control'' ''no-store'' w
      in Write_all (fst (Encode data)) w)"

section \<open>The times shown can be read back\<close>

lemma time_sub_exact: "\<bar>t - u\<bar> \<le> max_duration \<Longrightarrow> time_sub t u = t - u"
  by (auto simp: time_sub_def min_duration_def max_duration_def)

lemma int64_neg: "\<bar>d\<bar> \<le> max_duration \<Longrightarrow> int64 (- d) = - d"
  by (rule int64_id) (auto simp: min_duration_def max_duration_def)

text \<open>A shown duration: its text, and what the text reads as, half a unit off at most.\<close>

lemma shown_duration:
  assumes "0 < m" and "\<bar>d\<bar> + m \<le> max_duration"
  shows "\<exists>v. read_duration (Duration_String (Duration_Round d m)) = Some v \<and> m dvd v \<and> 2 * \<bar>v - d\<bar> \<le> m"
  using Duration_Round_near [OF assms] by (simp add: Duration_String_read)

lemma fmt_ago_text:
  assumes "arg = TimeVal t \<or> arg = TimePtr (Some t)" and "t \<noteq> zero_time" and "\<bar>now - t\<bar> \<le> max_duration"
  shows "fmt_ago now arg =
    (let text = Duration_String (Duration_Round \<bar>now - t\<bar> second) in if now < t then ''in '' @ text else text @ '' ago'')"
  using assms(1,2) int64_neg [OF assms(3)]
  by (auto simp: fmt_ago_def Let_def time_sub_exact [OF assms(3)])

text \<open>
  C40: the times on the debug page can be trusted: whether a timestamp is passed as a value or as a pointer,
  the relative time says on which side of now it lies and gives a duration that reads back, by the rules of
  \<^verbatim>\<open>time.ParseDuration\<close>, to whole seconds at most half a second off; the clock time reads back to the second the
  timestamp falls in. It holds for timestamps of the years 1 to 9999 at most 292 years away, less a second.
\<close>

theorem debug_times_readable:
  assumes "arg = TimeVal t \<or> arg = TimePtr (Some t)" and "0 < t" and "t < 3652059 * 86400 * second"
    and "\<bar>now - t\<bar> + second \<le> max_duration"
  shows "\<exists>text v. fmt_ago now arg = (if now < t then ''in '' @ text else text @ '' ago'') \<and>
           read_duration text = Some v \<and> second dvd v \<and> 2 * \<bar>v - \<bar>now - t\<bar>\<bar> \<le> second \<and>
           read_RFC3339 (fmt_clock arg) = t div second"
proof -
  have "\<bar>now - t\<bar> \<le> max_duration" using assms(4) second_pos by linarith
  then have "fmt_ago now arg = (let text = Duration_String (Duration_Round \<bar>now - t\<bar> second)
      in if now < t then ''in '' @ text else text @ '' ago'')"
    using assms(1,2) by (intro fmt_ago_text) auto
  moreover have "fmt_clock arg = Format_RFC3339 t" using assms(1,2) by auto
  moreover have "read_RFC3339 (Format_RFC3339 t) = t div second"
    using assms(2,3) by (intro Format_RFC3339_read) auto
  ultimately show ?thesis
    using shown_duration [of second "\<bar>now - t\<bar>"] assms(4) by (auto simp: Let_def)
qed

lemma frac_digits_numeral:
  "frac_digits (numeral k) v print out =
     (let digit = v mod 10; print = (print \<or> digit \<noteq> 0)
      in frac_digits (pred_numeral k) (v div 10) print (if print then char_of (48 + digit) # out else out))"
  by (subst numeral_eq_Suc [of k]) (rule frac_digits.simps(2))

lemmas print_simps = Let_def time_sub_def min_duration_def max_duration_def duration_units Duration_Round_def
  Duration_String_def int64_def format_large_def fmtFrac_def frac_digits_numeral decimal.simps char_of_def bit_0
  pad_def

text \<open>3 minutes and 12.4 seconds after a time in 2025.\<close>

theorem debug_times_readable_witness:
  "fmt_ago (63871329600000000000 + 192400000000) (TimePtr (Some 63871329600000000000)) = ''3m12s ago'' \<and>
   fmt_clock (TimePtr (Some 63871329600000000000)) = ''2025-01-01T12:00:00Z'' \<and>
   read_RFC3339 ''2025-01-01T12:00:00Z'' = 63871329600"
proof -
  have ago: "fmt_ago (63871329600000000000 + 192400000000) (TimePtr (Some 63871329600000000000)) = ''3m12s ago''"
    by (simp add: fmt_ago_def print_simps)
  have "year_day 739251 = (2025, 0)" by (simp add: year_day_def)
  moreover have "find_month (month_lengths (leap 2025)) 1 0 = (1, 0)" by (simp add: month_lengths_def)
  ultimately have "Format_RFC3339 63871329600000000000 =
      pad 4 2025 @ ''-'' @ pad 2 1 @ ''-'' @ pad 2 1 @ ''T'' @ pad 2 12 @ '':'' @ pad 2 0 @ '':'' @ pad 2 0 @ ''Z''"
    by (simp add: Format_RFC3339_def second_def pad_int_def)
  then have clock: "fmt_clock (TimePtr (Some 63871329600000000000)) = ''2025-01-01T12:00:00Z''"
    by (simp add: print_simps)
  have "read_RFC3339 (fmt_clock (TimePtr (Some 63871329600000000000))) = 63871329600000000000 div second"
    using debug_times_readable [of "TimePtr (Some 63871329600000000000)" 63871329600000000000 "63871329600000000000 + 192400000000"]
    by (auto simp: second_def max_duration_def)
  then show ?thesis using ago clock by (simp add: second_def)
qed

section \<open>What a failed render looks like\<close>

lemma Header_Set_sent [simp]: "sent (Header_Set k v w) = sent w"
  by (simp add: Header_Set_def)

lemma Write_all_sent: "sent (Write_all chunks w) = (if chunks = [] then sent w else sent (WriteHeader 200 w))"
proof -
  have written: "sent (Write c w) = sent (WriteHeader 200 w)" "sent (WriteHeader 200 w) \<noteq> None" for c w
    by (simp_all add: Write_def WriteHeader_def Let_def)
  have "sent w \<noteq> None \<Longrightarrow> sent (fold Write cs w) = sent w" for cs w
    by (induction cs arbitrary: w) (simp_all add: Write_def WriteHeader_def Let_def)
  then show ?thesis using written by (cases chunks) (simp_all add: Write_all_def)
qed

text \<open>
  A template that fails before it wrote anything gives a 500; once it has written a chunk the client has a 200
  with the page so far, and the message of the failure at its end.
\<close>

lemma render_status:
  assumes "sent w = None" and "ExecuteTemplate name data = (chunks, Some err)"
  shows "map_option fst (sent (render ExecuteTemplate name data w)) = Some (if chunks = [] then 500 else 200)"
    and "\<exists>page. body (render ExecuteTemplate name data w) = page @ ''render failed'' @ [CHR 0x0A]"
  using assms by (auto simp: render_def Let_def http_Error_def Write_def WriteHeader_def Write_all_sent)

lemma render_ok:
  assumes "sent w = None" and "ExecuteTemplate name data = (chunks, None)" and "chunks \<noteq> []"
  shows "\<exists>hs. sent (render ExecuteTemplate name data w) = Some (200, hs) \<and> map_of hs ''Cache-Control'' = Some ''no-store''"
  using assms by (simp add: render_def Let_def Write_all_sent WriteHeader_def Header_Set_def)

section \<open>What the page says about the startup hold\<close>

lemma duration_of_seconds_of: "duration_of_seconds (seconds_of d) = d"
  by (auto simp: duration_of_seconds_def seconds_of_def second_def Let_def)

text \<open>\<^verbatim>\<open>publishStatus\<close> ends in \<^verbatim>\<open>statusBox.set\<close>, so the next \<^verbatim>\<open>DebugStatus\<close> returns what it built and nothing else of the group changes.\<close>

lemma publishStatus_box: "publishStatus clk started e r = statusBox_set (group_DebugStatus (publishStatus clk started e r)) r"
  by (simp add: publishStatus_def statusBox_set_def statusBox_get_def group_DebugStatus_def Let_def)

lemma published_hold:
  assumes "startupHold r" and "startupPolled r"
  shows "HoldStartedAt (group_DebugStatus (publishStatus clk started e r)) = startedAt r"
    and "HoldTimeoutSeconds (group_DebugStatus (publishStatus clk started e r)) = seconds_of (StartupCleanupTimeout (config r))"
  using assms by (simp_all add: publishStatus_def statusBox_get_def group_DebugStatus_def DebugStatus0_def Let_def split: prod.split option.split)

text \<open>
  While creates are held after a complete poll, the page says how long the hold can still last: the cleanup timeout
  less the time since the poll, never negative, rounded to seconds.
\<close>

lemma releaseIn_published:
  assumes "startupHold r" "startupPolled r" "startedAt r \<noteq> zero_time"
    and "startedAt r \<le> now" "now - startedAt r \<le> max_duration" "0 \<le> StartupCleanupTimeout (config r)" "StartupCleanupTimeout (config r) \<le> max_duration"
  shows "fmt_releaseIn now (group_DebugStatus (publishStatus clk started e r)) =
    ''in '' @ Duration_String (Duration_Round (max 0 (startedAt r + StartupCleanupTimeout (config r) - now)) second) @ '' at the latest''"
proof -
  let ?left = "StartupCleanupTimeout (config r) - (now - startedAt r)"
  have sub: "time_sub now (startedAt r) = now - startedAt r" using assms by (intro time_sub_exact) simp
  have wrap: "int64 ?left = ?left"
    using assms(4-7) by (intro int64_id; unfold min_duration_def max_duration_def; linarith)
  have left: "max 0 (startedAt r + StartupCleanupTimeout (config r) - now) = (if ?left < 0 then 0 else ?left)" by auto
  show ?thesis
    unfolding fmt_releaseIn_def published_hold [OF assms(1,2)] duration_of_seconds_of sub wrap left Let_def
    using assms(3) by simp
qed

end
