(* ===== verification/Metrics.thy ===== *)
theory Metrics
  imports Reconciler
begin

text \<open>
  The Prometheus metrics, \<^verbatim>\<open>src/metrics.go\<close>, and the updates the functions of the plugin make to them. The
  Prometheus client is not modelled: a function has the list of updates it makes, each with the metric, the
  label values passed to \<^verbatim>\<open>WithLabelValues\<close> and the operation. By its documentation \<^verbatim>\<open>WithLabelValues\<close> panics if
  the number of values is not the number of labels, and registration panics if a name is taken or the buckets of
  a histogram do not increase.
\<close>

section \<open>Declarations\<close>

datatype metric_kind = CounterVec | GaugeVec | HistogramVec "rat list"

record metric_desc =
  m_Name :: string
  m_Help :: string
  m_Kind :: metric_kind
  m_Labels :: "string list"

definition opts :: "string \<Rightarrow> string \<Rightarrow> metric_kind \<Rightarrow> string list \<Rightarrow> metric_desc" where
  "opts name help kind labels = \<lparr>m_Name = name, m_Help = help, m_Kind = kind, m_Labels = labels\<rparr>"

definition instanceGroupLabel :: string where
  "instanceGroupLabel = ''instance_group''"

datatype metric =
    InstancesCreatedTotal
  | InstancesDeletedTotal
  | InstancesFailedTotal
  | InstancesCurrentByState
  | InstanceCreationDuration
  | InstanceDeletionDuration
  | GCRunsTotal
  | GCInstancesCollectedTotal
  | GCDuration
  | APICallsTotal
  | APIErrorsTotal
  | ThrottleEventsTotal
  | ThrottlePauseSeconds
  | APIDuration
  | PoolSize
  | PoolMaxSize
  | StateManagerInstancesTotal
  | StateManagerInstancesByState
  | ReconcileDuration
  | ReconcileTotal
  | LastReconcileTimestamp
  | StartupHold
  | StartupLeftoversRemaining
  | LeftoverVAppsQueuedTotal

fun metric_opts :: "metric \<Rightarrow> metric_desc" where
  "metric_opts InstancesCreatedTotal = opts ''fleeting_vcd_instances_created_total''
     ''Total number of instances created'' CounterVec [instanceGroupLabel]"
| "metric_opts InstancesDeletedTotal = opts ''fleeting_vcd_instances_deleted_total''
     ''Total number of instances deleted'' CounterVec [instanceGroupLabel]"
| "metric_opts InstancesFailedTotal = opts ''fleeting_vcd_instances_failed_total''
     ''Total number of failed instance operations'' CounterVec [instanceGroupLabel, ''operation'']"
| "metric_opts InstancesCurrentByState = opts ''fleeting_vcd_instances_current''
     ''Current number of instances by state'' GaugeVec [instanceGroupLabel, ''state'']"
| "metric_opts InstanceCreationDuration = opts ''fleeting_vcd_instance_creation_duration_seconds''
     ''Time taken to create an instance'' (HistogramVec [30, 60, 90, 120, 180, 300, 600, 900, 1200]) [instanceGroupLabel]"
| "metric_opts InstanceDeletionDuration = opts ''fleeting_vcd_instance_deletion_duration_seconds''
     ''Time taken to delete an instance'' (HistogramVec [10, 30, 60, 120, 300, 600, 1200, 1800, 3600]) [instanceGroupLabel]"
| "metric_opts GCRunsTotal = opts ''fleeting_vcd_gc_runs_total''
     ''Total number of garbage collection runs'' CounterVec [instanceGroupLabel]"
| "metric_opts GCInstancesCollectedTotal = opts ''fleeting_vcd_gc_instances_collected_total''
     ''Total number of instances cleaned up by garbage collection'' CounterVec [instanceGroupLabel]"
| "metric_opts GCDuration = opts ''fleeting_vcd_gc_duration_seconds''
     ''Time taken to run garbage collection'' (HistogramVec [1, 5, 10, 30, 60, 120, 300]) [instanceGroupLabel]"
| "metric_opts APICallsTotal = opts ''fleeting_vcd_api_calls_total''
     ''Total number of VCD API calls'' CounterVec [instanceGroupLabel, ''operation'']"
| "metric_opts APIErrorsTotal = opts ''fleeting_vcd_api_errors_total''
     ''Total number of VCD API errors'' CounterVec [instanceGroupLabel, ''operation'']"
| "metric_opts ThrottleEventsTotal = opts ''fleeting_vcd_throttle_events_total''
     ''Total number of requests rejected by the vCD organization operation limit'' CounterVec [instanceGroupLabel]"
| "metric_opts ThrottlePauseSeconds = opts ''fleeting_vcd_throttle_pause_seconds''
     ''Length of the pause in effect because of the vCD organization operation limit; 0 once dispatch resumes'' GaugeVec [instanceGroupLabel]"
| "metric_opts APIDuration = opts ''fleeting_vcd_api_duration_seconds''
     ''Time taken for VCD API calls'' (HistogramVec [1 / 10, 1 / 2, 1, 2, 5, 10, 30, 60, 120, 300, 600, 1200, 1800, 3600]) [instanceGroupLabel, ''operation'']"
| "metric_opts PoolSize = opts ''fleeting_vcd_pool_size''
     ''Current pool size'' GaugeVec [instanceGroupLabel]"
| "metric_opts PoolMaxSize = opts ''fleeting_vcd_pool_max_size''
     ''Configured maximum pool size'' GaugeVec [instanceGroupLabel]"
| "metric_opts StateManagerInstancesTotal = opts ''fleeting_vcd_state_manager_instances_total''
     ''Total instances tracked in state store'' GaugeVec [instanceGroupLabel]"
| "metric_opts StateManagerInstancesByState = opts ''fleeting_vcd_state_manager_instances_by_state''
     ''Instances by fleeting state in state store'' GaugeVec [instanceGroupLabel, ''state'']"
| "metric_opts ReconcileDuration = opts ''fleeting_vcd_reconcile_duration_seconds''
     ''Time taken for a single reconciliation cycle'' (HistogramVec [1 / 10, 1 / 2, 1, 2, 5, 10, 30, 60, 120, 300, 600, 1200, 1800, 3600]) [instanceGroupLabel]"
| "metric_opts ReconcileTotal = opts ''fleeting_vcd_reconcile_total''
     ''Total number of reconciliation cycles'' CounterVec [instanceGroupLabel]"
| "metric_opts LastReconcileTimestamp = opts ''fleeting_vcd_last_reconcile_timestamp_seconds''
     ''Unix time the last reconciliation cycle finished; alert when it stops advancing'' GaugeVec [instanceGroupLabel]"
| "metric_opts StartupHold = opts ''fleeting_vcd_startup_hold''
     (''1 while creates are held for startup cleanup of the previous run'' @ [CHR 0x27] @ ''s vApps, else 0'') GaugeVec [instanceGroupLabel]"
| "metric_opts StartupLeftoversRemaining = opts ''fleeting_vcd_startup_leftovers_remaining''
     ''Leftover vApps from the previous run not yet deleted during startup cleanup'' GaugeVec [instanceGroupLabel]"
| "metric_opts LeftoverVAppsQueuedTotal = opts ''fleeting_vcd_leftover_vapps_queued_total''
     ''Total number of vApps not owned by this process that were queued for deletion'' CounterVec [instanceGroupLabel]"

text \<open>The variables in the order of their initialisation.\<close>

definition metrics :: "metric list" where
  "metrics = [InstancesCreatedTotal, InstancesDeletedTotal, InstancesFailedTotal, InstancesCurrentByState,
     InstanceCreationDuration, InstanceDeletionDuration, GCRunsTotal, GCInstancesCollectedTotal,
     GCDuration, APICallsTotal, APIErrorsTotal, ThrottleEventsTotal,
     ThrottlePauseSeconds, APIDuration, PoolSize, PoolMaxSize,
     StateManagerInstancesTotal, StateManagerInstancesByState, ReconcileDuration, ReconcileTotal,
     LastReconcileTimestamp, StartupHold, StartupLeftoversRemaining, LeftoverVAppsQueuedTotal]"

section \<open>Updates\<close>

datatype metric_op = Inc | SetTo rat | is_Observe: Observe rat | SetToCurrentTime

type_synonym metric_update = "metric \<times> string list \<times> metric_op"

text \<open>
  One list for each function that updates metrics; \<open>g\<close> is the name of the instance group, \<open>dur\<close> the seconds
  measured. Arguments of type \<^typ>\<open>bool\<close> say whether the operation returned an error.
\<close>

definition reconcileOnce_updates :: "string \<Rightarrow> rat \<Rightarrow> metric_update list" where
  "reconcileOnce_updates g dur =
     [(ReconcileDuration, [g], Observe dur), (ReconcileTotal, [g], Inc), (LastReconcileTimestamp, [g], SetToCurrentTime)]"

definition pool_size_updates :: "string \<Rightarrow> nat \<Rightarrow> metric_update list" where
  "pool_size_updates g n = [(PoolSize, [g], SetTo (of_nat n))]"

definition leftover_updates :: "string \<Rightarrow> bool \<Rightarrow> metric_update list" where
  "leftover_updates g added = (if added then [(LeftoverVAppsQueuedTotal, [g], Inc)] else [])"

text \<open>\<^verbatim>\<open>updateStartupHold\<close> and \<^verbatim>\<open>endStartupHold\<close>, with the branches of the function itself.\<close>

definition updateStartupHold_updates :: "(nat \<Rightarrow> time) \<Rightarrow> bool \<Rightarrow> ('s, 'b) vcdInstanceGroup \<Rightarrow> metric_update list" where
  "updateStartupHold_updates clk pollOK r =
     (let g = instanceGroupName (store r) in
      if \<not> startupHold r then []
      else (StartupHold, [g], SetTo 1) #
        (let first = pollOK \<and> \<not> startupPolled r; started = (if first then clk 0 else startedAt r) in
         if \<not> (startupPolled r \<or> first) then []
         else
           (let (remaining, deleting) = leftoverProgress (store r); elapsed = time_sub (clk 3) started in
            (StartupLeftoversRemaining, [g], SetTo (of_nat remaining)) #
            (if remaining = 0 \<or> StartupCleanupTimeout (config r) \<le> elapsed then [(StartupHold, [g], SetTo 0)] else []))))"

definition doCreate_updates :: "string \<Rightarrow> rat \<Rightarrow> bool \<Rightarrow> metric_update list" where
  "doCreate_updates g dur failed =
     (InstanceCreationDuration, [g], Observe dur) #
     (if failed then [(InstancesFailedTotal, [g, ''create''], Inc)] else [(InstancesCreatedTotal, [g], Inc)])"

definition doDelete_updates :: "string \<Rightarrow> rat \<Rightarrow> bool \<Rightarrow> metric_update list" where
  "doDelete_updates g dur failed =
     (InstanceDeletionDuration, [g], Observe dur) #
     (if failed then [(InstancesFailedTotal, [g, ''delete''], Inc)] else [(InstancesDeletedTotal, [g], Inc)])"

text \<open>One candidate after the other; the duration is observed when \<^verbatim>\<open>gcCheck\<close> returns.\<close>

definition gcCheck_updates :: "string \<Rightarrow> rat \<Rightarrow> Instance list \<Rightarrow> metric_update list" where
  "gcCheck_updates g dur candidates =
     (GCRunsTotal, [g], Inc) # map (\<lambda>inst. (GCInstancesCollectedTotal, [g], Inc)) candidates @ [(GCDuration, [g], Observe dur)]"

fun throttled_updates :: "'b bo_lib \<Rightarrow> time \<Rightarrow> 'b throttleGate option \<Rightarrow> metric_update list" where
  "throttled_updates lib now None = []"
| "throttled_updates lib now (Some g) =
     (ThrottleEventsTotal, [group g], Inc) #
     (if now < pausedUntil g then []
      else [(ThrottlePauseSeconds, [group g], SetTo (seconds_of (fst (NextBackOff lib (bo g)))))])"

fun paused_updates :: "time \<Rightarrow> 'b throttleGate option \<Rightarrow> metric_update list" where
  "paused_updates now None = []"
| "paused_updates now (Some g) = (if now < pausedUntil g then [] else [(ThrottlePauseSeconds, [group g], SetTo 0)])"

text \<open>\<open>state_name\<close> are the strings of the fleeting framework, \<open>order\<close> the order in which Go ranges over the states.\<close>

definition UpdateMetrics_updates ::
    "(fleeting_state \<Rightarrow> string) \<Rightarrow> fleeting_state list \<Rightarrow> desiredStateStore \<Rightarrow> metric_update list" where
  "UpdateMetrics_updates state_name order s =
     (let (total, counts) = UpdateMetrics s; g = instanceGroupName s in
      (StateManagerInstancesTotal, [g], SetTo (of_nat total)) #
      map (\<lambda>st. (StateManagerInstancesByState, [g, state_name st], SetTo (of_nat (counts st)))) order)"

definition vcdCall_updates :: "string \<Rightarrow> string \<Rightarrow> rat \<Rightarrow> bool \<Rightarrow> metric_update list" where
  "vcdCall_updates g desc dur failed =
     [(APICallsTotal, [g, desc], Inc), (APIDuration, [g, desc], Observe dur)] @
     (if failed then [(APIErrorsTotal, [g, desc], Inc)] else [])"

text \<open>The calls that update metrics, in any order and number.\<close>

datatype ('s, 'b) metric_event =
    Reconciled rat
  | PoolSized nat
  | LeftoverSeen bool
  | HoldUpdated "nat \<Rightarrow> time" bool "('s, 'b) vcdInstanceGroup"
  | Created rat bool
  | Deleted rat bool
  | Collected rat "Instance list"
  | Throttled "'b bo_lib" time "'b throttleGate option"
  | PauseAsked time "'b throttleGate option"
  | StoreMeasured "fleeting_state list" desiredStateStore
  | Called string rat bool

fun event_updates :: "(fleeting_state \<Rightarrow> string) \<Rightarrow> string \<Rightarrow> ('s, 'b) metric_event \<Rightarrow> metric_update list" where
  "event_updates state_name g (Reconciled dur) = reconcileOnce_updates g dur"
| "event_updates state_name g (PoolSized n) = pool_size_updates g n"
| "event_updates state_name g (LeftoverSeen added) = leftover_updates g added"
| "event_updates state_name g (HoldUpdated clk pollOK r) = updateStartupHold_updates clk pollOK r"
| "event_updates state_name g (Created dur failed) = doCreate_updates g dur failed"
| "event_updates state_name g (Deleted dur failed) = doDelete_updates g dur failed"
| "event_updates state_name g (Collected dur candidates) = gcCheck_updates g dur candidates"
| "event_updates state_name g (Throttled lib now gate) = throttled_updates lib now gate"
| "event_updates state_name g (PauseAsked now gate) = paused_updates now gate"
| "event_updates state_name g (StoreMeasured order s) = UpdateMetrics_updates state_name order s"
| "event_updates state_name g (Called desc dur failed) = vcdCall_updates g desc dur failed"

section \<open>The declarations are accepted, the updates fit them\<close>

fun increasing :: "rat list \<Rightarrow> bool" where
  "increasing (x # y # xs) = (x < y \<and> increasing (y # xs))"
| "increasing xs = True"

fun buckets_ok :: "metric_kind \<Rightarrow> bool" where
  "buckets_ok (HistogramVec bs) = increasing bs"
| "buckets_ok k = True"

text \<open>
  What registration checks by its documentation, so that loading the package does not panic: every name is
  taken once, the labels of a metric differ, buckets increase.
\<close>

lemma metrics_complete: "set metrics = UNIV"
proof -
  have "m \<in> set metrics" for m by (cases m) (simp_all add: metrics_def)
  then show ?thesis by auto
qed

lemma metrics_registered:
  "distinct (map (m_Name \<circ> metric_opts) metrics)"
  "distinct (m_Labels (metric_opts m))"
  "buckets_ok (m_Kind (metric_opts m))"
  "m_Labels (metric_opts m) \<noteq> [] \<and> hd (m_Labels (metric_opts m)) = instanceGroupLabel"
proof -
  show "distinct (map (m_Name \<circ> metric_opts) metrics)" by (simp add: metrics_def opts_def)
  show "distinct (m_Labels (metric_opts m))" by (cases m) (simp_all add: opts_def instanceGroupLabel_def)
  show "buckets_ok (m_Kind (metric_opts m))" by (cases m) (simp_all add: opts_def)
  show "m_Labels (metric_opts m) \<noteq> [] \<and> hd (m_Labels (metric_opts m)) = instanceGroupLabel" by (cases m) (simp_all add: opts_def)
qed

fun op_fits :: "metric_kind \<Rightarrow> metric_op \<Rightarrow> bool" where
  "op_fits CounterVec op = (op = Inc)"
| "op_fits GaugeVec op = (case op of SetTo _ \<Rightarrow> True | SetToCurrentTime \<Rightarrow> True | _ \<Rightarrow> False)"
| "op_fits (HistogramVec _) op = (case op of Observe _ \<Rightarrow> True | _ \<Rightarrow> False)"

definition update_ok :: "metric_update \<Rightarrow> bool" where
  "update_ok u =
     (case u of (m, vals, op) \<Rightarrow> length vals = length (m_Labels (metric_opts m)) \<and> op_fits (m_Kind (metric_opts m)) op)"

lemmas update_lists = reconcileOnce_updates_def pool_size_updates_def leftover_updates_def
  updateStartupHold_updates_def doCreate_updates_def doDelete_updates_def gcCheck_updates_def
  UpdateMetrics_updates_def vcdCall_updates_def

lemma gate_updates:
  "throttled_updates lib now gate =
     (case gate of None \<Rightarrow> [] | Some g \<Rightarrow> (ThrottleEventsTotal, [group g], Inc) #
        (if now < pausedUntil g then [] else [(ThrottlePauseSeconds, [group g], SetTo (seconds_of (fst (NextBackOff lib (bo g)))))]))"
  "paused_updates now gate =
     (case gate of None \<Rightarrow> [] | Some g \<Rightarrow> if now < pausedUntil g then [] else [(ThrottlePauseSeconds, [group g], SetTo 0)])"
  by (cases gate; simp)+

lemma event_updates_ok: "list_all update_ok (event_updates state_name g e)"
  by (cases e) (auto simp: update_ok_def opts_def update_lists gate_updates list_all_iff Let_def split: prod.splits option.splits)

section \<open>The updates account for the operations\<close>

definition incs :: "metric \<Rightarrow> string list \<Rightarrow> metric_update list \<Rightarrow> nat" where
  "incs m vals us = length (filter (\<lambda>u. u = (m, vals, Inc)) us)"

definition observations :: "metric \<Rightarrow> string list \<Rightarrow> metric_update list \<Rightarrow> nat" where
  "observations m vals us = length (filter (\<lambda>(m', vals', op). m' = m \<and> vals' = vals \<and> is_Observe op) us)"

text \<open>The value a gauge was last set to.\<close>

fun gauge :: "metric \<Rightarrow> string list \<Rightarrow> metric_update list \<Rightarrow> rat option \<Rightarrow> rat option" where
  "gauge m vals [] v = v"
| "gauge m vals ((m', vals', op) # us) v =
     gauge m vals us (case op of SetTo x \<Rightarrow> if m' = m \<and> vals' = vals then Some x else v | _ \<Rightarrow> v)"

lemma count_append [simp]:
  "incs m vals (us @ vs) = incs m vals us + incs m vals vs"
  "observations m vals (us @ vs) = observations m vals us + observations m vals vs"
  by (simp_all add: incs_def observations_def)

definition balanced :: "string \<Rightarrow> string \<Rightarrow> metric_update list \<Rightarrow> bool" where
  "balanced g desc us \<longleftrightarrow>
     observations APIDuration [g, desc] us = incs APICallsTotal [g, desc] us \<and>
     incs APIErrorsTotal [g, desc] us \<le> incs APICallsTotal [g, desc] us \<and>
     observations InstanceCreationDuration [g] us = incs InstancesCreatedTotal [g] us + incs InstancesFailedTotal [g, ''create''] us \<and>
     observations InstanceDeletionDuration [g] us = incs InstancesDeletedTotal [g] us + incs InstancesFailedTotal [g, ''delete''] us \<and>
     observations GCDuration [g] us = incs GCRunsTotal [g] us \<and>
     observations ReconcileDuration [g] us = incs ReconcileTotal [g] us"

lemma balanced_append: "balanced g desc us \<Longrightarrow> balanced g desc vs \<Longrightarrow> balanced g desc (us @ vs)"
  by (auto simp: balanced_def)

lemma event_balanced: "balanced g desc (event_updates state_name g e)"
  by (cases e) (auto simp: balanced_def incs_def observations_def update_lists gate_updates Let_def o_def
    split: prod.splits option.splits)


text \<open>While the hold lasts and in the cycle that ends it, the hold gauge shows what the group does.\<close>

lemma hold_gauge:
  assumes "startupHold r"
  shows "gauge StartupHold [instanceGroupName (store r)] (updateStartupHold_updates clk pollOK r) v =
         Some (if startupHold (updateStartupHold clk pollOK r) then 1 else 0)"
  using assms by (auto simp: updateStartupHold_updates_def updateStartupHold_def endStartupHold_def Let_def split: prod.split)

text \<open>Two of the declared metrics are never updated.\<close>

lemma dead_metrics: "list_all (\<lambda>(m, vals, op). m \<noteq> InstancesCurrentByState \<and> m \<noteq> PoolMaxSize) (event_updates state_name g e)"
  by (cases e) (auto simp: update_lists gate_updates list_all_iff Let_def split: prod.splits option.splits)

text \<open>A hold that ends by its timeout leaves the number of leftovers in its gauge, which nothing sets afterwards.\<close>

lemma leftovers_gauge_stuck:
  assumes "startupHold r" and "startupPolled r" and "StartupCleanupTimeout (config r) \<le> time_sub (clk 3) (startedAt r)"
  shows "gauge StartupLeftoversRemaining [instanceGroupName (store r)] (updateStartupHold_updates clk pollOK r) v =
      Some (of_nat (fst (leftoverProgress (store r))))"
    and "updateStartupHold_updates clk' pollOK' (updateStartupHold clk pollOK r) = []"
  using assms by (auto simp: updateStartupHold_updates_def updateStartupHold_def endStartupHold_def Let_def split: prod.split)

end
