(* ===== verification/Version.thy ===== *)
theory Version
  imports Prelude
begin

text \<open>
  The version the plugin reports, \<^verbatim>\<open>src/version.go\<close>: the initialisation of the package from the build
  information of the Go runtime.
\<close>

definition NAME :: string where "NAME = ''fleeting-plugin-vcd''"

text \<open>The parts of \<^verbatim>\<open>debug.BuildInfo\<close> that are read; settings are pairs of a key and a value.\<close>

record BuildInfo =
  Main_Path :: string
  Main_Version :: string
  Main_Sum :: string
  build_Settings :: "(string \<times> string) list"

record VersionInfo =
  version_Name :: string
  version_Version :: string
  version_Revision :: string
  version_Reference :: string
  BuiltAt :: string

text \<open>Loading the package ends the process, panics at the index, or sets the version.\<close>

datatype init_result = Fatal string | IndexOutOfRange | VersionSet VersionInfo

definition version_init :: "BuildInfo option \<Rightarrow> init_result" where
  "version_init info =
     (case info of
        None \<Rightarrow> Fatal ''failed to read build info''
      | Some buildInfo \<Rightarrow>
          (case build_Settings buildInfo of
             [] \<Rightarrow> IndexOutOfRange
           | (key, value) # rest \<Rightarrow>
               VersionSet \<lparr>version_Name = NAME, version_Version = Main_Version buildInfo,
                 version_Revision = Main_Sum buildInfo, version_Reference = Main_Path buildInfo, BuiltAt = key\<rparr>))"

text \<open>The plugin loads exactly from a binary with build information that has a setting; what it reports as the time it
  was built is the key of the first setting, whatever its value.\<close>

lemma version_init_loads: "(\<exists>v. version_init info = VersionSet v) \<longleftrightarrow> (\<exists>b. info = Some b \<and> build_Settings b \<noteq> [])"
  by (auto simp: version_init_def split: option.splits list.splits)

lemma version_init_ignores_values:
  "version_init (Some (b\<lparr>build_Settings := (key, value) # rest\<rparr>)) = version_init (Some (b\<lparr>build_Settings := (key, value') # rest'\<rparr>))"
  by (simp add: version_init_def)

end
