(* ===== verification/Spec2Isabelle.thy ===== *)
theory Spec2Isabelle
  imports Reconciler_Props Store_Props Throttle_Props System_Props Phase_Machine Adequacy
    Create_Props Delete_Props Credential_Props Listing_Props Session_Props Provider Debug_Format Metrics Version
begin

text \<open>
  A model of \<^verbatim>\<open>fleeting-plugin-vcd\<close>, a plugin that keeps a pool of virtual machines in VMware Cloud Director
  (vCD) for GitLab's fleeting autoscaler, and the theorems that make it correct.

  \<^bold>\<open>The program.\<close> Fleeting asks for instances and gives them back through the provider interface
  (\<^verbatim>\<open>src/provider.go\<close>). The requests change a store of desired and observed state (\<^verbatim>\<open>src/store.go\<close>). A
  reconciler (\<^verbatim>\<open>src/reconciler.go\<close>) polls vCD, compares, and starts goroutines that create, delete or clean
  up vApps, within the limits of an operation limiter (\<^verbatim>\<open>src/oplimiter.go\<close>) and of a gate that pauses when
  vCD rejects operations (\<^verbatim>\<open>src/throttle.go\<close>). The goroutines talk to vCD (\<^verbatim>\<open>src/vcd.go\<close>,
  \<^verbatim>\<open>src/vcd_create.go\<close>) through wrappers that retry, renew the session and recover from panics of the SDK
  (\<^verbatim>\<open>src/vcd_safe.go\<close>, \<^verbatim>\<open>src/session.go\<close>). A debug server shows the state (\<^verbatim>\<open>src/debug.go\<close>, \<^verbatim>\<open>src/status.go\<close>)
  and metrics are exported (\<^verbatim>\<open>src/metrics.go\<close>). A new VM gets its credentials from a script (\<^verbatim>\<open>src/scripts.go\<close>).

  \<^bold>\<open>Theories and source.\<close>
  \<^item> \<open>Prelude\<close>: Go's instants, saturating durations, maps as association lists, string predicates; the
    locales \<open>invariant_system\<close> (invariants of reachable states) and \<open>simulation\<close> (functional refinement).
  \<^item> \<open>Instances\<close>: the phases and the instance record of \<^verbatim>\<open>src/instancegroup.go\<close>.
  \<^item> \<open>Store\<close>: every method of \<^verbatim>\<open>src/store.go\<close>, over a heap of instances and two maps of pointers to it, since
    the two Go maps share their objects. \<open>Store_Inv\<close> has the representation invariant, an abstract store
    without pointers and the refinement; \<open>Lifecycle\<close> says what clients can rely on (locale \<open>pointwise_op\<close>)
    and which fields are set in which phase; \<open>Store_Props\<close> has the properties.
  \<^item> \<open>External\<close>: the packages \<^verbatim>\<open>backoff\<close> and \<^verbatim>\<open>semaphore\<close> as records of functions, with their documented
    behaviour as predicates and concrete instances that satisfy them.
  \<^item> \<open>Throttle\<close>, \<open>Limiter\<close> (locale \<open>slot_pool\<close>) and \<open>Throttle_Props\<close>: \<^verbatim>\<open>src/throttle.go\<close> and \<^verbatim>\<open>src/oplimiter.go\<close>.
  \<^item> \<open>Errors\<close>: Go errors with wrapping, and the classifiers that read their texts.
  \<^item> \<open>Reconciler\<close> and \<open>Reconciler_Props\<close>: constants, poll, startup hold, circuit breaker, dispatchers, what the
    goroutines do when their vCD work returns, garbage collection, the cycle, \<^verbatim>\<open>publishStatus\<close>.
  \<^item> \<open>Run_Loop\<close>: the loop \<^verbatim>\<open>run\<close> and \<^verbatim>\<open>Shutdown\<close>.
  \<^item> \<open>System\<close>, \<open>System_Inv\<close>, \<open>System_Steps\<close>, \<open>System_Workers\<close>: the running plugin as a step relation. The
    reconcile goroutine, any number of worker goroutines, fleeting and vCD interleave; a step is what happens
    under one lock. \<open>System_Demo\<close> has reachable states used as examples, \<open>System_Props\<close> and \<open>Phase_Machine\<close> the
    properties, and \<open>Adequacy\<close> shows that a cycle of \<open>Reconciler\<close> is a run of these steps.
  \<^item> \<open>Naming\<close>: random names, \<^verbatim>\<open>src/utils.go\<close>. \<open>Config\<close>: \<^verbatim>\<open>src/config.go\<close>.
  \<^item> \<open>Calls\<close>: the session and the call wrappers. \<open>Vcd\<close>: the operations on vCD. Both are computations over the
    group's state that may fail, panic or not return; everything outside is the record \<open>env\<close>, whose answers
    may depend on all that happened before. Other goroutines may change the session and the gate whenever
    their locks are free.
  \<^item> \<open>Call_Logic\<close>: the documented behaviour of \<^verbatim>\<open>backoff.Retry\<close> (\<open>retry_documented\<close>), and the locales
    \<open>session_frame\<close> and \<open>call_frame\<close>: a relation that every elementary action obeys is obeyed by every
    operation. \<open>Vcd_Demo\<close> is a concrete vCD; \<open>Vcd_Props\<close>, \<open>Create_Props\<close>, \<open>Delete_Props\<close>, \<open>Listing_Props\<close>,
    \<open>Session_Props\<close> have the properties.
  \<^item> \<open>Scripts\<close>: the guest scripts and the templates they are; \<open>Credential_Props\<close>: what of them reaches the guest.
  \<^item> \<open>Provider\<close>: \<^verbatim>\<open>src/provider.go\<close>. \<open>Version\<close>: \<^verbatim>\<open>src/version.go\<close>.
  \<^item> \<open>Debug_View\<close>: the data of the debug pages and of the JSON status. \<open>Go_Format\<close>: how Go prints durations and
    times, with readers for both. \<open>Debug_Format\<close>: the template functions, the routes and the responses.
  \<^item> \<open>Metrics\<close>: the declared metrics and the updates each function makes to them.

  \<^bold>\<open>What is shown.\<close>
  \<^item> In every interleaving: a vApp of a create in flight is never taken for a leftover and deleted; transient
    phases have exactly one goroutine; phases move along the lifecycle only; the limits hold; nothing is
    created during the startup hold; only vApps whose deletion was requested are deleted.
  \<^item> The store refines an abstract map; its lookups agree; each operation changes only what it names.
  \<^item> Calls: requests that must not be repeated are not; failed calls leave objects as they were; a deletion
    counts as done only when vCD confirmed it; a create that fails hands its vApp to the cleanup; a listing
    accounts for every vApp; a token is exchanged once per generation.
  \<^item> Delays, pauses and cooldowns stay within their bounds; waits return; names are generated.
  \<^item> The script a guest gets differs from its template in the key line only, and is the only one sent.
  \<^item> What fleeting and the debug pages are told agrees with the store; the times shown read back; the counters and
    histograms of the metrics add up; a shutdown clears the pool.

  \<^bold>\<open>Hypotheses.\<close> Theorems about pauses and slots assume the documented behaviour of the backoff and semaphore
  packages, theorems about calls that of \<^verbatim>\<open>backoff.Retry\<close>. The interleaved model draws intent IDs, vApp names
  and HREFs that were not used before, as random names and vCD do. A context that ended stays ended.
  Nothing is assumed of the answers of vCD.

  \<^bold>\<open>Loops and bounds.\<close> A loop that may wait forever is a partial function whose value is \<open>None\<close> if it does not
  return: waiting for tasks, for the gate, for SSH, drawing names. Other loops are structural. No fuel is
  used. The session generation is a 64-bit word, the disk size and shown durations wrap at 64 bits, \<^verbatim>\<open>time.Sub\<close> saturates; other
  integers count things and are unbounded.

  \<^bold>\<open>Not modelled.\<close> Log calls; the Prometheus client, the HTTP router, the HTML template engine and the JSON encoder,
  which are third-party or library code the plugin only calls: metric updates are lists, routes a table, what a
  template or the encoder writes an argument. The entry point (\<^verbatim>\<open>src/cmd\<close>) only hands the group to the plugin
  framework. Of \<^verbatim>\<open>text/template\<close> only text and fields are modelled, which is all the scripts use. Floating-point seconds are
  rationals. Escapes of \<^verbatim>\<open>%q\<close> in error texts are left out. The panic recovery around a cycle is not needed, as the
  modelled cycle does not panic.
\<close>

end
